(* ===== verification/Prelude.thy ===== *)
theory Prelude
  imports Main "HOL-Library.Word" "HOL-Library.AList" "HOL-Library.Finite_Map"
begin

text \<open>
  Shared vocabulary of the development: the checked arithmetic of Rust's 64-bit
  integers, decimal printing, a state-and-error monad with its
  weakest-precondition equations, and the association-list facts that the
  directories of the durable state root rest on.

  A computation of type \<open>('s, 'e, 'a) comp\<close> maps a state to an outcome
  (\<open>Inl\<close> an error, \<open>Inr\<close> a value) and the state it leaves behind.  The state
  survives an error: a Rust function that returns early with \<open>?\<close> keeps every file
  it has already replaced.
\<close>

section \<open>Collections\<close>

named_theorems wp_eqs \<open>weakest-precondition equations of the monad operations\<close>
named_theorems read_only_intros \<open>rules showing that a computation leaves its state alone\<close>

section \<open>Machine integers\<close>

type_synonym u64 = "64 word"
type_synonym u32 = "32 word"
type_synonym u16 = "16 word"
type_synonym u128 = "128 word"

text \<open>Rust's \<open>u64::checked_add(1)\<close>.\<close>

definition checked_succ :: "u64 \<Rightarrow> u64 option" where
  "checked_succ x = (if x = - 1 then None else Some (x + 1))"

lemma checked_succ_SomeD:
  assumes "checked_succ x = Some y"
  shows "x < y" and "unat y = unat x + 1" and "y \<noteq> 0"
proof -
  have y: "y = x + 1" "x \<noteq> - 1"
    using assms by (auto simp: checked_succ_def split: if_splits)
  then have nz: "1 + x \<noteq> 0"
    by (simp add: add_eq_0_iff)
  then show un: "unat y = unat x + 1"
    using y(1) unatSuc [OF nz] by (simp add: add.commute)
  then show "x < y"
    by (simp add: word_less_nat_alt)
  show "y \<noteq> 0"
    using nz y(1) by (simp add: add.commute)
qed

lemma checked_succ_None_iff [simp]: "checked_succ x = None \<longleftrightarrow> x = - 1"
  by (simp add: checked_succ_def)

section \<open>Decimal printing\<close>

definition digit_char :: "nat \<Rightarrow> char" where
  "digit_char d = char_of (48 + d)"

definition char_digit :: "char \<Rightarrow> nat" where
  "char_digit c = of_char c - 48"

definition is_digit :: "char \<Rightarrow> bool" where
  "is_digit c \<longleftrightarrow> 48 \<le> (of_char c :: nat) \<and> (of_char c :: nat) \<le> 57"

lemma of_char_digit_char:
  assumes "d < 10"
  shows "(of_char (digit_char d) :: nat) = 48 + d"
  using assms by (simp add: digit_char_def)

lemma is_digit_digit_char [simp]: "d < 10 \<Longrightarrow> is_digit (digit_char d)"
  by (simp add: is_digit_def of_char_digit_char)

lemma char_digit_digit_char [simp]: "d < 10 \<Longrightarrow> char_digit (digit_char d) = d"
  by (simp add: char_digit_def of_char_digit_char)

text \<open>The \<open>{}\<close> formatting of an unsigned integer: no leading zeroes.\<close>

fun print_nat :: "nat \<Rightarrow> string" where
  "print_nat n = (if n < 10 then [digit_char n] else print_nat (n div 10) @ [digit_char (n mod 10)])"

declare print_nat.simps [simp del]

text \<open>The \<open>{:0w}\<close> formatting for values of at most \<open>w\<close> digits.\<close>

primrec print_padded :: "nat \<Rightarrow> nat \<Rightarrow> string" where
  "print_padded 0 n = []"
| "print_padded (Suc w) n = print_padded w (n div 10) @ [digit_char (n mod 10)]"

text \<open>Decimal parsing, most significant digit first.\<close>

definition parse_nat :: "string \<Rightarrow> nat" where
  "parse_nat = foldl (\<lambda>acc c. 10 * acc + char_digit c) 0"

lemma parse_nat_snoc [simp]: "parse_nat (xs @ [c]) = 10 * parse_nat xs + char_digit c"
  by (simp add: parse_nat_def)

lemma parse_nat_Nil [simp]: "parse_nat [] = 0"
  by (simp add: parse_nat_def)

lemma length_print_padded [simp]: "length (print_padded w n) = w"
  by (induction w arbitrary: n) auto

lemma digits_print_padded: "list_all is_digit (print_padded w n)"
  by (induction w arbitrary: n) auto

lemma parse_print_padded: "n < 10 ^ w \<Longrightarrow> parse_nat (print_padded w n) = n"
proof (induction w arbitrary: n)
  case 0
  then show ?case by simp
next
  case (Suc w)
  then have "n div 10 < 10 ^ w" by (simp add: less_mult_imp_div_less mult.commute)
  with Suc show ?case by simp
qed

lemma parse_print_nat: "parse_nat (print_nat n) = n"
proof (induction n rule: print_nat.induct)
  case (1 n)
  show ?case
  proof (cases "n < 10")
    case True
    then show ?thesis
      by (subst print_nat.simps) (simp add: parse_nat_def)
  next
    case False
    then show ?thesis
      using 1 by (subst print_nat.simps) simp
  qed
qed

lemma print_nat_inject [simp]: "print_nat m = print_nat n \<longleftrightarrow> m = n"
  by (metis parse_print_nat)

lemma digits_print_nat: "list_all is_digit (print_nat n)"
proof (induction n rule: print_nat.induct)
  case (1 n)
  then show ?case
    by (subst print_nat.simps) auto
qed

section \<open>The state-and-error monad\<close>

type_synonym ('s, 'e, 'a) comp = "'s \<Rightarrow> ('e + 'a) \<times> 's"

definition m_return :: "'a \<Rightarrow> ('s, 'e, 'a) comp" where
  "m_return x = (\<lambda>s. (Inr x, s))"

definition m_throw :: "'e \<Rightarrow> ('s, 'e, 'a) comp" where
  "m_throw e = (\<lambda>s. (Inl e, s))"

text \<open>A \<open>Result\<close> computed without touching the state, followed by \<open>?\<close>.\<close>

definition m_lift :: "'e + 'a \<Rightarrow> ('s, 'e, 'a) comp" where
  "m_lift r = (\<lambda>s. (r, s))"

definition m_gets :: "('s \<Rightarrow> 'a) \<Rightarrow> ('s, 'e, 'a) comp" where
  "m_gets f = (\<lambda>s. (Inr (f s), s))"

definition m_modify :: "('s \<Rightarrow> 's) \<Rightarrow> ('s, 'e, unit) comp" where
  "m_modify f = (\<lambda>s. (Inr (), f s))"

definition m_bind :: "('s, 'e, 'a) comp \<Rightarrow> ('a \<Rightarrow> ('s, 'e, 'b) comp) \<Rightarrow> ('s, 'e, 'b) comp" where
  "m_bind m f = (\<lambda>s. case m s of (Inl e, s') \<Rightarrow> (Inl e, s') | (Inr x, s') \<Rightarrow> f x s')"

text \<open>Run a computation and hand its \<open>Result\<close> to a \<open>match\<close>.\<close>

definition m_try :: "('s, 'e, 'a) comp \<Rightarrow> ('s, 'e, 'e + 'a) comp" where
  "m_try m = (\<lambda>s. case m s of (r, s') \<Rightarrow> (Inr r, s'))"

text \<open>\<open>if c { return Err(e) }\<close>.\<close>

definition m_reject :: "bool \<Rightarrow> 'e \<Rightarrow> ('s, 'e, unit) comp" where
  "m_reject c e = (if c then m_throw e else m_return ())"

text \<open>A \<open>for\<close> loop whose body may return early with an error.\<close>

primrec m_foreach :: "'x list \<Rightarrow> ('x \<Rightarrow> ('s, 'e, unit) comp) \<Rightarrow> ('s, 'e, unit) comp" where
  "m_foreach [] f = m_return ()"
| "m_foreach (x # xs) f = m_bind (f x) (\<lambda>_. m_foreach xs f)"

text \<open>A \<open>for\<close> loop with an accumulator.\<close>

primrec m_fold :: "'x list \<Rightarrow> ('x \<Rightarrow> 'acc \<Rightarrow> ('s, 'e, 'acc) comp) \<Rightarrow> 'acc \<Rightarrow> ('s, 'e, 'acc) comp" where
  "m_fold [] f acc = m_return acc"
| "m_fold (x # xs) f acc = m_bind (f x acc) (\<lambda>acc'. m_fold xs f acc')"

text \<open>\<open>Result::map_err\<close>.\<close>

fun map_err :: "('e \<Rightarrow> 'f) \<Rightarrow> 'e + 'a \<Rightarrow> 'f + 'a" where
  "map_err f (Inl e) = Inl (f e)"
| "map_err f (Inr x) = Inr x"

fun is_ok :: "'e + 'a \<Rightarrow> bool" where
  "is_ok (Inl e) = False"
| "is_ok (Inr x) = True"

lemma is_ok_iff: "is_ok r \<longleftrightarrow> (\<exists>x. r = Inr x)"
  by (cases r) auto

fun ok_or :: "'e \<Rightarrow> 'a option \<Rightarrow> 'e + 'a" where
  "ok_or e None = Inl e"
| "ok_or e (Some x) = Inr x"

text \<open>Sequencing of \<open>Result\<close>s in pure code.\<close>

fun r_bind :: "'e + 'a \<Rightarrow> ('a \<Rightarrow> 'e + 'b) \<Rightarrow> 'e + 'b" where
  "r_bind (Inl e) f = Inl e"
| "r_bind (Inr x) f = f x"

definition r_reject :: "bool \<Rightarrow> 'e \<Rightarrow> 'e + unit" where
  "r_reject c e = (if c then Inl e else Inr ())"

lemma r_bind_Inr_iff: "r_bind r f = Inr y \<longleftrightarrow> (\<exists>x. r = Inr x \<and> f x = Inr y)"
  by (cases r) auto

lemma r_reject_Inr [simp]: "r_reject c e = Inr u \<longleftrightarrow> \<not> c"
  by (simp add: r_reject_def)

lemma map_err_Inr [simp]: "map_err f r = Inr x \<longleftrightarrow> r = Inr x"
  by (cases r) auto

lemma ok_or_Inr [simp]: "ok_or e r = Inr x \<longleftrightarrow> r = Some x"
  by (cases r) auto

subsection \<open>Evaluation equations\<close>

lemmas m_defs = m_return_def m_throw_def m_lift_def m_gets_def m_modify_def m_bind_def m_try_def
  m_reject_def

lemma m_return_apply: "m_return x s = (Inr x, s)"
  by (simp add: m_return_def)

lemma m_bind_return_left [simp]: "m_bind (m_return x) f = f x"
  by (simp add: m_bind_def m_return_def)

lemma m_bind_Inr: "m s = (Inr x, s') \<Longrightarrow> m_bind m f s = f x s'"
  by (simp add: m_bind_def)

lemma m_bind_Inl: "m s = (Inl e, s') \<Longrightarrow> m_bind m f s = (Inl e, s')"
  by (simp add: m_bind_def)

subsection \<open>Weakest preconditions\<close>

text \<open>The postcondition sees both the outcome and the final state, so that early returns are
  constrained too.\<close>

definition wp :: "('s, 'e, 'a) comp \<Rightarrow> ('e + 'a \<Rightarrow> 's \<Rightarrow> bool) \<Rightarrow> 's \<Rightarrow> bool" where
  "wp m Q s = (case m s of (r, s') \<Rightarrow> Q r s')"

lemma wp_return [wp_eqs]: "wp (m_return x) Q s = Q (Inr x) s"
  by (simp add: wp_def m_return_def)

lemma wp_throw [wp_eqs]: "wp (m_throw e) Q s = Q (Inl e) s"
  by (simp add: wp_def m_throw_def)

lemma wp_lift [wp_eqs]: "wp (m_lift r) Q s = Q r s"
  by (simp add: wp_def m_lift_def)

lemma wp_gets [wp_eqs]: "wp (m_gets f) Q s = Q (Inr (f s)) s"
  by (simp add: wp_def m_gets_def)

lemma wp_modify [wp_eqs]: "wp (m_modify f) Q s = Q (Inr ()) (f s)"
  by (simp add: wp_def m_modify_def)

lemma wp_bind [wp_eqs]:
  "wp (m_bind m f) Q s = wp m (\<lambda>r s'. case r of Inl e \<Rightarrow> Q (Inl e) s' | Inr x \<Rightarrow> wp (f x) Q s') s"
  by (simp add: wp_def m_bind_def split: prod.split sum.split)

lemma wp_try [wp_eqs]: "wp (m_try m) Q s = wp m (\<lambda>r. Q (Inr r)) s"
  by (simp add: wp_def m_try_def split: prod.split)

lemma wp_reject [wp_eqs]: "wp (m_reject c e) Q s = (if c then Q (Inl e) s else Q (Inr ()) s)"
  by (simp add: wp_def m_reject_def m_return_def m_throw_def)

lemma wp_mono:
  assumes "wp m P s" and "\<And>r s'. P r s' \<Longrightarrow> Q r s'"
  shows "wp m Q s"
  using assms by (auto simp: wp_def split: prod.splits)

subsection \<open>Read-only computations\<close>

definition read_only :: "('s, 'e, 'a) comp \<Rightarrow> bool" where
  "read_only m \<longleftrightarrow> (\<forall>s. snd (m s) = s)"

lemma read_onlyD: "read_only m \<Longrightarrow> m s = (r, s') \<Longrightarrow> s' = s"
  by (metis read_only_def snd_conv)

lemma read_only_wp: "read_only m \<Longrightarrow> wp m Q s = Q (fst (m s)) s"
  by (auto simp: read_only_def wp_def split: prod.split) (metis snd_conv)+

lemma read_only_return [read_only_intros]: "read_only (m_return x)"
  by (simp add: read_only_def m_return_def)

lemma read_only_throw [read_only_intros]: "read_only (m_throw e)"
  by (simp add: read_only_def m_throw_def)

lemma read_only_lift [read_only_intros]: "read_only (m_lift r)"
  by (simp add: read_only_def m_lift_def)

lemma read_only_gets [read_only_intros]: "read_only (m_gets f)"
  by (simp add: read_only_def m_gets_def)

lemma read_only_reject [read_only_intros]: "read_only (m_reject c e)"
  by (simp add: read_only_def m_reject_def m_return_def m_throw_def)

lemma read_only_bind [read_only_intros]:
  assumes "read_only m" and "\<And>x. read_only (f x)"
  shows "read_only (m_bind m f)"
  using assms by (auto simp: read_only_def m_bind_def split: prod.split sum.split) (metis snd_conv)+

lemma read_only_try [read_only_intros]: "read_only m \<Longrightarrow> read_only (m_try m)"
  by (auto simp: read_only_def m_try_def split: prod.split) (metis snd_conv)

lemma read_only_if [read_only_intros]:
  "read_only m \<Longrightarrow> read_only n \<Longrightarrow> read_only (if c then m else n)"
  by simp

lemma read_only_case_option [read_only_intros]:
  "read_only m \<Longrightarrow> (\<And>x. read_only (f x)) \<Longrightarrow> read_only (case v of None \<Rightarrow> m | Some x \<Rightarrow> f x)"
  by (cases v) auto

lemma read_only_case_sum [read_only_intros]:
  "(\<And>e. read_only (m e)) \<Longrightarrow> (\<And>x. read_only (f x)) \<Longrightarrow> read_only (case v of Inl e \<Rightarrow> m e | Inr x \<Rightarrow> f x)"
  by (cases v) auto

lemma read_only_case_prod [read_only_intros]:
  "(\<And>x y. read_only (f x y)) \<Longrightarrow> read_only (case p of (x, y) \<Rightarrow> f x y)"
  by (cases p) auto

lemma read_only_foreach [read_only_intros]:
  "(\<And>x. read_only (f x)) \<Longrightarrow> read_only (m_foreach xs f)"
  by (induction xs) (auto intro!: read_only_intros)

lemma read_only_fold [read_only_intros]:
  "(\<And>x acc. read_only (f x acc)) \<Longrightarrow> read_only (m_fold xs f acc)"
  by (induction xs arbitrary: acc) (auto intro!: read_only_intros)

subsection \<open>Loops\<close>

lemma m_fold_append:
  "m_fold (xs @ ys) f acc = m_bind (m_fold xs f acc) (\<lambda>acc'. m_fold ys f acc')"
proof (induction xs arbitrary: acc)
  case Nil
  then show ?case by simp
next
  case (Cons x xs)
  then show ?case
    by (auto simp: m_bind_def fun_eq_iff split: prod.splits sum.splits)
qed

lemma m_foreach_append:
  "m_foreach (xs @ ys) f = m_bind (m_foreach xs f) (\<lambda>_. m_foreach ys f)"
proof (induction xs)
  case Nil
  then show ?case by simp
next
  case (Cons x xs)
  then show ?case
    by (auto simp: m_bind_def fun_eq_iff split: prod.splits sum.splits)
qed

lemma m_foreach_ok: "(\<And>x. x \<in> set xs \<Longrightarrow> f x s = (Inr (), s)) \<Longrightarrow> m_foreach xs f s = (Inr (), s)"
  by (induction xs) (auto simp: m_return_apply m_bind_Inr)

lemma m_fold_skip: "(\<And>x a. x \<in> set xs \<Longrightarrow> f x a s = (Inr a, s)) \<Longrightarrow> m_fold xs f acc s = (Inr acc, s)"
  by (induction xs) (auto simp: m_return_apply m_bind_Inr)

lemma m_fold_Inr_induct:
  assumes "m_fold xs f acc s = (Inr r, s')" and "P [] acc s"
    and "\<And>ys x a t a' t'. P ys a t \<Longrightarrow> x \<in> set xs \<Longrightarrow> f x a t = (Inr a', t') \<Longrightarrow> P (ys @ [x]) a' t'"
  shows "P xs r s'"
proof -
  have "P (zs @ xs) r s'"
    if "m_fold xs f acc s = (Inr r, s')" "P zs acc s"
      "\<And>ys x a t a' t'. P ys a t \<Longrightarrow> x \<in> set xs \<Longrightarrow> f x a t = (Inr a', t') \<Longrightarrow> P (ys @ [x]) a' t'"
    for zs
    using that
  proof (induction xs arbitrary: zs acc s)
    case Nil
    then show ?case by (simp add: m_return_apply)
  next
    case (Cons x xs)
    then obtain a1 s1 where 1: "f x acc s = (Inr a1, s1)" "m_fold xs f a1 s1 = (Inr r, s')"
      by (auto simp: m_bind_def split: prod.splits sum.splits)
    then have "P (zs @ [x]) a1 s1" using Cons.prems by auto
    then have "P ((zs @ [x]) @ xs) r s'"
      using 1 Cons.prems by (intro Cons.IH [of a1 s1]) auto
    then show ?case by simp
  qed
  from this [of "[]"] assms show ?thesis by auto
qed

section \<open>Association lists\<close>

text \<open>A directory is an association list from entry names to contents; \<open>put\<close> replaces or appends
  an entry and \<open>AList.delete\<close> removes one.\<close>

abbreviation put :: "'k \<Rightarrow> 'v \<Rightarrow> ('k \<times> 'v) list \<Rightarrow> ('k \<times> 'v) list" where
  "put \<equiv> AList.update"

lemma map_of_put [simp]: "map_of (put k v al) k' = (if k' = k then Some v else map_of al k')"
  by (simp add: update_conv')

lemma map_of_remove [simp]: "map_of (AList.delete k al) k' = (if k' = k then None else map_of al k')"
  by (simp add: delete_conv')

text \<open>Key uniqueness is kept folded: unfolded it makes the simplifier trade lookups for membership.\<close>

definition distinct_keys :: "('k \<times> 'v) list \<Rightarrow> bool" where
  "distinct_keys al \<longleftrightarrow> distinct (map fst al)"

lemma distinct_keys_Nil [simp]: "distinct_keys []"
  by (simp add: distinct_keys_def)

lemma distinct_keys_put [simp, intro]: "distinct_keys al \<Longrightarrow> distinct_keys (put k v al)"
  unfolding distinct_keys_def by (rule distinct_update)

lemma distinct_keys_remove [simp, intro]: "distinct_keys al \<Longrightarrow> distinct_keys (AList.delete k al)"
  unfolding distinct_keys_def by (rule distinct_delete)

lemma distinct_keys_lookup: "distinct_keys al \<Longrightarrow> (k, v) \<in> set al \<longleftrightarrow> map_of al k = Some v"
  by (simp add: distinct_keys_def)

end
