(* ===== verification/Lifecycle.thy ===== *)
theory Lifecycle
  imports Prelude
begin

text \<open>
  The platform-neutral core crate: the durable OCI lifecycle automaton
  (\<open>crates/core/src/lifecycle.rs\<close>) and the driver capability inventory
  (\<open>crates/core/src/capability.rs\<close>).  The lemmas give every automaton step a rank that
  strictly increases, so that an accepted event sequence is bounded and no state is revisited.
\<close>

section \<open>Lifecycle automaton\<close>

datatype LifecycleState = Creating | Created | Running | Stopped

datatype LifecycleEvent = CreateCompleted | StartCompleted | ProcessExited

record TransitionError =
  te_state :: LifecycleState
  te_event :: LifecycleEvent

fun transition :: "LifecycleState \<Rightarrow> LifecycleEvent \<Rightarrow> TransitionError + LifecycleState" where
  "transition Creating CreateCompleted = Inr Created"
| "transition Created StartCompleted = Inr Running"
| "transition Created ProcessExited = Inr Stopped"
| "transition Running ProcessExited = Inr Stopped"
| "transition state event = Inl \<lparr>te_state = state, te_event = event\<rparr>"

text \<open>An event sequence applied left to right, stopping at the first rejected event.\<close>

primrec run_events :: "LifecycleState \<Rightarrow> LifecycleEvent list \<Rightarrow> TransitionError + LifecycleState" where
  "run_events s [] = Inr s"
| "run_events s (e # es) = r_bind (transition s e) (\<lambda>s'. run_events s' es)"

fun lifecycle_rank :: "LifecycleState \<Rightarrow> nat" where
  "lifecycle_rank Creating = 0"
| "lifecycle_rank Created = 1"
| "lifecycle_rank Running = 2"
| "lifecycle_rank Stopped = 3"

lemma transition_rank: "transition s e = Inr s' \<Longrightarrow> lifecycle_rank s < lifecycle_rank s'"
  by (cases "(s, e)" rule: transition.cases) auto

lemma rank_bound: "lifecycle_rank s \<le> 3"
  by (cases s) auto

lemma run_events_rank:
  "run_events s es = Inr s' \<Longrightarrow> lifecycle_rank s + length es \<le> lifecycle_rank s'"
proof (induction es arbitrary: s)
  case Nil
  then show ?case by simp
next
  case (Cons e es)
  then obtain s1 where "transition s e = Inr s1" "run_events s1 es = Inr s'"
    by (auto simp: r_bind_Inr_iff)
  with Cons.IH [of s1] transition_rank [of s e s1] show ?case by simp
qed

lemma transition_Running_iff:
  "transition s e = Inr Running \<longleftrightarrow> s = Created \<and> e = StartCompleted"
  by (cases "(s, e)" rule: transition.cases) auto

lemma run_events_snoc:
  "run_events s (es @ [e]) = r_bind (run_events s es) (\<lambda>s'. transition s' e)"
proof (induction es arbitrary: s)
  case Nil
  then show ?case by (cases "transition s e") auto
next
  case (Cons a es)
  then show ?case by (cases "transition s a") auto
qed

lemma run_events_Created_iff:
  "run_events Creating es = Inr Created \<longleftrightarrow> es = [CreateCompleted]"
proof
  assume run: "run_events Creating es = Inr Created"
  then have "length es \<le> 1" using run_events_rank [OF run] by simp
  with run show "es = [CreateCompleted]"
    by (cases es; cases "hd es") (auto simp: length_Suc_conv)
qed simp

section \<open>Driver capabilities\<close>

datatype HostPlatform = Linux | Macos | Windows | UnsupportedPlatform

datatype DriverKind = NativeLinux | LibkrunKvm | LibkrunHvf | LibkrunWhpx

datatype IsolationClass = DedicatedVm | SharedGuestKernel | SharedHostKernel

datatype CapabilityStatus = Available | CapabilityUnavailable | CapabilityUnsupported

datatype DriverReadiness = ProbeOnly | Experimental | Supported

record DriverCapability =
  dc_driver :: DriverKind
  dc_status :: CapabilityStatus
  dc_readiness :: DriverReadiness
  dc_isolation_classes :: "IsolationClass list"
  dc_reason :: "string option"
  dc_evidence :: "(string, string) fmap"

definition can_launch :: "DriverCapability \<Rightarrow> bool" where
  "can_launch c \<longleftrightarrow> dc_status c = Available \<and> dc_readiness c \<in> {Experimental, Supported}"

record RuntimeFeatures =
  rf_schema_version :: string
  rf_platform :: HostPlatform
  rf_architecture :: string
  rf_drivers :: "DriverCapability list"

text \<open>\<open>RuntimeFeatures::driver\<close>: the first entry of the requested kind.\<close>

definition features_driver :: "RuntimeFeatures \<Rightarrow> DriverKind \<Rightarrow> DriverCapability option" where
  "features_driver f k = List.find (\<lambda>c. dc_driver c = k) (rf_drivers f)"

lemma features_driver_SomeD:
  "features_driver f k = Some c \<Longrightarrow> c \<in> set (rf_drivers f) \<and> dc_driver c = k"
  by (auto simp: features_driver_def find_Some_iff)

section \<open>Properties\<close>

text \<open>C28 \<open>(lifecycle order)\<close>: every accepted sequence of lifecycle events that leaves a container
  running is exactly create completion followed by start completion, and no accepted sequence from
  creation has more than three events.  So a user process never runs before an explicit start and
  no lifecycle state is entered twice.\<close>

theorem lifecycle_runs_only_after_create_and_start:
  "(run_events Creating es = Inr Running \<longleftrightarrow> es = [CreateCompleted, StartCompleted])
   \<and> (run_events Creating es = Inr s \<longrightarrow> length es \<le> 3)"
proof (intro conjI impI)
  show "run_events Creating es = Inr Running \<longleftrightarrow> es = [CreateCompleted, StartCompleted]"
  proof (cases es rule: rev_cases)
    case Nil
    then show ?thesis by simp
  next
    case (snoc ys y)
    then show ?thesis
      by (auto simp: run_events_snoc r_bind_Inr_iff transition_Running_iff run_events_Created_iff)
  qed
next
  assume "run_events Creating es = Inr s"
  from run_events_rank [OF this] rank_bound [of s] show "length es \<le> 3" by simp
qed

theorem lifecycle_runs_only_after_create_and_start_witness:
  "run_events Creating [CreateCompleted, StartCompleted, ProcessExited] = Inr Stopped
   \<and> length [CreateCompleted, StartCompleted, ProcessExited] \<le> 3"
  using lifecycle_runs_only_after_create_and_start
    [of "[CreateCompleted, StartCompleted, ProcessExited]" Stopped] by simp

end
