(* ===== verification/Identifiers.thy ===== *)
theory Identifiers
  imports Lifecycle "HOL-Library.Sublist"
begin

text \<open>
  Errors of the SDK (\<open>crates/sdk/src/error.rs\<close>) and its validated identifiers
  (\<open>crates/sdk/src/id.rs\<close>), together with the file-name conventions of the durable root that rely
  on them: \<open><id>.json\<close> records, \<open>.<name>.next\<close> transaction files and quarantine tombstones.
  A string is a list of bytes, as in Rust's \<open>str::as_bytes\<close>.
\<close>

section \<open>Errors\<close>

datatype ErrorCode =
    InvalidArgument | NotFound | AlreadyExists | FailedPrecondition | Unsupported
  | PermissionDenied | ResourceExhausted | DeadlineExceeded | Conflict | Unavailable | Internal

record error =
  err_code :: ErrorCode
  err_operation :: "string option"
  err_message :: string
  err_retryable :: bool

definition error_new :: "ErrorCode \<Rightarrow> error" where
  "error_new c = \<lparr>err_code = c, err_operation = None, err_message = [], err_retryable = False\<rparr>"

definition for_operation :: "string \<Rightarrow> error \<Rightarrow> error" where
  "for_operation op e = e\<lparr>err_operation := Some op\<rparr>"

definition retryable :: "bool \<Rightarrow> error \<Rightarrow> error" where
  "retryable b e = e\<lparr>err_retryable := b\<rparr>"

text \<open>\<open>state_error\<close> of \<open>state/filesystem.rs\<close>.  Diagnostic text assembled with \<open>format!\<close> is not
  modelled: an error raised by the store carries the empty message.\<close>

definition state_error :: "ErrorCode \<Rightarrow> string \<Rightarrow> error" where
  "state_error c op = for_operation op (error_new c)"

lemma state_error_sel [simp]:
  "err_code (state_error c op) = c"
  "err_operation (state_error c op) = Some op"
  "err_retryable (state_error c op) = False"
  by (simp_all add: state_error_def for_operation_def error_new_def)

lemma retryable_sel [simp]:
  "err_code (retryable b e) = err_code e"
  "err_operation (retryable b e) = err_operation e"
  "err_retryable (retryable b e) = b"
  by (simp_all add: retryable_def)

section \<open>Identifier validation\<close>

definition MAX_IDENTIFIER_BYTES :: nat where
  "MAX_IDENTIFIER_BYTES = 128"

definition byte :: "char \<Rightarrow> nat" where
  "byte c = of_char c"

definition is_ascii_lower :: "char \<Rightarrow> bool" where
  "is_ascii_lower c \<longleftrightarrow> 97 \<le> byte c \<and> byte c \<le> 122"

definition is_ascii_upper :: "char \<Rightarrow> bool" where
  "is_ascii_upper c \<longleftrightarrow> 65 \<le> byte c \<and> byte c \<le> 90"

definition is_ascii_alphanumeric :: "char \<Rightarrow> bool" where
  "is_ascii_alphanumeric c \<longleftrightarrow> is_ascii_lower c \<or> is_ascii_upper c \<or> is_digit c"

definition to_ascii_lower :: "char \<Rightarrow> char" where
  "to_ascii_lower c = (if is_ascii_upper c then char_of (byte c + 32) else c)"

definition eq_ignore_ascii_case :: "string \<Rightarrow> string \<Rightarrow> bool" where
  "eq_ignore_ascii_case a b \<longleftrightarrow> map to_ascii_lower a = map to_ascii_lower b"

text \<open>\<open>value.split_once('.')\<close>, or the whole value when it has no dot.\<close>

definition basename :: "string \<Rightarrow> string" where
  "basename value = takeWhile (\<lambda>c. c \<noteq> CHR ''.'') value"

definition is_windows_reserved_name :: "string \<Rightarrow> bool" where
  "is_windows_reserved_name value =
     (let base = basename value in
        eq_ignore_ascii_case base ''CON'' \<or> eq_ignore_ascii_case base ''PRN''
        \<or> eq_ignore_ascii_case base ''AUX'' \<or> eq_ignore_ascii_case base ''NUL''
        \<or> (length base = 4 \<and> 49 \<le> byte (base ! 3) \<and> byte (base ! 3) \<le> 57
            \<and> (eq_ignore_ascii_case (take 3 base) ''COM''
                \<or> eq_ignore_ascii_case (take 3 base) ''LPT'')))"

definition is_path_safe :: "char \<Rightarrow> bool" where
  "is_path_safe c \<longleftrightarrow> is_ascii_alphanumeric c \<or> c \<in> set ''_.+-''"

fun validate_identifier :: "string \<Rightarrow> error + string" where
  "validate_identifier [] = Inl (error_new InvalidArgument)"
| "validate_identifier (first # bytes) =
     (let value = first # bytes in
      if length value > MAX_IDENTIFIER_BYTES then Inl (error_new InvalidArgument)
      else if \<not> is_ascii_alphanumeric first then Inl (error_new InvalidArgument)
      else if \<not> list_all is_path_safe bytes then Inl (error_new InvalidArgument)
      else if last value = CHR ''.'' \<or> is_windows_reserved_name value
        then Inl (error_new InvalidArgument)
      else Inr value)"

definition valid_id :: "string \<Rightarrow> bool" where
  "valid_id value \<longleftrightarrow> validate_identifier value = Inr value"

definition INIT_PROCESS_ID :: string where
  "INIT_PROCESS_ID = ''init''"

definition is_init :: "string \<Rightarrow> bool" where
  "is_init pid \<longleftrightarrow> pid = INIT_PROCESS_ID"

lemma validate_identifier_Inr: "validate_identifier v = Inr w \<Longrightarrow> w = v \<and> valid_id v"
  by (cases v) (auto simp: valid_id_def Let_def split: if_splits)

lemma valid_idD:
  assumes "valid_id v"
  shows "v \<noteq> []" and "length v \<le> 128" and "is_ascii_alphanumeric (hd v)"
    and "list_all is_path_safe v" and "last v \<noteq> CHR ''.''" and "\<not> is_windows_reserved_name v"
  using assms
  by (cases v; auto simp: valid_id_def Let_def MAX_IDENTIFIER_BYTES_def is_path_safe_def
        split: if_splits)+

section \<open>File names of the durable root\<close>

text \<open>\<open>str::strip_suffix\<close>.\<close>

definition strip_suffix_str :: "string \<Rightarrow> string \<Rightarrow> string option" where
  "strip_suffix_str suf name =
     (if suffix suf name then Some (take (length name - length suf) name) else None)"

lemma strip_suffix_append [simp]: "strip_suffix_str suf (name @ suf) = Some name"
  by (simp add: strip_suffix_str_def suffixI)

lemma strip_suffix_SomeD: "strip_suffix_str suf name = Some stem \<Longrightarrow> name = stem @ suf"
  by (auto simp: strip_suffix_str_def suffix_def split: if_splits)

definition json_name :: "string \<Rightarrow> string" where
  "json_name stem = stem @ ''.json''"

definition transaction_name :: "string \<Rightarrow> string" where
  "transaction_name name = CHR ''.'' # name @ ''.next''"

text \<open>\<open>is_transaction_file\<close> of \<open>state/event.rs\<close>.\<close>

definition is_transaction_file :: "string \<Rightarrow> bool" where
  "is_transaction_file name \<longleftrightarrow> name \<noteq> [] \<and> hd name = CHR ''.'' \<and> suffix ''.next'' name"

lemma is_transaction_transaction_name [simp]: "is_transaction_file (transaction_name n)"
proof -
  have "suffix ''.next'' ((CHR ''.'' # n) @ ''.next'')"
    by (rule suffixI) (rule refl)
  then show ?thesis
    by (simp add: is_transaction_file_def transaction_name_def)
qed

lemma alnum_not_dot: "is_ascii_alphanumeric c \<Longrightarrow> c \<noteq> CHR ''.''"
  by (auto simp: is_ascii_alphanumeric_def is_ascii_lower_def is_ascii_upper_def is_digit_def
      byte_def)

lemma path_safe_not_separator:
  "is_path_safe c \<Longrightarrow> c \<noteq> CHR ''/'' \<and> byte c \<noteq> 92 \<and> byte c \<noteq> 0 \<and> c \<noteq> CHR '':'' "
  by (auto simp: is_path_safe_def is_ascii_alphanumeric_def is_ascii_lower_def is_ascii_upper_def
      is_digit_def byte_def)

text \<open>C29 \<open>(identifier safety)\<close>: an accepted identifier is between 1 and 128 bytes, holds no path
  separator, NUL or colon, does not start with a dot (so it is neither \<open>.\<close>, \<open>..\<close> nor a transaction
  file), and names its record uniquely: stripping \<open>.json\<close> from the record name gives it back, and
  the record name is never mistaken for a transaction file.\<close>

theorem validated_identifier_is_path_safe:
  assumes "validate_identifier v = Inr w"
  shows "w = v \<and> 1 \<le> length v \<and> length v \<le> 128
    \<and> (\<forall>c \<in> set v. c \<noteq> CHR ''/'' \<and> byte c \<noteq> 92 \<and> byte c \<noteq> 0 \<and> c \<noteq> CHR '':'')
    \<and> hd v \<noteq> CHR ''.'' \<and> last v \<noteq> CHR ''.''
    \<and> strip_suffix_str ''.json'' (json_name v) = Some v \<and> \<not> is_transaction_file (json_name v)"
proof -
  from assms have w: "w = v" and v: "valid_id v"
    using validate_identifier_Inr by blast+
  note d = valid_idD [OF v]
  have hd: "hd v \<noteq> CHR ''.''" using alnum_not_dot [OF d(3)] .
  have sep: "\<forall>c \<in> set v. c \<noteq> CHR ''/'' \<and> byte c \<noteq> 92 \<and> byte c \<noteq> 0 \<and> c \<noteq> CHR '':''"
    using d(4) path_safe_not_separator unfolding list_all_iff by blast
  have tx: "\<not> is_transaction_file (json_name v)"
    using hd d(1) by (simp add: is_transaction_file_def json_name_def hd_append)
  have len: "1 \<le> length v" using d(1) by (simp add: Suc_le_eq)
  have json: "strip_suffix_str ''.json'' (json_name v) = Some v"
    unfolding json_name_def by (rule strip_suffix_append)
  show ?thesis
    using w len d(2) sep hd d(5) json tx by blast
qed

theorem validated_identifier_is_path_safe_witness:
  "validate_identifier ''box_01.worker'' = Inr ''box_01.worker''
   \<and> \<not> is_transaction_file (json_name ''box_01.worker'')"
proof -
  have ok: "validate_identifier ''box_01.worker'' = Inr ''box_01.worker''"
    by code_simp
  then show ?thesis
    using validated_identifier_is_path_safe [OF ok] by blast
qed

end
