(* ===== verification/State_Model.thy ===== *)
theory State_Model
  imports Identifiers
begin

text \<open>
  The data of the durable store: targets, requests, records and events of the SDK
  (\<open>crates/sdk/src/model.rs\<close>), the persisted records of \<open>crates/runtime/src/state/model.rs\<close>, and
  the construction of OCI state documents in \<open>crates/runtime/src/state/oci_state.rs\<close>.

  Rust maps with value equality (\<open>HashMap\<close>, \<open>BTreeMap\<close>) are finite maps, \<open>BTreeSet\<close> is a set,
  identifiers are strings, generations and sequences are 64-bit words.  Documents that the store
  only compares, digests or hands back (Linux resources, process specifications, checkpoint and
  attestation bodies, network enforcement) are carried as their canonical text.
\<close>

type_synonym ContainerId = string
type_synonym ProcessId = string
type_synonym OperationId = string
type_synonym Generation = u64
type_synonym document = string

section \<open>Targets and contexts\<close>

record ContainerTarget =
  ct_id :: ContainerId
  ct_generation :: "Generation option"

definition target_current :: "ContainerId \<Rightarrow> ContainerTarget" where
  "target_current i = \<lparr>ct_id = i, ct_generation = None\<rparr>"

definition target_exact :: "ContainerId \<Rightarrow> Generation \<Rightarrow> ContainerTarget" where
  "target_exact i g = \<lparr>ct_id = i, ct_generation = Some g\<rparr>"

lemma target_exact_sel [simp]:
  "ct_id (target_exact i g) = i" "ct_generation (target_exact i g) = Some g"
  by (simp_all add: target_exact_def)

record ProcessTarget =
  pt_container :: ContainerTarget
  pt_process_id :: ProcessId

record OperationContext =
  oc_operation_id :: OperationId
  oc_deadline_unix_ms :: "u64 option"

section \<open>OCI state documents\<close>

datatype ContainerState = StCreating | StCreated | StRunning | StStopped

record State =
  st_version :: string
  st_id :: string
  st_status :: ContainerState
  st_pid :: "int option"
  st_bundle :: string
  st_annotations :: "(string, string) fmap option"

text \<open>The parts of a loaded bundle (\<open>crates/sdk/src/bundle.rs\<close>) the store reads.\<close>

record OciBundle =
  bn_directory :: string
  bn_config_json :: string
  bn_config_digest :: string
  bn_spec_version :: string
  bn_spec_annotations :: "(string, string) fmap option"
  bn_spec_process :: "document option"

definition PAUSED_STATE_ANNOTATION :: string where
  "PAUSED_STATE_ANNOTATION = ''dev.a3s.oci.runtime.paused''"

definition TRUE_TEXT :: string where
  "TRUE_TEXT = ''true''"

definition op_build_oci_state :: string where
  "op_build_oci_state = ''build-oci-state''"

definition op_update_freezer :: string where
  "op_update_freezer = ''update-container-freezer-state''"

text \<open>\<open>if !annotations.is_empty() { builder.annotations(..) }\<close>.\<close>

definition nonempty :: "(string, string) fmap \<Rightarrow> (string, string) fmap option" where
  "nonempty m = (if m = fmempty then None else Some m)"

fun build_state :: "ContainerId \<Rightarrow> OciBundle \<Rightarrow> ContainerState \<Rightarrow> int option \<Rightarrow> error + State" where
  "build_state i bundle status pid =
     (case bn_spec_annotations bundle of
        None \<Rightarrow> Inr \<lparr>st_version = bn_spec_version bundle, st_id = i, st_status = status, st_pid = pid,
                    st_bundle = bn_directory bundle, st_annotations = None\<rparr>
      | Some annotations \<Rightarrow>
          if fmlookup annotations PAUSED_STATE_ANNOTATION \<noteq> None
          then Inl (state_error InvalidArgument op_build_oci_state)
          else Inr \<lparr>st_version = bn_spec_version bundle, st_id = i, st_status = status, st_pid = pid,
                    st_bundle = bn_directory bundle, st_annotations = nonempty annotations\<rparr>)"

declare build_state.simps [simp del]

text \<open>All required builder fields are set, so \<open>StateBuilder::build\<close> cannot fail.\<close>

definition rebuild_state :: "State \<Rightarrow> ContainerState \<Rightarrow> int option \<Rightarrow> error + State" where
  "rebuild_state state status pid =
     Inr \<lparr>st_version = st_version state, st_id = st_id state, st_status = status, st_pid = pid,
          st_bundle = st_bundle state,
          st_annotations =
            (case st_annotations state of
               None \<Rightarrow> None
             | Some annotations \<Rightarrow>
                 nonempty (if status = StStopped then fmdrop PAUSED_STATE_ANNOTATION annotations
                           else annotations))\<rparr>"

definition rebuild_paused_state :: "State \<Rightarrow> bool \<Rightarrow> error + State" where
  "rebuild_paused_state state paused =
     (if st_status state \<noteq> StRunning then Inl (state_error FailedPrecondition op_update_freezer)
      else
        (let annotations = (case st_annotations state of None \<Rightarrow> fmempty | Some a \<Rightarrow> a);
             annotations = (if paused then fmupd PAUSED_STATE_ANNOTATION TRUE_TEXT annotations
                            else fmdrop PAUSED_STATE_ANNOTATION annotations)
         in Inr \<lparr>st_version = st_version state, st_id = st_id state, st_status = st_status state,
                 st_pid = st_pid state, st_bundle = st_bundle state,
                 st_annotations = nonempty annotations\<rparr>))"

definition is_paused :: "State \<Rightarrow> bool" where
  "is_paused state \<longleftrightarrow>
     Option.bind (st_annotations state) (\<lambda>a. fmlookup a PAUSED_STATE_ANNOTATION) = Some TRUE_TEXT"

fun container_state :: "LifecycleState \<Rightarrow> ContainerState" where
  "container_state Creating = StCreating"
| "container_state Created = StCreated"
| "container_state Running = StRunning"
| "container_state Stopped = StStopped"

text \<open>\<open>lifecycle_state\<close> of \<open>state/kill.rs\<close> and \<open>state/observe.rs\<close>.\<close>

fun lifecycle_state :: "ContainerState \<Rightarrow> LifecycleState" where
  "lifecycle_state StCreating = Creating"
| "lifecycle_state StCreated = Created"
| "lifecycle_state StRunning = Running"
| "lifecycle_state StStopped = Stopped"

lemma container_lifecycle_state [simp]: "container_state (lifecycle_state s) = s"
  by (cases s) simp_all

lemma lifecycle_container_state [simp]: "lifecycle_state (container_state l) = l"
  by (cases l) simp_all

lemma rebuild_state_sel:
  assumes "rebuild_state st status pid = Inr st'"
  shows "st_status st' = status" and "st_pid st' = pid" and "st_id st' = st_id st"
    and "st_bundle st' = st_bundle st" and "st_version st' = st_version st"
  using assms by (auto simp: rebuild_state_def)

lemma rebuild_paused_state_sel:
  assumes "rebuild_paused_state st b = Inr st'"
  shows "st_status st' = st_status st" and "st_status st = StRunning" and "st_pid st' = st_pid st"
    and "st_id st' = st_id st" and "st_bundle st' = st_bundle st" and "st_version st' = st_version st"
  using assms by (auto simp: rebuild_paused_state_def Let_def split: if_splits)

lemma build_state_sel:
  assumes "build_state i bundle status pid = Inr st"
  shows "st_status st = status" and "st_pid st = pid" and "st_id st = i"
    and "st_bundle st = bn_directory bundle" and "\<not> is_paused st"
  using assms
  by (auto simp: build_state.simps is_paused_def nonempty_def split: option.splits if_splits)

lemma nonempty_lookup [simp]:
  "Option.bind (nonempty m) (\<lambda>a. fmlookup a k) = fmlookup m k"
  by (simp add: nonempty_def)

lemma fmupd_not_fmempty [simp]: "fmupd k v m \<noteq> fmempty"
  by (metis fmempty_lookup fmupd_lookup option.distinct(1))

section \<open>Container, process and event records\<close>

datatype GuestSessionOwnership = RuntimeOwned

datatype GuestSessionReset = DestroyOnEmpty | RetainWithinTrustDomain

record GuestSessionAttachment =
  gs_id :: string
  gs_generation :: u64
  gs_trust_domain :: string
  gs_isolation :: IsolationClass
  gs_capacity :: u16
  gs_reset :: GuestSessionReset
  gs_ownership :: GuestSessionOwnership

datatype IsolationRequest =
    RequestDedicatedVm | RequestSharedGuestKernel (trust_domain: string) | RequestSharedHostKernel

fun isolation_class :: "IsolationRequest \<Rightarrow> IsolationClass" where
  "isolation_class RequestDedicatedVm = DedicatedVm"
| "isolation_class (RequestSharedGuestKernel t) = SharedGuestKernel"
| "isolation_class RequestSharedHostKernel = SharedHostKernel"

datatype IoMode = IoNull | IoInherit | IoPipe | IoCapture | IoTerminal

record TerminalSize =
  ts_width :: u16
  ts_height :: u16

record ProcessIo =
  io_stdin :: IoMode
  io_stdout :: IoMode
  io_stderr :: IoMode
  io_terminal_size :: "TerminalSize option"

text \<open>A create attachment contract: its process I/O and guest-session entries and its canonical document.\<close>

record CreateAttachments =
  ca_process_io :: ProcessIo
  ca_guest_session :: "GuestSessionAttachment option"
  ca_document :: document

record ContainerRecord =
  cr_state :: State
  cr_generation :: Generation
  cr_driver :: DriverKind
  cr_isolation :: IsolationClass
  cr_guest_session :: "GuestSessionAttachment option"
  cr_network_enforcement :: "document option"
  cr_config_digest :: string
  cr_attachments_digest :: "string option"

record ProcessRecord =
  pr_target :: ProcessTarget
  pr_pid :: "u32 option"
  pr_terminal :: bool

record ExitStatus =
  es_exit_code :: "int option"
  es_signal :: "int option"
  es_oom_killed :: bool

definition op_validate_exit_status :: string where
  "op_validate_exit_status = ''validate-exit-status''"

definition exit_status_validate :: "ExitStatus \<Rightarrow> error + unit" where
  "exit_status_validate status =
     (case (es_exit_code status, es_signal status, es_oom_killed status) of
        (Some exit_code, None, False) \<Rightarrow>
          if 0 \<le> exit_code \<and> exit_code \<le> 255 then Inr ()
          else Inl (state_error InvalidArgument op_validate_exit_status)
      | (None, Some signal, _) \<Rightarrow>
          if signal > 0 then Inr () else Inl (state_error InvalidArgument op_validate_exit_status)
      | _ \<Rightarrow> Inl (state_error InvalidArgument op_validate_exit_status))"

datatype RuntimeEventKind =
    ContainerCreating | ContainerCreated | ContainerStarted | ContainerStopped | ContainerDeleted
  | ContainerPaused | ContainerResumed | ContainerAttested | ResourcesUpdated
  | ProcessCreatedEvent | ProcessStartedEvent | ProcessExitedEvent | OutputDropped | RuntimeWarning

record RuntimeEvent =
  ev_sequence :: u64
  ev_timestamp_unix_ns :: u64
  ev_container :: ContainerTarget
  ev_operation_id :: "OperationId option"
  ev_process_id :: "ProcessId option"
  ev_kind :: RuntimeEventKind
  ev_attributes :: "(string, string) fmap"

record EventBatch =
  eb_events :: "RuntimeEvent list"
  eb_next_sequence :: u64

section \<open>Requests\<close>

record CreateRequest =
  cq_context :: OperationContext
  cq_id :: ContainerId
  cq_bundle :: OciBundle
  cq_isolation :: IsolationRequest
  cq_attachments :: CreateAttachments

text \<open>\<open>StartRequest\<close> and the \<open>ContainerOperationRequest\<close> of pause and resume share one shape.\<close>

record ContainerOperationRequest =
  co_context :: OperationContext
  co_target :: ContainerTarget

type_synonym StartRequest = ContainerOperationRequest

record KillRequest =
  kq_context :: OperationContext
  kq_target :: ContainerTarget
  kq_signal :: int
  kq_all :: bool

datatype DeleteMode = StoppedOnly | Force

record DeleteRequest =
  dq_context :: OperationContext
  dq_target :: ContainerTarget
  dq_mode :: DeleteMode

record UpdateRequest =
  uq_context :: OperationContext
  uq_target :: ContainerTarget
  uq_resources :: document

datatype FileOp = Upload | Download

record FileRequest =
  fr_target :: ContainerTarget
  fr_op :: FileOp
  fr_path :: string
  fr_data :: "string option"
  fr_user :: "string option"
  fr_context :: "OperationContext option"

record FileResponse =
  fs_target :: ContainerTarget
  fs_data :: "string option"
  fs_size :: u64

datatype FilesystemOp = Stat | MakeDir | Move | ListDir | Remove

fun is_mutating :: "FilesystemOp \<Rightarrow> bool" where
  "is_mutating MakeDir = True"
| "is_mutating Move = True"
| "is_mutating Remove = True"
| "is_mutating _ = False"

record FilesystemRequest =
  fq_target :: ContainerTarget
  fq_op :: FilesystemOp
  fq_path :: string
  fq_destination :: "string option"
  fq_depth :: u32
  fq_user :: "string option"
  fq_context :: "OperationContext option"

datatype FilesystemEntryKind = UnspecifiedEntry | FileEntry | DirectoryEntry

record FilesystemEntry =
  fe_name :: string
  fe_kind :: FilesystemEntryKind
  fe_path :: string
  fe_size :: int
  fe_mode :: u32
  fe_permissions :: string
  fe_owner :: string
  fe_group :: string
  fe_modified_seconds :: int
  fe_modified_nanos :: int
  fe_symlink_target :: "string option"
  fe_metadata :: "(string, string) fmap"

record FilesystemResponse =
  fp_target :: ContainerTarget
  fp_entry :: "FilesystemEntry option"
  fp_entries :: "FilesystemEntry list"

text \<open>An \<open>exec\<close> request; the OCI process configuration is a document.\<close>

record ExecRequest =
  xq_context :: OperationContext
  xq_container :: ContainerTarget
  xq_process_id :: ProcessId
  xq_process :: document
  xq_io :: ProcessIo

record WriteStdinRequest =
  wq_context :: OperationContext
  wq_process :: ProcessTarget
  wq_data :: string

record CloseStdinRequest =
  clq_context :: OperationContext
  clq_process :: ProcessTarget

record ResizeRequest =
  rz_context :: OperationContext
  rz_process :: ProcessTarget
  rz_size :: TerminalSize

record SignalProcessRequest =
  sq_context :: OperationContext
  sq_process :: ProcessTarget
  sq_signal :: int

text \<open>Checkpoint references are documents; \<open>quiesce\<close> has the single value \<open>paused\<close>.\<close>

datatype CheckpointQuiesce = QuiescePaused

record CheckpointRequest =
  ck_context :: OperationContext
  ck_target :: ContainerTarget
  ck_artifact_path :: string
  ck_quiesce :: CheckpointQuiesce
  ck_legacy_leave_running :: "bool option"

record CheckpointResponse =
  cp_source :: ContainerRecord
  cp_reference :: document

record RestoreRequest =
  rq_context :: OperationContext
  rq_id :: ContainerId
  rq_bundle :: OciBundle
  rq_artifact_path :: string
  rq_isolation :: IsolationRequest
  rq_attachments :: CreateAttachments
  rq_reference :: "document option"

record TeeAttestationRequest =
  aq_context :: OperationContext
  aq_target :: ContainerTarget
  aq_report_data :: document

record RestoreResponse =
  rr_restored :: ContainerRecord
  rr_reference :: document

section \<open>Persisted records\<close>

datatype StoredOperationKind =
    KCreate | KStart | KKill | KDelete | KExec | KSignalProcess | KWriteStdin | KCloseStdin
  | KResize | KPause | KResume | KUpdate | KFile | KFilesystem | KCheckpoint | KRestore | KAttest

datatype StoredOperationRequest =
    FileReq FileRequest | FilesystemReq FilesystemRequest | CheckpointReq CheckpointRequest
  | RestoreReq RestoreRequest | AttestReq TeeAttestationRequest

datatype StoredFilesystemMutationResponse =
    FileResp FileResponse | FilesystemResp FilesystemResponse

datatype StoredOperationStatus =
    Prepared
  | Succeeded ContainerRecord
  | SucceededProcess ProcessRecord
  | SucceededFilesystem StoredFilesystemMutationResponse
  | SucceededCheckpoint CheckpointResponse
  | SucceededRestore RestoreResponse
  | SucceededAttestation document
  | SucceededEmpty
  | Failed error

record StoredOperation =
  so_schema_version :: string
  so_operation_id :: OperationId
  so_kind :: StoredOperationKind
  so_container_id :: ContainerId
  so_generation :: Generation
  so_process_id :: "ProcessId option"
  so_request :: "StoredOperationRequest option"
  so_request_digest :: string
  so_outcome :: StoredOperationStatus

record StoredGeneration =
  sg_schema_version :: string
  sg_id :: ContainerId
  sg_last_generation :: Generation

record StoredContainer =
  sc_schema_version :: string
  sc_id :: ContainerId
  sc_record :: ContainerRecord
  sc_attachments :: "CreateAttachments option"
  sc_active_operation :: "OperationId option"
  sc_init_io_operations :: "OperationId set"
  sc_init_exit_status :: "ExitStatus option"

record StoredProcess =
  sp_schema_version :: string
  sp_record :: ProcessRecord
  sp_active_operation :: "OperationId option"
  sp_active_io_operations :: "OperationId set"
  sp_exit_status :: "ExitStatus option"

record StoredEventCursor =
  sec_schema_version :: string
  sec_last_sequence :: u64

record StoredEventClaim =
  sev_schema_version :: string
  sev_identity :: string
  sev_event :: RuntimeEvent

record StoredEventRecord =
  ser_schema_version :: string
  ser_event :: RuntimeEvent

definition CONTAINER_SCHEMA_VERSION :: string where
  "CONTAINER_SCHEMA_VERSION = ''a3s.oci.container-record.v1''"
definition GENERATION_SCHEMA_VERSION :: string where
  "GENERATION_SCHEMA_VERSION = ''a3s.oci.generation.v1''"
definition OPERATION_SCHEMA_VERSION_V1 :: string where
  "OPERATION_SCHEMA_VERSION_V1 = ''a3s.oci.operation.v1''"
definition OPERATION_SCHEMA_VERSION_V2 :: string where
  "OPERATION_SCHEMA_VERSION_V2 = ''a3s.oci.operation.v2''"
definition OPERATION_SCHEMA_VERSION_V3 :: string where
  "OPERATION_SCHEMA_VERSION_V3 = ''a3s.oci.operation.v3''"
definition OPERATION_SCHEMA_VERSION_V4 :: string where
  "OPERATION_SCHEMA_VERSION_V4 = ''a3s.oci.operation.v4''"
definition OPERATION_SCHEMA_VERSION_V5 :: string where
  "OPERATION_SCHEMA_VERSION_V5 = ''a3s.oci.operation.v5''"
definition OPERATION_SCHEMA_VERSION :: string where
  "OPERATION_SCHEMA_VERSION = ''a3s.oci.operation.v6''"
definition PROCESS_SCHEMA_VERSION :: string where
  "PROCESS_SCHEMA_VERSION = ''a3s.oci.process-record.v1''"
definition EVENT_CURSOR_SCHEMA_VERSION :: string where
  "EVENT_CURSOR_SCHEMA_VERSION = ''a3s.oci.event-cursor.v1''"
definition EVENT_CLAIM_SCHEMA_VERSION :: string where
  "EVENT_CLAIM_SCHEMA_VERSION = ''a3s.oci.event-claim.v1''"
definition EVENT_RECORD_SCHEMA_VERSION :: string where
  "EVENT_RECORD_SCHEMA_VERSION = ''a3s.oci.event-record.v1''"

lemmas operation_schema_defs = OPERATION_SCHEMA_VERSION_V1_def OPERATION_SCHEMA_VERSION_V2_def
  OPERATION_SCHEMA_VERSION_V3_def OPERATION_SCHEMA_VERSION_V4_def OPERATION_SCHEMA_VERSION_V5_def
  OPERATION_SCHEMA_VERSION_def

lemma schema_v1_not_current [simp]:
  "OPERATION_SCHEMA_VERSION \<noteq> OPERATION_SCHEMA_VERSION_V1"
  by (simp add: operation_schema_defs)

text \<open>Creation kinds own the generation they were prepared with.\<close>

definition is_creation :: "StoredOperationKind \<Rightarrow> bool" where
  "is_creation k \<longleftrightarrow> k = KCreate \<or> k = KRestore"

section \<open>Properties\<close>




end
