(* ===== verification/Durable_Store.thy ===== *)
theory Durable_Store
  imports State_Model
begin

text \<open>
  The durable root and its atomic transactions: \<open>crates/runtime/src/fault.rs\<close>,
  \<open>state/filesystem.rs\<close> and \<open>state/filesystem/transaction.rs\<close>.

  A \<open>disk\<close> holds the committed contents of the root, one association list per directory.  The
  store adds what a running process has around it: left-over \<open>.name.next\<close> transaction files, the
  fault injector (any function from the points crossed so far to an optional error), the clock and
  the code outside the store (\<open>externals\<close>).  Every replacement of a file crosses the seven stages
  of \<open>FileCommitStage\<close>; an error before the rename leaves the destination untouched, an error after
  it leaves the new contents in place.
\<close>

section \<open>Mutations and fault points\<close>

text \<open>\<open>DurableMutation\<close>: the 127 variants are the families below applied to an operation kind, for
  instance \<open>PrepareOperation KStart\<close> for \<open>PrepareStartOperation\<close>.\<close>

datatype DurableMutation =
    RuntimeRootMarker
  | AllocateGeneration
  | PrepareOperation StoredOperationKind
  | ClaimOperation StoredOperationKind
  | StoreConfig StoredOperationKind
  | StoreContainer StoredOperationKind
  | StoreExecutingProcess
  | ReconcileContainer StoredOperationKind
  | ReconcileProcess StoredOperationKind
  | ReconcileOperation StoredOperationKind
  | CompleteContainer StoredOperationKind
  | CompleteRecord StoredOperationKind
  | CompleteOperation StoredOperationKind
  | MoveDeleteTombstone
  | MoveFailedCreateTombstone
  | MoveFailedRestoreTombstone
  | CacheInitWait
  | CacheProcessWait
  | AdvanceEventSequence
  | ClaimRuntimeEvent
  | StoreRuntimeEvent
  | ReleaseFailedClaim StoredOperationKind
  | RecordFailure StoredOperationKind
  | ObserveContainer
  | CompleteObservedOperation

definition is_directory_move :: "DurableMutation \<Rightarrow> bool" where
  "is_directory_move mutation \<longleftrightarrow>
     mutation \<in> {MoveDeleteTombstone, MoveFailedCreateTombstone, MoveFailedRestoreTombstone}"

datatype FileCommitStage =
    TemporaryFileCreated | TemporaryFileProtected | DataWritten | DataFlushed | FileSynced
  | FileReplaced | ParentDirectorySynced

datatype DirectoryCommitStage = DirectoryMoved | SourceParentSynced | DestinationParentSynced

datatype DriverOperation =
    DriverCapabilityOp | DriverRecover | DriverCreate | DriverState | DriverStart | DriverKill
  | DriverDelete | DriverWait | DriverExec | DriverSignalProcess | DriverWaitProcess | DriverPause
  | DriverResume | DriverProcesses | DriverUpdate | DriverStats | DriverReadOutput
  | DriverWriteStdin | DriverCloseStdin | DriverResize | DriverFile | DriverFilesystem
  | DriverCheckpoint | DriverRestoreValidation | DriverRestore | DriverAttest

datatype DriverBoundaryStage = BeforeCall | AfterCall

text \<open>\<open>DriverBoundary\<close> is crossed by host orchestration only, never by the store.\<close>

datatype FaultPoint =
    DurableFile DurableMutation FileCommitStage
  | DurableDirectory DurableMutation DirectoryCommitStage
  | DriverBoundary DriverOperation DriverBoundaryStage

section \<open>The disk\<close>

record ContainerDir =
  cd_config :: "string option"
  cd_record :: "StoredContainer option"
  cd_processes :: "(ProcessId \<times> StoredProcess) list option"

definition empty_dir :: ContainerDir where
  "empty_dir = \<lparr>cd_config = None, cd_record = None, cd_processes = None\<rparr>"

datatype tombstone =
    DeletedTombstone OperationId
  | FailedCreateTombstone OperationId
  | FailedRestoreTombstone OperationId

text \<open>A container directory is either live under \<open>containers/\<close> or moved under \<open>quarantine/\<close>.\<close>

datatype directory = Live ContainerId | Quarantined tombstone

record disk =
  directories :: "(directory \<times> ContainerDir) list"
  generations :: "(ContainerId \<times> StoredGeneration) list"
  operations :: "(OperationId \<times> StoredOperation) list"
  event_cursor :: "StoredEventCursor option"
  event_claims :: "(string \<times> StoredEventClaim) list"
  event_records :: "(u64 \<times> StoredEventRecord) list"

definition empty_disk :: disk where
  "empty_disk = \<lparr>directories = [], generations = [], operations = [], event_cursor = None,
                 event_claims = [], event_records = []\<rparr>"

datatype state_path =
    GenerationPath ContainerId
  | OperationPath OperationId
  | ConfigPath directory
  | RecordPath directory
  | ProcessPath directory ProcessId
  | EventCursorPath
  | EventClaimPath string
  | EventRecordPath u64

datatype file_content =
    GenerationFile StoredGeneration
  | OperationFile StoredOperation
  | ConfigFile string
  | ContainerFile StoredContainer
  | ProcessFile StoredProcess
  | CursorFile StoredEventCursor
  | ClaimFile StoredEventClaim
  | EventFile StoredEventRecord

definition update_dir :: "directory \<Rightarrow> (ContainerDir \<Rightarrow> ContainerDir) \<Rightarrow> disk \<Rightarrow> disk" where
  "update_dir k f d =
     (case map_of (directories d) k of
        None \<Rightarrow> d
      | Some c \<Rightarrow> d\<lparr>directories := put k (f c) (directories d)\<rparr>)"

text \<open>The rename that commits a prepared transaction file.\<close>

definition replace_file :: "state_path \<Rightarrow> file_content \<Rightarrow> disk \<Rightarrow> disk" where
  "replace_file path content d =
     (case path of
        GenerationPath i \<Rightarrow>
          (case content of GenerationFile g \<Rightarrow> d\<lparr>generations := put i g (generations d)\<rparr> | _ \<Rightarrow> d)
      | OperationPath i \<Rightarrow>
          (case content of OperationFile oper \<Rightarrow> d\<lparr>operations := put i oper (operations d)\<rparr> | _ \<Rightarrow> d)
      | ConfigPath k \<Rightarrow>
          (case content of ConfigFile c \<Rightarrow> update_dir k (\<lambda>x. x\<lparr>cd_config := Some c\<rparr>) d | _ \<Rightarrow> d)
      | RecordPath k \<Rightarrow>
          (case content of ContainerFile c \<Rightarrow> update_dir k (\<lambda>x. x\<lparr>cd_record := Some c\<rparr>) d | _ \<Rightarrow> d)
      | ProcessPath k p \<Rightarrow>
          (case content of
             ProcessFile c \<Rightarrow>
               update_dir k (\<lambda>x. x\<lparr>cd_processes := map_option (put p c) (cd_processes x)\<rparr>) d
           | _ \<Rightarrow> d)
      | EventCursorPath \<Rightarrow> (case content of CursorFile c \<Rightarrow> d\<lparr>event_cursor := Some c\<rparr> | _ \<Rightarrow> d)
      | EventClaimPath h \<Rightarrow>
          (case content of ClaimFile c \<Rightarrow> d\<lparr>event_claims := put h c (event_claims d)\<rparr> | _ \<Rightarrow> d)
      | EventRecordPath q \<Rightarrow>
          (case content of EventFile c \<Rightarrow> d\<lparr>event_records := put q c (event_records d)\<rparr> | _ \<Rightarrow> d))"

lemma replace_file_simps [simp]:
  "replace_file (GenerationPath i) (GenerationFile g) d = d\<lparr>generations := put i g (generations d)\<rparr>"
  "replace_file (OperationPath i) (OperationFile oper) d = d\<lparr>operations := put i oper (operations d)\<rparr>"
  "replace_file (ConfigPath k) (ConfigFile c) d = update_dir k (\<lambda>x. x\<lparr>cd_config := Some c\<rparr>) d"
  "replace_file (RecordPath k) (ContainerFile sc) d = update_dir k (\<lambda>x. x\<lparr>cd_record := Some sc\<rparr>) d"
  "replace_file (ProcessPath k p) (ProcessFile sp) d =
     update_dir k (\<lambda>x. x\<lparr>cd_processes := map_option (put p sp) (cd_processes x)\<rparr>) d"
  "replace_file EventCursorPath (CursorFile cu) d = d\<lparr>event_cursor := Some cu\<rparr>"
  "replace_file (EventClaimPath h) (ClaimFile cl) d = d\<lparr>event_claims := put h cl (event_claims d)\<rparr>"
  "replace_file (EventRecordPath q) (EventFile er) d = d\<lparr>event_records := put q er (event_records d)\<rparr>"
  by (simp_all add: replace_file_def)

text \<open>\<open>resolve_parent\<close> succeeds: the fixed layout directories always exist, the others are looked up.\<close>

fun parent_exists :: "state_path \<Rightarrow> disk \<Rightarrow> bool" where
  "parent_exists (ConfigPath k) d = (map_of (directories d) k \<noteq> None)"
| "parent_exists (RecordPath k) d = (map_of (directories d) k \<noteq> None)"
| "parent_exists (ProcessPath k p) d =
     (case map_of (directories d) k of None \<Rightarrow> False | Some c \<Rightarrow> cd_processes c \<noteq> None)"
| "parent_exists _ d = True"

section \<open>Code outside the store\<close>

text \<open>The value serialized for a request fingerprint: one constructor per fingerprint struct.\<close>

datatype fingerprint =
    CreateFingerprint ContainerId OciBundle IsolationRequest CreateAttachments "document option"
  | StartFingerprint ContainerTarget
  | KillFingerprint ContainerTarget int bool
  | DeleteFingerprint ContainerTarget DeleteMode
  | FreezerFingerprint ContainerTarget
  | UpdateFingerprint ContainerTarget document
  | ExecFingerprint ContainerTarget ProcessId document ProcessIo
  | SignalProcessFingerprint ProcessTarget int
  | WriteStdinFingerprint ProcessTarget string
  | ProcessTargetFingerprint ProcessTarget
  | ResizeFingerprint ProcessTarget u16 u16
  | CheckpointFingerprint ContainerTarget string CheckpointQuiesce
  | RestoreFingerprint ContainerId OciBundle string IsolationRequest CreateAttachments document
  | AttestationFingerprint ContainerTarget document

text \<open>\<open>serde_json\<close>, \<open>sha2\<close>, the OCI schema validator, bundle parsing and the validation of request
  payloads, as functions the store calls.\<close>

record externals =
  x_sha256 :: "string \<Rightarrow> string"
  x_to_vec :: "fingerprint \<Rightarrow> string option"
  x_canonical_json_bytes :: "fingerprint \<Rightarrow> string option"
  x_file_len :: "file_content \<Rightarrow> u64"
  x_validate_state :: "State \<Rightarrow> error + unit"
  x_bundle_from_json :: "string \<Rightarrow> string \<Rightarrow> error + OciBundle"
  x_attachments_validate :: "CreateAttachments \<Rightarrow> OciBundle \<Rightarrow> error + unit"
  x_attachments_validate_isolation :: "CreateAttachments \<Rightarrow> IsolationRequest \<Rightarrow> error + unit"
  x_network_enforcement :: "CreateAttachments \<Rightarrow> OciBundle \<Rightarrow> error + document option"
  x_attachments_digest :: "CreateAttachments \<Rightarrow> error + string"
  x_validate_for_create :: "OciBundle \<Rightarrow> error + unit"
  x_validate_linux_resources :: "document \<Rightarrow> error + unit"
  x_validate_process :: "document \<Rightarrow> error + unit"
  x_process_terminal :: "document \<Rightarrow> bool option"
  x_process_console_size :: "document \<Rightarrow> (u64 \<times> u64) option"
  x_base64_decode :: "string \<Rightarrow> string option"
  x_checkpoint_validate :: "CheckpointRequest \<Rightarrow> error + unit"
  x_restore_validate :: "RestoreRequest \<Rightarrow> error + unit"
  x_attest_validate :: "TeeAttestationRequest \<Rightarrow> error + unit"
  x_restore_reference :: "RestoreRequest \<Rightarrow> error + document"
  x_checkpoint_response_ok :: "CheckpointResponse \<Rightarrow> CheckpointRequest \<Rightarrow> bool"
  x_restore_response_ok :: "RestoreResponse \<Rightarrow> RestoreRequest \<Rightarrow> bool"
  x_attest_response_ok :: "document \<Rightarrow> TeeAttestationRequest \<Rightarrow> bool"

section \<open>The store\<close>

record DurableStateStore =
  disk :: disk
  temps :: "state_path list"
  faults :: "FaultPoint list \<Rightarrow> error option"
  fault_log :: "FaultPoint list"
  system_time :: "u128 option"
  ext :: externals

type_synonym 'a store_m = "(DurableStateStore, error, 'a) comp"

text \<open>The directory and clock lookups of \<open>StateFilesystem\<close>; \<open>None\<close> is a clock before the epoch.\<close>

definition on_disk :: "(disk \<Rightarrow> 'a) \<Rightarrow> 'a store_m" where
  "on_disk f = m_gets (\<lambda>s. f (disk s))"

definition external :: "(externals \<Rightarrow> error + 'a) \<Rightarrow> 'a store_m" where
  "external f = m_bind (m_gets (\<lambda>s. f (ext s))) m_lift"

lemma read_only_on_disk [read_only_intros]: "read_only (on_disk f)"
  by (simp add: on_disk_def read_only_gets)

lemma read_only_external [read_only_intros]: "read_only (external f)"
  by (simp add: external_def read_only_intros)

lemma wp_on_disk [wp_eqs]: "wp (on_disk f) Q s = Q (Inr (f (disk s))) s"
  by (simp add: on_disk_def wp_eqs)

lemma wp_external [wp_eqs]: "wp (external f) Q s = Q (f (ext s)) s"
  by (simp add: external_def wp_eqs)

text \<open>\<open>FaultInjector::check\<close>.\<close>

definition fault_check :: "FaultPoint \<Rightarrow> unit store_m" where
  "fault_check p = (\<lambda>s.
     let log = p # fault_log s; s' = s\<lparr>fault_log := log\<rparr>
     in case faults s log of None \<Rightarrow> (Inr (), s') | Some e \<Rightarrow> (Inl e, s'))"

definition op_write_state_file :: string where "op_write_state_file = ''write-state-file''"
definition op_inspect_state_directory :: string where
  "op_inspect_state_directory = ''inspect-state-directory''"
definition op_commit_state_directory :: string where
  "op_commit_state_directory = ''commit-state-directory''"

definition MAX_STATE_FILE_BYTES :: u64 where
  "MAX_STATE_FILE_BYTES = 64 * 1024 * 1024"

definition set_temp :: "state_path \<Rightarrow> DurableStateStore \<Rightarrow> DurableStateStore" where
  "set_temp p s = s\<lparr>temps := List.insert p (temps s)\<rparr>"

definition commit_temp :: "state_path \<Rightarrow> file_content \<Rightarrow> DurableStateStore \<Rightarrow> DurableStateStore" where
  "commit_temp p c s = s\<lparr>temps := removeAll p (temps s), disk := replace_file p c (disk s)\<rparr>"

text \<open>\<open>atomic_write_json\<close> and \<open>atomic_write\<close>: a stale transaction file is removed and recreated, which
  leaves the set of transaction files with the path in it.\<close>

definition atomic_write :: "DurableMutation \<Rightarrow> state_path \<Rightarrow> file_content \<Rightarrow> unit store_m" where
  "atomic_write mutation path content =
     m_bind (m_reject (is_directory_move mutation) (state_error Internal op_write_state_file)) (\<lambda>_.
     m_bind (m_gets (\<lambda>s. x_file_len (ext s) content)) (\<lambda>len.
     m_bind (m_reject (len > MAX_STATE_FILE_BYTES)
               (state_error ResourceExhausted op_write_state_file)) (\<lambda>_.
     m_bind (on_disk (parent_exists path)) (\<lambda>resolved.
     m_bind (m_reject (\<not> resolved) (state_error FailedPrecondition op_inspect_state_directory)) (\<lambda>_.
     m_bind (m_modify (set_temp path)) (\<lambda>_.
     m_bind (fault_check (DurableFile mutation TemporaryFileCreated)) (\<lambda>_.
     m_bind (fault_check (DurableFile mutation TemporaryFileProtected)) (\<lambda>_.
     m_bind (fault_check (DurableFile mutation DataWritten)) (\<lambda>_.
     m_bind (fault_check (DurableFile mutation DataFlushed)) (\<lambda>_.
     m_bind (fault_check (DurableFile mutation FileSynced)) (\<lambda>_.
     m_bind (m_modify (commit_temp path content)) (\<lambda>_.
     m_bind (fault_check (DurableFile mutation FileReplaced)) (\<lambda>_.
       fault_check (DurableFile mutation ParentDirectorySynced))))))))))))))"

text \<open>The rename of a whole container directory carries its transaction files along.\<close>

fun rename_path :: "directory \<Rightarrow> directory \<Rightarrow> state_path \<Rightarrow> state_path" where
  "rename_path a b (ConfigPath k) = ConfigPath (if k = a then b else k)"
| "rename_path a b (RecordPath k) = RecordPath (if k = a then b else k)"
| "rename_path a b (ProcessPath k p) = ProcessPath (if k = a then b else k) p"
| "rename_path a b p = p"

definition move_dir :: "directory \<Rightarrow> directory \<Rightarrow> disk \<Rightarrow> disk" where
  "move_dir a b d =
     (case map_of (directories d) a of
        None \<Rightarrow> d
      | Some c \<Rightarrow> d\<lparr>directories := put b c (AList.delete a (directories d))\<rparr>)"

definition atomic_move_directory :: "DurableMutation \<Rightarrow> directory \<Rightarrow> directory \<Rightarrow> unit store_m" where
  "atomic_move_directory mutation source destination =
     m_bind (m_reject (\<not> is_directory_move mutation)
               (state_error Internal op_commit_state_directory)) (\<lambda>_.
     m_bind (on_disk (\<lambda>d. map_of (directories d) source)) (\<lambda>present.
     m_bind (m_reject (present = None) (state_error FailedPrecondition op_commit_state_directory)) (\<lambda>_.
     m_bind (on_disk (\<lambda>d. map_of (directories d) destination)) (\<lambda>existing.
     m_bind (m_reject (existing \<noteq> None) (state_error Conflict op_commit_state_directory)) (\<lambda>_.
     m_bind (m_modify (\<lambda>s. s\<lparr>temps := map (rename_path source destination) (temps s),
                              disk := move_dir source destination (disk s)\<rparr>)) (\<lambda>_.
     m_bind (fault_check (DurableDirectory mutation DirectoryMoved)) (\<lambda>_.
     m_bind (fault_check (DurableDirectory mutation SourceParentSynced)) (\<lambda>_.
       fault_check (DurableDirectory mutation DestinationParentSynced)))))))))"

text \<open>\<open>create_private_directory\<close> for a container directory and for its \<open>processes\<close> directory.\<close>

definition create_container_directory :: "directory \<Rightarrow> unit store_m" where
  "create_container_directory k =
     m_modify (\<lambda>s. s\<lparr>disk := (disk s)\<lparr>directories := put k empty_dir (directories (disk s))\<rparr>\<rparr>)"

definition create_process_directory :: "directory \<Rightarrow> unit store_m" where
  "create_process_directory k =
     m_modify (\<lambda>s. s\<lparr>disk := update_dir k (\<lambda>c. c\<lparr>cd_processes := Some []\<rparr>) (disk s)\<rparr>)"

section \<open>Lookup after an update of the disk\<close>

lemma update_dir_simps [simp]:
  "generations (update_dir k f d) = generations d"
  "operations (update_dir k f d) = operations d"
  "event_cursor (update_dir k f d) = event_cursor d"
  "event_claims (update_dir k f d) = event_claims d"
  "event_records (update_dir k f d) = event_records d"
  by (simp_all add: update_dir_def split: option.split)

lemma lookup_update_dir [simp]:
  "map_of (directories (update_dir k f d)) k' =
     (if k' = k then map_option f (map_of (directories d) k) else map_of (directories d) k')"
  by (auto simp: update_dir_def split: option.split)

lemma move_dir_simps [simp]:
  "generations (move_dir a b d) = generations d"
  "operations (move_dir a b d) = operations d"
  "event_cursor (move_dir a b d) = event_cursor d"
  "event_claims (move_dir a b d) = event_claims d"
  "event_records (move_dir a b d) = event_records d"
  by (simp_all add: move_dir_def split: option.split)

lemma lookup_move_dir:
  "map_of (directories (move_dir a b d)) k =
     (case map_of (directories d) a of
        None \<Rightarrow> map_of (directories d) k
      | Some c \<Rightarrow> if k = b then Some c else if k = a then None else map_of (directories d) k)"
  by (auto simp: move_dir_def split: option.split)

section \<open>Runs of the store\<close>

text \<open>The environment of a run: everything but the disk, the transaction files and the log.\<close>

definition same_env :: "DurableStateStore \<Rightarrow> DurableStateStore \<Rightarrow> bool" where
  "same_env s s' \<longleftrightarrow> ext s' = ext s \<and> system_time s' = system_time s \<and> faults s' = faults s"

lemma same_env_refl [simp, intro]: "same_env s s"
  by (simp add: same_env_def)

lemma same_env_trans [trans]: "same_env s t \<Longrightarrow> same_env t u \<Longrightarrow> same_env s u"
  by (simp add: same_env_def)

lemma fault_check_frame:
  assumes "fault_check p s = (r, s')"
  shows "same_env s s'" and "disk s' = disk s" and "temps s' = temps s"
  using assms by (auto simp: fault_check_def Let_def same_env_def split: option.splits)

text \<open>Every outcome of an atomic write: nothing committed and an error, or the new file in place
  (with or without an error from the last two stages).\<close>

lemma wp_fault_check:
  assumes "\<And>r s'. same_env s s' \<Longrightarrow> disk s' = disk s \<Longrightarrow> temps s' = temps s \<Longrightarrow> Q r s'"
  shows "wp (fault_check p) Q s"
  using assms fault_check_frame by (auto simp: wp_def split: prod.split)

lemma wp_fault_check_commit:
  assumes "\<And>r s'. same_env s s' \<Longrightarrow> disk s' = disk s \<Longrightarrow> temps s' = temps s \<Longrightarrow> Q r s'"
  shows "wp (m_bind (fault_check p) (\<lambda>_. fault_check q)) Q s"
  unfolding wp_bind
proof (rule wp_fault_check)
  fix r s'
  assume 1: "same_env s s'" "disk s' = disk s" "temps s' = temps s"
  show "case r of Inl e \<Rightarrow> Q (Inl e) s' | Inr x \<Rightarrow> wp (fault_check q) Q s'"
  proof (cases r)
    case (Inl e)
    then show ?thesis using assms 1 by simp
  next
    case (Inr x)
    have "wp (fault_check q) Q s'"
      by (rule wp_fault_check) (use assms 1 same_env_trans in auto)
    then show ?thesis using Inr by simp
  qed
qed

text \<open>One stage before the rename: an error leaves with the disk untouched.\<close>

lemma wp_fault_check_stage:
  assumes "\<And>e s'. same_env s s' \<Longrightarrow> disk s' = disk s \<Longrightarrow> Q (Inl e) s'"
    and "\<And>s'. same_env s s' \<Longrightarrow> disk s' = disk s \<Longrightarrow> temps s' = temps s \<Longrightarrow> wp m Q s'"
  shows "wp (m_bind (fault_check p) (\<lambda>_. m)) Q s"
  unfolding wp_bind
  by (rule wp_fault_check) (auto split: sum.split intro: assms)

lemma wp_atomic_write:
  assumes rej: "\<And>e s'. same_env s s' \<Longrightarrow> disk s' = disk s \<Longrightarrow> Q (Inl e) s'"
    and com: "\<And>r s'. same_env s s' \<Longrightarrow> disk s' = replace_file path content (disk s) \<Longrightarrow>
                temps s' = removeAll path (temps s) \<Longrightarrow> parent_exists path (disk s) \<Longrightarrow> Q r s'"
  shows "wp (atomic_write mutation path content) Q s"
proof -
  let ?s1 = "set_temp path s"
  have env1: "same_env s ?s1" "disk ?s1 = disk s" "removeAll path (temps ?s1) = removeAll path (temps s)"
    by (simp_all add: set_temp_def same_env_def List.insert_def)
  have stage: "wp (m_bind (fault_check (DurableFile mutation TemporaryFileCreated)) (\<lambda>_.
     m_bind (fault_check (DurableFile mutation TemporaryFileProtected)) (\<lambda>_.
     m_bind (fault_check (DurableFile mutation DataWritten)) (\<lambda>_.
     m_bind (fault_check (DurableFile mutation DataFlushed)) (\<lambda>_.
     m_bind (fault_check (DurableFile mutation FileSynced)) (\<lambda>_.
     m_bind (m_modify (commit_temp path content)) (\<lambda>_.
     m_bind (fault_check (DurableFile mutation FileReplaced)) (\<lambda>_.
       fault_check (DurableFile mutation ParentDirectorySynced)))))))))
     Q ?s1" if par: "parent_exists path (disk s)"
  proof (intro wp_fault_check_stage)
    fix s1 s2 s3 s4 s5
    assume e: "same_env ?s1 s1" "same_env s1 s2" "same_env s2 s3" "same_env s3 s4" "same_env s4 s5"
      and d: "disk s1 = disk ?s1" "disk s2 = disk s1" "disk s3 = disk s2" "disk s4 = disk s3"
        "disk s5 = disk s4"
      and t: "temps s1 = temps ?s1" "temps s2 = temps s1" "temps s3 = temps s2" "temps s4 = temps s3"
        "temps s5 = temps s4"
    have env5: "same_env s s5" using env1(1) e by (auto simp: same_env_def)
    show "wp (m_bind (m_modify (commit_temp path content)) (\<lambda>_.
     m_bind (fault_check (DurableFile mutation FileReplaced)) (\<lambda>_.
       fault_check (DurableFile mutation ParentDirectorySynced)))) Q s5"
      unfolding wp_bind [of "m_modify _"] wp_modify sum.case
      by (rule wp_fault_check_commit)
        (rule com, use env5 d t env1 par in \<open>auto simp: commit_temp_def same_env_def\<close>)
  qed (use env1 in \<open>auto intro!: rej simp: same_env_def\<close>)
  show ?thesis
    unfolding atomic_write_def using stage by (simp add: wp_eqs rej)
qed

lemma atomic_write_cases:
  assumes "atomic_write mutation path content s = (r, s')"
  shows "same_env s s' \<and>
    ((\<exists>e. r = Inl e \<and> disk s' = disk s) \<or>
     (disk s' = replace_file path content (disk s) \<and> temps s' = removeAll path (temps s)
      \<and> parent_exists path (disk s)))"
proof -
  have "wp (atomic_write mutation path content) (\<lambda>r s'. same_env s s' \<and>
    ((\<exists>e. r = Inl e \<and> disk s' = disk s) \<or>
     (disk s' = replace_file path content (disk s) \<and> temps s' = removeAll path (temps s)
      \<and> parent_exists path (disk s)))) s"
    by (rule wp_atomic_write) auto
  then show ?thesis using assms by (simp add: wp_def)
qed

lemma atomic_write_Inr:
  assumes "atomic_write mutation path content s = (Inr u, s')"
  shows "disk s' = replace_file path content (disk s)" and "temps s' = removeAll path (temps s)"
    and "parent_exists path (disk s)" and "same_env s s'"
  using atomic_write_cases [OF assms] by auto

lemma wp_atomic_move:
  assumes rej: "\<And>e. Q (Inl e) s"
    and com: "\<And>r s'. same_env s s' \<Longrightarrow> disk s' = move_dir a b (disk s) \<Longrightarrow>
                map_of (directories (disk s)) a \<noteq> None \<Longrightarrow> map_of (directories (disk s)) b = None \<Longrightarrow> Q r s'"
  shows "wp (atomic_move_directory mutation a b) Q s"
proof -
  let ?s1 = "s\<lparr>temps := map (rename_path a b) (temps s), disk := move_dir a b (disk s)\<rparr>"
  have "wp (m_bind (fault_check (DurableDirectory mutation DirectoryMoved)) (\<lambda>_.
     m_bind (fault_check (DurableDirectory mutation SourceParentSynced)) (\<lambda>_.
       fault_check (DurableDirectory mutation DestinationParentSynced)))) Q ?s1"
    if "map_of (directories (disk s)) a \<noteq> None" "map_of (directories (disk s)) b = None"
  proof (rule wp_fault_check_stage)
    fix e s' assume "same_env ?s1 s'" "disk s' = disk ?s1"
    then show "Q (Inl e) s'" using com that by (simp add: same_env_def)
  next
    fix s' assume s': "same_env ?s1 s'" "disk s' = disk ?s1"
    show "wp (m_bind (fault_check (DurableDirectory mutation SourceParentSynced)) (\<lambda>_.
       fault_check (DurableDirectory mutation DestinationParentSynced))) Q s'"
      by (rule wp_fault_check_commit) (use s' com that in \<open>simp add: same_env_def\<close>)
  qed
  then show ?thesis
    unfolding atomic_move_directory_def by (simp add: wp_eqs rej)
qed

lemma put_put [simp]: "put k v (put k v al) = put k v al"
  by (simp add: update_triv)

lemma update_dir_idem:
  assumes "\<And>c. f (f c) = f c"
  shows "update_dir k f (update_dir k f d) = update_dir k f d"
  using assms by (cases "map_of (directories d) k") (simp_all add: update_dir_def)

lemma replace_file_idem: "replace_file p c (replace_file p c d) = replace_file p c d"
  by (cases p; cases c) (simp_all add: replace_file_def update_dir_idem option.map_comp comp_def)

section \<open>Evolution under a step relation\<close>

text \<open>
  \<open>evolves R m Q s\<close>: whatever the injector does, the run of \<open>m\<close> from \<open>s\<close> changes the disk by a
  sequence of \<open>R\<close> steps, keeps the environment, and ends in \<open>Q\<close>.  The rules below reduce it to one
  obligation per file replacement, which is where the step relation is consulted.
\<close>

named_theorems evolves_rules \<open>introduction rules for the evolution judgement\<close>

definition evolves ::
  "(disk \<Rightarrow> disk \<Rightarrow> bool) \<Rightarrow> 'a store_m \<Rightarrow> (error + 'a \<Rightarrow> DurableStateStore \<Rightarrow> bool)
     \<Rightarrow> DurableStateStore \<Rightarrow> bool" where
  "evolves R m Q s = wp m (\<lambda>r s'. R\<^sup>*\<^sup>* (disk s) (disk s') \<and> same_env s s' \<and> Q r s') s"

lemma evolvesD:
  assumes "evolves R m Q s" "m s = (r, s')"
  shows "R\<^sup>*\<^sup>* (disk s) (disk s')" and "same_env s s'" and "Q r s'"
  using assms by (simp_all add: evolves_def wp_def)

lemma evolves_mono:
  assumes "evolves R m P s"
    and "\<And>r s'. R\<^sup>*\<^sup>* (disk s) (disk s') \<Longrightarrow> same_env s s' \<Longrightarrow> P r s' \<Longrightarrow> Q r s'"
  shows "evolves R m Q s"
  using assms unfolding evolves_def by (auto elim!: wp_mono)

lemma evolves_return [evolves_rules]: "Q (Inr x) s \<Longrightarrow> evolves R (m_return x) Q s"
  by (simp add: evolves_def wp_eqs)

lemma evolves_throw [evolves_rules]: "Q (Inl e) s \<Longrightarrow> evolves R (m_throw e) Q s"
  by (simp add: evolves_def wp_eqs)

lemma evolves_lift [evolves_rules]: "Q r s \<Longrightarrow> evolves R (m_lift r) Q s"
  by (simp add: evolves_def wp_eqs)

lemma evolves_gets [evolves_rules]: "Q (Inr (f s)) s \<Longrightarrow> evolves R (m_gets f) Q s"
  by (simp add: evolves_def wp_eqs)

lemma evolves_on_disk [evolves_rules]: "Q (Inr (f (disk s))) s \<Longrightarrow> evolves R (on_disk f) Q s"
  by (simp add: evolves_def wp_eqs)

lemma evolves_external [evolves_rules]: "Q (f (ext s)) s \<Longrightarrow> evolves R (external f) Q s"
  by (simp add: evolves_def wp_eqs)

lemma evolves_reject [evolves_rules]:
  "(c \<Longrightarrow> Q (Inl e) s) \<Longrightarrow> (\<not> c \<Longrightarrow> Q (Inr ()) s) \<Longrightarrow> evolves R (m_reject c e) Q s"
  by (simp add: evolves_def wp_eqs)

lemma evolves_bind [evolves_rules]:
  assumes "evolves R m (\<lambda>r s'. case r of Inl e \<Rightarrow> Q (Inl e) s' | Inr x \<Rightarrow> evolves R (f x) Q s') s"
  shows "evolves R (m_bind m f) Q s"
  using assms unfolding evolves_def wp_def m_bind_def
  by (auto split: prod.splits sum.splits intro: rtranclp_trans same_env_trans)

lemma evolves_try [evolves_rules]:
  "evolves R m (\<lambda>r. Q (Inr r)) s \<Longrightarrow> evolves R (m_try m) Q s"
  by (simp add: evolves_def wp_eqs)

lemma evolves_read_only: "read_only m \<Longrightarrow> Q (fst (m s)) s \<Longrightarrow> evolves R m Q s"
  by (simp add: evolves_def read_only_wp)

lemma evolves_write [evolves_rules]:
  assumes "R (disk s) (replace_file path content (disk s))"
    and "\<And>e s'. same_env s s' \<Longrightarrow> disk s' = disk s \<Longrightarrow> Q (Inl e) s'"
    and "\<And>e s'. same_env s s' \<Longrightarrow> disk s' = replace_file path content (disk s) \<Longrightarrow> Q (Inl e) s'"
    and "\<And>s'. same_env s s' \<Longrightarrow> disk s' = replace_file path content (disk s) \<Longrightarrow> Q (Inr ()) s'"
  shows "evolves R (atomic_write mutation path content) Q s"
proof -
  have "Q r s'" if "same_env s s'" "disk s' = replace_file path content (disk s)" for r s'
    using assms(3,4) that by (cases r) auto
  then show ?thesis
    unfolding evolves_def by (intro wp_atomic_write) (use assms(1,2) in auto)
qed

lemma evolves_move [evolves_rules]:
  assumes "map_of (directories (disk s)) a \<noteq> None \<Longrightarrow> map_of (directories (disk s)) b = None \<Longrightarrow>
             R (disk s) (move_dir a b (disk s))"
    and "\<And>e. Q (Inl e) s"
    and "\<And>e s'. same_env s s' \<Longrightarrow> disk s' = move_dir a b (disk s) \<Longrightarrow> Q (Inl e) s'"
    and "\<And>s'. same_env s s' \<Longrightarrow> disk s' = move_dir a b (disk s) \<Longrightarrow>
           map_of (directories (disk s)) a \<noteq> None \<Longrightarrow> map_of (directories (disk s)) b = None \<Longrightarrow> Q (Inr ()) s'"
  shows "evolves R (atomic_move_directory mutation a b) Q s"
proof -
  have "Q r s'" if "same_env s s'" "disk s' = move_dir a b (disk s)"
    "map_of (directories (disk s)) a \<noteq> None" "map_of (directories (disk s)) b = None" for r s'
    using assms(3,4) that by (cases r) auto
  then show ?thesis
    unfolding evolves_def by (intro wp_atomic_move) (use assms(1,2) in auto)
qed

lemma evolves_modify_disk:
  assumes "R (disk s) (f (disk s))" and "Q (Inr ()) (s\<lparr>disk := f (disk s)\<rparr>)"
  shows "evolves R (m_modify (\<lambda>s. s\<lparr>disk := f (disk s)\<rparr>)) Q s"
  using assms by (simp add: evolves_def wp_eqs same_env_def r_into_rtranclp)

lemma evolves_foreach [evolves_rules]:
  assumes inv: "I s"
    and step: "\<And>x s'. x \<in> set xs \<Longrightarrow> I s' \<Longrightarrow> same_env s s' \<Longrightarrow>
                 evolves R (f x) (\<lambda>r s''. I s'' \<and> (\<forall>e. r = Inl e \<longrightarrow> Q (Inl e) s'')) s'"
    and fin: "\<And>s'. I s' \<Longrightarrow> same_env s s' \<Longrightarrow> Q (Inr ()) s'"
  shows "evolves R (m_foreach xs f) Q s"
  using assms
proof (induction xs arbitrary: s)
  case Nil
  then show ?case by (simp add: evolves_return)
next
  case (Cons x xs)
  have "evolves R (f x) (\<lambda>r s''. I s'' \<and> (\<forall>e. r = Inl e \<longrightarrow> Q (Inl e) s'')) s"
    using Cons.prems by simp
  then show ?case
    unfolding m_foreach.simps
  proof (intro evolves_bind, elim evolves_mono, goal_cases)
    case (1 r s')
    show ?case
    proof (cases r)
      case (Inl e)
      with 1 show ?thesis by simp
    next
      case (Inr u)
      have "evolves R (m_foreach xs f) Q s'"
      proof (rule Cons.IH)
        show "I s'" using 1(4) by (rule conjunct1)
      next
        fix y t assume y: "y \<in> set xs" "I t" "same_env s' t"
        from same_env_trans [OF 1(3) y(3)] y(1,2)
        show "evolves R (f y) (\<lambda>r s''. I s'' \<and> (\<forall>e. r = Inl e \<longrightarrow> Q (Inl e) s'')) t"
          by (intro Cons.prems(2)) simp_all
      next
        fix t assume t: "I t" "same_env s' t"
        then show "Q (Inr ()) t"
          by (intro Cons.prems(3) same_env_trans [OF 1(3)])
      qed
      with Inr show ?thesis by simp
    qed
  qed
qed

lemma evolves_fold:
  assumes inv: "I s"
    and step: "\<And>x a t. x \<in> set xs \<Longrightarrow> I t \<Longrightarrow> same_env s t \<Longrightarrow>
                 evolves R (f x a) (\<lambda>r t'. I t' \<and> (\<forall>e. r = Inl e \<longrightarrow> Q (Inl e) t')) t"
    and fin: "\<And>a t. I t \<Longrightarrow> same_env s t \<Longrightarrow> Q (Inr a) t"
  shows "evolves R (m_fold xs f acc) Q s"
  using assms
proof (induction xs arbitrary: s acc)
  case Nil
  then show ?case by (simp add: evolves_return)
next
  case (Cons x xs)
  have "evolves R (f x acc) (\<lambda>r t'. I t' \<and> (\<forall>e. r = Inl e \<longrightarrow> Q (Inl e) t')) s"
    using Cons.prems by simp
  then show ?case
    unfolding m_fold.simps
  proof (intro evolves_bind, elim evolves_mono, goal_cases)
    case (1 r t)
    show ?case
    proof (cases r)
      case (Inl e)
      with 1 show ?thesis by simp
    next
      case (Inr b)
      have "evolves R (m_fold xs f b) Q t"
      proof (rule Cons.IH)
        show "I t" using 1(4) by (rule conjunct1)
      next
        fix y c u assume y: "y \<in> set xs" "I u" "same_env t u"
        from same_env_trans [OF 1(3) y(3)] y(1,2)
        show "evolves R (f y c) (\<lambda>r t'. I t' \<and> (\<forall>e. r = Inl e \<longrightarrow> Q (Inl e) t')) u"
          by (intro Cons.prems(2)) simp_all
      next
        fix c u assume u: "I u" "same_env t u"
        then show "Q (Inr c) u"
          by (intro Cons.prems(3) same_env_trans [OF 1(3)])
      qed
      with Inr show ?thesis by simp
    qed
  qed
qed

lemma evolves_relax:
  assumes "evolves R m Q s" and "\<And>d d'. R d d' \<Longrightarrow> R' d d'"
  shows "evolves R' m Q s"
proof -
  have "R'\<^sup>*\<^sup>* d d'" if "R\<^sup>*\<^sup>* d d'" for d d'
    using that assms(2) by (metis mono_rtranclp)
  with assms(1) show ?thesis
    unfolding evolves_def by (auto elim!: wp_mono)
qed

text \<open>
  An invariant interface: a step relation and a predicate it preserves.  Whatever is shown of the
  file replacements of an operation then holds of all its runs.
\<close>

locale preserved =
  fixes R :: "disk \<Rightarrow> disk \<Rightarrow> bool" and inv :: "disk \<Rightarrow> bool"
  assumes step_preserves: "R d d' \<Longrightarrow> inv d \<Longrightarrow> inv d'"
begin

lemma steps_preserve: "R\<^sup>*\<^sup>* d d' \<Longrightarrow> inv d \<Longrightarrow> inv d'"
  by (induction rule: rtranclp_induct) (auto intro: step_preserves)

lemma run_preserves: "evolves R m Q s \<Longrightarrow> inv (disk s) \<Longrightarrow> m s = (r, s') \<Longrightarrow> inv (disk s')"
  using steps_preserve evolvesD(1) by blast

end

end
