(* ===== verification/Event_Journal.thy ===== *)
theory Event_Journal
  imports Durable_Store
begin

text \<open>
  The ordered event journal: \<open>crates/runtime/src/state/event.rs\<close> and \<open>state/event/audit.rs\<close>.

  An event is published in three atomic writes: the cursor is advanced (\<open>events/sequence.json\<close>),
  the identity is claimed (\<open>events/keys/<sha256>.json\<close>) and the record is stored
  (\<open>events/records/<sequence>.json\<close>).  A crash may lose a sequence number or leave a claim without
  its record; polling repairs the latter.  Waking of long polls (\<open>Notify\<close>) has no durable effect.
\<close>

section \<open>Names\<close>

definition op_append_runtime_event :: string where "op_append_runtime_event = ''append-runtime-event''"
definition op_validate_runtime_event :: string where
  "op_validate_runtime_event = ''validate-runtime-event''"
definition op_poll_runtime_events :: string where "op_poll_runtime_events = ''poll-runtime-events''"
definition op_repair_runtime_events :: string where
  "op_repair_runtime_events = ''repair-runtime-events''"
definition op_store_runtime_event :: string where "op_store_runtime_event = ''store-runtime-event''"
definition op_load_event_claim :: string where "op_load_event_claim = ''load-runtime-event-claim''"
definition op_load_event_cursor :: string where "op_load_event_cursor = ''load-runtime-event-cursor''"
definition op_audit_runtime_events :: string where "op_audit_runtime_events = ''audit-runtime-events''"
definition op_validate_request :: string where "op_validate_request = ''validate-sdk-request''"
definition op_read_state_file :: string where "op_read_state_file = ''read-state-file''"

definition ATTR_OPERATION_ID :: string where "ATTR_OPERATION_ID = ''operation-id''"
definition ATTR_PID :: string where "ATTR_PID = ''pid''"

section \<open>Event identities\<close>

definition exact_target_key :: "ContainerTarget \<Rightarrow> error + string" where
  "exact_target_key target =
     (case ct_generation target of
        None \<Rightarrow> Inl (state_error InvalidArgument op_append_runtime_event)
      | Some generation \<Rightarrow>
          if generation = 0 then Inl (state_error InvalidArgument op_append_runtime_event)
          else Inr (ct_id target @ '':'' @ print_nat (unat generation)))"

definition event_identity_hash :: "externals \<Rightarrow> string \<Rightarrow> string" where
  "event_identity_hash x ident = x_sha256 x ident"

definition validate_claimed_event ::
  "RuntimeEvent \<Rightarrow> ContainerTarget \<Rightarrow> OperationId option \<Rightarrow> ProcessId option \<Rightarrow> RuntimeEventKind
     \<Rightarrow> (string, string) fmap \<Rightarrow> error + unit" where
  "validate_claimed_event event target operation_id process_id kind attributes =
     (let operation_matches =
            (ev_operation_id event = operation_id
             \<or> (ev_operation_id event = None
                 \<and> (case operation_id of None \<Rightarrow> False
                     | Some i \<Rightarrow> fmlookup (ev_attributes event) ATTR_OPERATION_ID = Some i)))
      in if ev_container event = target \<and> operation_matches \<and> ev_process_id event = process_id
            \<and> ev_kind event = kind \<and> ev_attributes event = attributes
         then Inr () else Inl (state_error Conflict op_append_runtime_event))"

definition is_process_event :: "RuntimeEventKind \<Rightarrow> bool" where
  "is_process_event k \<longleftrightarrow> k \<in> {ProcessCreatedEvent, ProcessStartedEvent, ProcessExitedEvent}"

definition is_container_event :: "RuntimeEventKind \<Rightarrow> bool" where
  "is_container_event k \<longleftrightarrow>
     k \<in> {ContainerCreating, ContainerCreated, ContainerStarted, ContainerStopped, ContainerDeleted,
          ContainerPaused, ContainerResumed, ContainerAttested, ResourcesUpdated}"

definition validate_exact_event_target :: "RuntimeEvent \<Rightarrow> error + unit" where
  "validate_exact_event_target event =
     r_bind (exact_target_key (ev_container event)) (\<lambda>_.
     r_bind (r_reject (ev_sequence event = 0 \<or> ev_timestamp_unix_ns event = 0)
               (state_error FailedPrecondition op_validate_runtime_event)) (\<lambda>_.
     r_bind (case ev_operation_id event of
               None \<Rightarrow> Inr ()
             | Some operation_id \<Rightarrow>
                 r_reject (fmlookup (ev_attributes event) ATTR_OPERATION_ID \<noteq> Some operation_id)
                   (state_error FailedPrecondition op_validate_runtime_event)) (\<lambda>_.
     r_bind (r_reject (is_process_event (ev_kind event) \<and> ev_process_id event = None)
               (state_error FailedPrecondition op_validate_runtime_event)) (\<lambda>_.
       r_reject (is_container_event (ev_kind event) \<and> ev_process_id event \<noteq> None)
         (state_error FailedPrecondition op_validate_runtime_event)))))"

definition validate_event_record :: "StoredEventRecord \<Rightarrow> u64 \<Rightarrow> u64 \<Rightarrow> error + unit" where
  "validate_event_record stored sequence last_sequence =
     r_bind (r_reject (ser_schema_version stored \<noteq> EVENT_RECORD_SCHEMA_VERSION \<or> sequence = 0
                 \<or> ev_sequence (ser_event stored) \<noteq> sequence \<or> sequence > last_sequence)
               (state_error FailedPrecondition op_poll_runtime_events)) (\<lambda>_.
       validate_exact_event_target (ser_event stored))"

definition OPERATION_PREFIX :: string where "OPERATION_PREFIX = ''operation:''"
definition CONTAINER_PREFIX :: string where "CONTAINER_PREFIX = ''container:''"
definition PROCESS_PREFIX :: string where "PROCESS_PREFIX = ''process:''"

text \<open>\<open>str::strip_prefix\<close> and \<open>str::rsplit_once(':')\<close>.\<close>

definition strip_prefix_str :: "string \<Rightarrow> string \<Rightarrow> string option" where
  "strip_prefix_str pre s = (if take (length pre) s = pre then Some (drop (length pre) s) else None)"

definition rsplit_once_colon :: "string \<Rightarrow> (string \<times> string) option" where
  "rsplit_once_colon s =
     (if CHR '':'' \<in> set s
      then let suf = rev (takeWhile (\<lambda>c. c \<noteq> CHR '':'') (rev s))
           in Some (take (length s - length suf - 1) s, suf)
      else None)"

definition validate_event_identity :: "string \<Rightarrow> RuntimeEvent \<Rightarrow> error + unit" where
  "validate_event_identity ident event =
     (case strip_prefix_str OPERATION_PREFIX ident of
        None \<Rightarrow>
          r_reject (ev_operation_id event \<noteq> None
                    \<or> fmlookup (ev_attributes event) ATTR_OPERATION_ID \<noteq> None)
            (state_error FailedPrecondition op_validate_runtime_event)
      | Some operation_identity \<Rightarrow>
          (case rsplit_once_colon operation_identity of
             None \<Rightarrow> Inl (state_error FailedPrecondition op_validate_runtime_event)
           | Some (operation_id, suf) \<Rightarrow>
               r_bind (r_reject (suf = []) (state_error FailedPrecondition op_validate_runtime_event)) (\<lambda>_.
               r_bind (map_err (\<lambda>_. state_error FailedPrecondition op_validate_runtime_event)
                         (validate_identifier operation_id)) (\<lambda>_.
               (let observed = (case ev_operation_id event of
                                  Some i \<Rightarrow> Some i
                                | None \<Rightarrow> fmlookup (ev_attributes event) ATTR_OPERATION_ID)
                in r_reject (observed \<noteq> Some operation_id)
                     (state_error FailedPrecondition op_validate_runtime_event))))))"

definition event_matches_filter :: "RuntimeEvent \<Rightarrow> ContainerTarget option \<Rightarrow> bool" where
  "event_matches_filter event filt =
     (case filt of
        None \<Rightarrow> True
      | Some f \<Rightarrow> ct_id f = ct_id (ev_container event)
          \<and> (case ct_generation f of None \<Rightarrow> True
              | Some g \<Rightarrow> ct_generation (ev_container event) = Some g))"

section \<open>File names of the journal\<close>

definition event_record_name :: "u64 \<Rightarrow> string" where
  "event_record_name sequence = json_name (print_padded 20 (unat sequence))"

definition invalid_event_entry :: error where
  "invalid_event_entry = state_error FailedPrecondition op_poll_runtime_events"

definition parse_event_record_name :: "string \<Rightarrow> error + u64" where
  "parse_event_record_name name =
     (case strip_suffix_str ''.json'' name of
        None \<Rightarrow> Inl invalid_event_entry
      | Some value \<Rightarrow>
          if length value \<noteq> 20 \<or> \<not> list_all is_digit value then Inl invalid_event_entry
          else if parse_nat value \<ge> 2 ^ 64 then Inl invalid_event_entry
          else Inr (word_of_nat (parse_nat value)))"

definition is_lower_hex :: "char \<Rightarrow> bool" where
  "is_lower_hex c \<longleftrightarrow> is_digit c \<or> (97 \<le> byte c \<and> byte c \<le> 102)"

definition parse_event_claim_name :: "string \<Rightarrow> error + string" where
  "parse_event_claim_name name =
     (case strip_suffix_str ''.json'' name of
        None \<Rightarrow> Inl invalid_event_entry
      | Some value \<Rightarrow>
          if length value \<noteq> 64 \<or> \<not> list_all is_lower_hex value then Inl invalid_event_entry
          else Inr value)"

text \<open>What \<open>read_directory\<close> lists: the committed files and the left-over transaction files.\<close>

definition event_record_entries :: "DurableStateStore \<Rightarrow> string list" where
  "event_record_entries s =
     map (\<lambda>(q, _). event_record_name q) (event_records (disk s))
     @ concat (map (\<lambda>p. case p of EventRecordPath q \<Rightarrow> [transaction_name (event_record_name q)]
                        | _ \<Rightarrow> []) (temps s))"

definition event_claim_entries :: "DurableStateStore \<Rightarrow> string list" where
  "event_claim_entries s =
     map (\<lambda>(h, _). json_name h) (event_claims (disk s))
     @ concat (map (\<lambda>p. case p of EventClaimPath h \<Rightarrow> [transaction_name (json_name h)]
                        | _ \<Rightarrow> []) (temps s))"

text \<open>\<open>read_json\<close> of a path that does not resolve to a file.\<close>

definition missing_file :: error where
  "missing_file = state_error Internal op_read_state_file"

section \<open>Cursor, claims and records\<close>

definition load_event_cursor :: "StoredEventCursor store_m" where
  "load_event_cursor =
     m_bind (on_disk event_cursor) (\<lambda>file.
       case file of
         None \<Rightarrow> m_return \<lparr>sec_schema_version = EVENT_CURSOR_SCHEMA_VERSION, sec_last_sequence = 0\<rparr>
       | Some cursor \<Rightarrow>
           m_bind (m_reject (sec_schema_version cursor \<noteq> EVENT_CURSOR_SCHEMA_VERSION)
                     (state_error FailedPrecondition op_load_event_cursor)) (\<lambda>_.
             m_return cursor))"

definition load_event_claim :: "string \<Rightarrow> string \<Rightarrow> StoredEventClaim store_m" where
  "load_event_claim hash ident =
     m_bind (on_disk (\<lambda>d. map_of (event_claims d) hash)) (\<lambda>file.
     m_bind (m_lift (ok_or missing_file file)) (\<lambda>claim.
     m_bind (m_reject (sev_schema_version claim \<noteq> EVENT_CLAIM_SCHEMA_VERSION
                       \<or> sev_identity claim \<noteq> ident)
               (state_error FailedPrecondition op_load_event_claim)) (\<lambda>_.
     m_bind (m_lift (validate_exact_event_target (sev_event claim))) (\<lambda>_.
     m_bind (m_lift (validate_event_identity (sev_identity claim) (sev_event claim))) (\<lambda>_.
     m_bind load_event_cursor (\<lambda>cursor.
     m_bind (m_reject (ev_sequence (sev_event claim) = 0
                       \<or> ev_sequence (sev_event claim) > sec_last_sequence cursor)
               (state_error FailedPrecondition op_load_event_claim)) (\<lambda>_.
       m_return claim)))))))"

definition ensure_event_record :: "RuntimeEvent \<Rightarrow> unit store_m" where
  "ensure_event_record event =
     (let expected = \<lparr>ser_schema_version = EVENT_RECORD_SCHEMA_VERSION, ser_event = event\<rparr> in
      m_bind (on_disk (\<lambda>d. map_of (event_records d) (ev_sequence event))) (\<lambda>file.
        case file of
          Some actual \<Rightarrow>
            m_reject (actual \<noteq> expected) (state_error Conflict op_store_runtime_event)
        | None \<Rightarrow>
            atomic_write StoreRuntimeEvent (EventRecordPath (ev_sequence event)) (EventFile expected)))"

text \<open>The commit timestamp; a clock before the epoch or past 64 bits of nanoseconds is an error.\<close>

definition event_timestamp :: "DurableStateStore \<Rightarrow> error + u64" where
  "event_timestamp s =
     (case system_time s of
        None \<Rightarrow> Inl (state_error Internal op_append_runtime_event)
      | Some nanos \<Rightarrow>
          if nanos \<ge> 2 ^ 64 then Inl (state_error ResourceExhausted op_append_runtime_event)
          else Inr (ucast nanos))"

definition append_event ::
  "string \<Rightarrow> ContainerTarget \<Rightarrow> OperationId option \<Rightarrow> ProcessId option \<Rightarrow> RuntimeEventKind
     \<Rightarrow> (string, string) fmap \<Rightarrow> RuntimeEvent store_m" where
  "append_event ident target operation_id process_id kind attributes =
     m_bind (m_lift (exact_target_key target)) (\<lambda>_.
     m_bind (m_gets (\<lambda>s. event_identity_hash (ext s) ident)) (\<lambda>hash.
     m_bind (on_disk (\<lambda>d. map_of (event_claims d) hash)) (\<lambda>present.
       if present \<noteq> None then
         m_bind (load_event_claim hash ident) (\<lambda>claim.
         m_bind (m_lift (validate_claimed_event (sev_event claim) target operation_id process_id kind
                   attributes)) (\<lambda>_.
         m_bind (ensure_event_record (sev_event claim)) (\<lambda>_.
           m_return (sev_event claim))))
       else
         m_bind load_event_cursor (\<lambda>cursor.
         m_bind (m_lift (ok_or (state_error ResourceExhausted op_append_runtime_event)
                   (checked_succ (sec_last_sequence cursor)))) (\<lambda>sequence.
         m_bind (atomic_write AdvanceEventSequence EventCursorPath
                   (CursorFile (cursor\<lparr>sec_last_sequence := sequence\<rparr>))) (\<lambda>_.
         m_bind (m_gets event_timestamp) (\<lambda>stamp.
         m_bind (m_lift stamp) (\<lambda>timestamp_unix_ns.
         (let event = \<lparr>ev_sequence = sequence, ev_timestamp_unix_ns = timestamp_unix_ns,
                       ev_container = target, ev_operation_id = operation_id,
                       ev_process_id = process_id, ev_kind = kind, ev_attributes = attributes\<rparr> in
          m_bind (m_lift (validate_exact_event_target event)) (\<lambda>_.
          m_bind (atomic_write ClaimRuntimeEvent (EventClaimPath hash)
                    (ClaimFile \<lparr>sev_schema_version = EVENT_CLAIM_SCHEMA_VERSION,
                                sev_identity = ident, sev_event = event\<rparr>)) (\<lambda>_.
          m_bind (ensure_event_record event) (\<lambda>_.
            m_return event))))))))))))"

definition append_container_event ::
  "string \<Rightarrow> ContainerTarget \<Rightarrow> RuntimeEventKind \<Rightarrow> (string, string) fmap \<Rightarrow> RuntimeEvent store_m" where
  "append_container_event identity_suffix target kind attributes =
     m_bind (m_lift (exact_target_key target)) (\<lambda>key.
       append_event (CONTAINER_PREFIX @ key @ '':'' @ identity_suffix) target None None kind attributes)"

definition append_process_event ::
  "string \<Rightarrow> ContainerTarget \<Rightarrow> ProcessId \<Rightarrow> RuntimeEventKind \<Rightarrow> (string, string) fmap
     \<Rightarrow> RuntimeEvent store_m" where
  "append_process_event identity_suffix target process_id kind attributes =
     m_bind (m_lift (exact_target_key target)) (\<lambda>key.
       append_event (PROCESS_PREFIX @ key @ '':'' @ process_id @ '':'' @ identity_suffix) target None
         (Some process_id) kind attributes)"

definition append_operation_event ::
  "OperationId \<Rightarrow> string \<Rightarrow> ContainerTarget \<Rightarrow> ProcessId option \<Rightarrow> RuntimeEventKind
     \<Rightarrow> (string, string) fmap \<Rightarrow> RuntimeEvent store_m" where
  "append_operation_event operation_id identity_suffix target process_id kind attributes =
     append_event (OPERATION_PREFIX @ operation_id @ '':'' @ identity_suffix) target
       (Some operation_id) process_id kind attributes"

section \<open>Polling\<close>

text \<open>One claim file of \<open>repair_pending_event_records\<close>; the accumulator is \<open>claimed_sequences\<close>.\<close>

definition repair_event_claim :: "u64 \<Rightarrow> string \<Rightarrow> u64 set \<Rightarrow> u64 set store_m" where
  "repair_event_claim last_sequence name claimed =
     (if is_transaction_file name then m_return claimed
      else
        m_bind (m_lift (parse_event_claim_name name)) (\<lambda>expected_hash.
        m_bind (on_disk (\<lambda>d. map_of (event_claims d) expected_hash)) (\<lambda>file.
        m_bind (m_lift (ok_or missing_file file)) (\<lambda>claim.
        m_bind (m_gets (\<lambda>s. event_identity_hash (ext s) (sev_identity claim))) (\<lambda>hash.
        m_bind (m_reject (sev_schema_version claim \<noteq> EVENT_CLAIM_SCHEMA_VERSION
                          \<or> hash \<noteq> expected_hash
                          \<or> ev_sequence (sev_event claim) = 0
                          \<or> ev_sequence (sev_event claim) > last_sequence)
                  (state_error FailedPrecondition op_repair_runtime_events)) (\<lambda>_.
        m_bind (m_lift (validate_exact_event_target (sev_event claim))) (\<lambda>_.
        m_bind (m_lift (validate_event_identity (sev_identity claim) (sev_event claim))) (\<lambda>_.
        m_bind (m_reject (ev_sequence (sev_event claim) \<in> claimed)
                  (state_error FailedPrecondition op_repair_runtime_events)) (\<lambda>_.
        m_bind (ensure_event_record (sev_event claim)) (\<lambda>_.
          m_return (insert (ev_sequence (sev_event claim)) claimed)))))))))))"

definition repair_pending_event_records :: "u64 set store_m" where
  "repair_pending_event_records =
     m_bind load_event_cursor (\<lambda>cursor.
     m_bind (m_gets event_claim_entries) (\<lambda>names.
       m_fold names (repair_event_claim (sec_last_sequence cursor)) {}))"

text \<open>One record file of the poll loop; the accumulator is \<open>records\<close>.\<close>

definition poll_event_record ::
  "u64 \<Rightarrow> u64 set \<Rightarrow> u64 \<Rightarrow> string \<Rightarrow> RuntimeEvent list \<Rightarrow> RuntimeEvent list store_m" where
  "poll_event_record last_sequence claimed_sequences after_sequence name records =
     (if is_transaction_file name then m_return records
      else
        m_bind (m_lift (parse_event_record_name name)) (\<lambda>sequence.
        m_bind (on_disk (\<lambda>d. map_of (event_records d) sequence)) (\<lambda>file.
        m_bind (m_lift (ok_or missing_file file)) (\<lambda>stored.
        m_bind (m_lift (validate_event_record stored sequence last_sequence)) (\<lambda>_.
        m_bind (m_reject (sequence \<notin> claimed_sequences)
                  (state_error FailedPrecondition op_poll_runtime_events)) (\<lambda>_.
          m_return (if sequence > after_sequence then records @ [ser_event stored] else records)))))))"

text \<open>\<open>records.windows(2).any(..)\<close>.\<close>

fun adjacent_duplicate :: "RuntimeEvent list \<Rightarrow> bool" where
  "adjacent_duplicate (a # b # rest) =
     (ev_sequence a = ev_sequence b \<or> adjacent_duplicate (b # rest))"
| "adjacent_duplicate _ = False"

text \<open>The batch loop: \<open>Some\<close> when the limit is reached, otherwise the events and the last sequence.\<close>

primrec batch_events ::
  "ContainerTarget option \<Rightarrow> nat \<Rightarrow> RuntimeEvent list \<Rightarrow> RuntimeEvent list \<Rightarrow> u64
     \<Rightarrow> bool \<times> RuntimeEvent list \<times> u64" where
  "batch_events filt limit [] events next_sequence = (False, events, next_sequence)"
| "batch_events filt limit (event # rest) events next_sequence =
     (if event_matches_filter event filt then
        (let events' = events @ [event] in
         if length events' = limit then (True, events', ev_sequence event)
         else batch_events filt limit rest events' (ev_sequence event))
      else batch_events filt limit rest events (ev_sequence event))"

definition poll_events :: "ContainerTarget option \<Rightarrow> u64 \<Rightarrow> u32 \<Rightarrow> EventBatch store_m" where
  "poll_events filt after_sequence limit =
     m_bind repair_pending_event_records (\<lambda>claimed_sequences.
     m_bind load_event_cursor (\<lambda>cursor.
     m_bind (m_gets event_record_entries) (\<lambda>names.
     m_bind (m_fold names
               (poll_event_record (sec_last_sequence cursor) claimed_sequences after_sequence) []) (\<lambda>found.
     (let records = sort_key ev_sequence found in
      m_bind (m_reject (adjacent_duplicate records)
                (state_error FailedPrecondition op_poll_runtime_events)) (\<lambda>_.
      (case batch_events filt (unat limit) records [] after_sequence of
         (full, events, next_sequence) \<Rightarrow>
           m_return \<lparr>eb_events = events,
                     eb_next_sequence =
                       (if full then next_sequence
                        else max next_sequence (sec_last_sequence cursor))\<rparr>)))))))"

record EventsRequest =
  eq_container :: "ContainerTarget option"
  eq_after_sequence :: u64
  eq_limit :: u32
  eq_wait_timeout_ms :: "u64 option"

definition MAX_EVENT_BATCH_ITEMS :: u32 where "MAX_EVENT_BATCH_ITEMS = 4096"

definition validate_positive_bounded :: "u32 \<Rightarrow> u32 \<Rightarrow> error + unit" where
  "validate_positive_bounded value maximum =
     r_reject (value = 0 \<or> value > maximum) (state_error InvalidArgument op_validate_request)"

text \<open>The polling loop of \<open>events\<close>.  Each element of the list is what other tasks did to the store
  before a notification woke the poll; the end of the list is the expiry of the deadline.\<close>

fun events_loop ::
  "(DurableStateStore \<Rightarrow> DurableStateStore) list \<Rightarrow> EventsRequest \<Rightarrow> u64 \<Rightarrow> EventBatch store_m" where
  "events_loop wakeups request after_sequence =
     m_bind (poll_events (eq_container request) after_sequence (eq_limit request)) (\<lambda>batch.
       if eb_events batch \<noteq> [] \<or> eq_wait_timeout_ms request = None then m_return batch
       else case wakeups of
              [] \<Rightarrow> m_return batch
            | others # later \<Rightarrow>
                m_bind (m_modify others) (\<lambda>_.
                  events_loop later request (eb_next_sequence batch)))"

declare events_loop.simps [simp del]

definition events ::
  "(DurableStateStore \<Rightarrow> DurableStateStore) list \<Rightarrow> EventsRequest \<Rightarrow> EventBatch store_m" where
  "events wakeups request =
     m_bind (m_lift (validate_positive_bounded (eq_limit request) MAX_EVENT_BATCH_ITEMS)) (\<lambda>_.
       events_loop wakeups request (eq_after_sequence request))"

section \<open>Startup audit of the journal\<close>

definition audit_event_claim ::
  "u64 \<Rightarrow> string \<Rightarrow> (u64 \<times> RuntimeEvent) list \<Rightarrow> (u64 \<times> RuntimeEvent) list store_m" where
  "audit_event_claim last_sequence name claims =
     (if is_transaction_file name then m_return claims
      else
        m_bind (m_lift (parse_event_claim_name name)) (\<lambda>expected_hash.
        m_bind (on_disk (\<lambda>d. map_of (event_claims d) expected_hash)) (\<lambda>file.
        m_bind (m_lift (ok_or missing_file file)) (\<lambda>claim.
        m_bind (m_gets (\<lambda>s. event_identity_hash (ext s) (sev_identity claim))) (\<lambda>hash.
        m_bind (m_reject (sev_schema_version claim \<noteq> EVENT_CLAIM_SCHEMA_VERSION
                          \<or> hash \<noteq> expected_hash
                          \<or> ev_sequence (sev_event claim) = 0
                          \<or> ev_sequence (sev_event claim) > last_sequence)
                  (state_error FailedPrecondition op_audit_runtime_events)) (\<lambda>_.
        m_bind (m_lift (validate_exact_event_target (sev_event claim))) (\<lambda>_.
        m_bind (m_lift (validate_event_identity (sev_identity claim) (sev_event claim))) (\<lambda>_.
        m_bind (m_reject (map_of claims (ev_sequence (sev_event claim)) \<noteq> None)
                  (state_error FailedPrecondition op_audit_runtime_events)) (\<lambda>_.
          m_return (put (ev_sequence (sev_event claim)) (sev_event claim) claims))))))))))"

definition audit_event_record :: "u64 \<Rightarrow> (u64 \<times> RuntimeEvent) list \<Rightarrow> string \<Rightarrow> unit store_m" where
  "audit_event_record last_sequence claims name =
     (if is_transaction_file name then m_return ()
      else
        m_bind (m_lift (parse_event_record_name name)) (\<lambda>sequence.
        m_bind (on_disk (\<lambda>d. map_of (event_records d) sequence)) (\<lambda>file.
        m_bind (m_lift (ok_or missing_file file)) (\<lambda>stored.
        m_bind (m_lift (validate_event_record stored sequence last_sequence)) (\<lambda>_.
          case map_of claims sequence of
            Some claimed \<Rightarrow>
              m_reject (claimed \<noteq> ser_event stored)
                (state_error FailedPrecondition op_audit_runtime_events)
          | None \<Rightarrow> m_throw (state_error FailedPrecondition op_audit_runtime_events))))))"

definition audit_event_journal :: "unit store_m" where
  "audit_event_journal =
     m_bind load_event_cursor (\<lambda>cursor.
     m_bind (m_gets event_claim_entries) (\<lambda>claim_names.
     m_bind (m_fold claim_names (audit_event_claim (sec_last_sequence cursor)) []) (\<lambda>claims.
     m_bind (m_gets event_record_entries) (\<lambda>record_names.
       m_foreach record_names (audit_event_record (sec_last_sequence cursor) claims)))))"

section \<open>Journal steps\<close>

definition cursor_last :: "disk \<Rightarrow> u64" where
  "cursor_last d = (case event_cursor d of None \<Rightarrow> 0 | Some c \<Rightarrow> sec_last_sequence c)"

definition valid_claim :: "externals \<Rightarrow> string \<Rightarrow> StoredEventClaim \<Rightarrow> bool" where
  "valid_claim x h c \<longleftrightarrow>
     h = event_identity_hash x (sev_identity c) \<and> sev_schema_version c = EVENT_CLAIM_SCHEMA_VERSION
     \<and> validate_exact_event_target (sev_event c) = Inr ()
     \<and> validate_event_identity (sev_identity c) (sev_event c) = Inr ()"

definition event_record :: "RuntimeEvent \<Rightarrow> StoredEventRecord" where
  "event_record e = \<lparr>ser_schema_version = EVENT_RECORD_SCHEMA_VERSION, ser_event = e\<rparr>"

definition claimed :: "disk \<Rightarrow> RuntimeEvent \<Rightarrow> bool" where
  "claimed d e \<longleftrightarrow> (\<exists>h c. map_of (event_claims d) h = Some c \<and> sev_event c = e)"

lemma claimedI: "map_of (event_claims d) h = Some c \<Longrightarrow> claimed d (sev_event c)"
  by (auto simp: claimed_def)

lemma claimed_put: "sev_event c = e \<Longrightarrow> claimed (d\<lparr>event_claims := put h c al\<rparr>) e"
  using claimedI [of "d\<lparr>event_claims := put h c al\<rparr>" h c] by simp

text \<open>The journal as a transition system: what one committed file may change.\<close>

inductive journal_step :: "externals \<Rightarrow> disk \<Rightarrow> disk \<Rightarrow> bool" for x where
  Advance: "checked_succ (cursor_last d) = Some q \<Longrightarrow>
     journal_step x d (d\<lparr>event_cursor := Some \<lparr>sec_schema_version = EVENT_CURSOR_SCHEMA_VERSION,
                                               sec_last_sequence = q\<rparr>\<rparr>)"
| Claim: "map_of (event_claims d) h = None \<Longrightarrow> valid_claim x h c \<Longrightarrow>
     ev_sequence (sev_event c) = cursor_last d \<Longrightarrow>
     (\<And>h' c'. map_of (event_claims d) h' = Some c' \<Longrightarrow> ev_sequence (sev_event c') \<noteq> cursor_last d) \<Longrightarrow>
     journal_step x d (d\<lparr>event_claims := put h c (event_claims d)\<rparr>)"
| Record: "claimed d e \<Longrightarrow> map_of (event_records d) (ev_sequence e) = None \<Longrightarrow>
     journal_step x d (d\<lparr>event_records := put (ev_sequence e) (event_record e) (event_records d)\<rparr>)"

definition claims_ok :: "externals \<Rightarrow> disk \<Rightarrow> bool" where
  "claims_ok x d \<longleftrightarrow> (\<forall>h c. map_of (event_claims d) h = Some c \<longrightarrow>
     valid_claim x h c \<and> ev_sequence (sev_event c) \<le> cursor_last d)"

definition claims_unique :: "disk \<Rightarrow> bool" where
  "claims_unique d \<longleftrightarrow> (\<forall>h c h' c'. map_of (event_claims d) h = Some c \<longrightarrow>
     map_of (event_claims d) h' = Some c' \<longrightarrow>
     ev_sequence (sev_event c) = ev_sequence (sev_event c') \<longrightarrow> h = h')"

definition records_claimed :: "disk \<Rightarrow> bool" where
  "records_claimed d \<longleftrightarrow> (\<forall>q r. map_of (event_records d) q = Some r \<longrightarrow>
     (\<exists>h c. map_of (event_claims d) h = Some c \<and> r = event_record (sev_event c)
           \<and> q = ev_sequence (sev_event c)))"

definition journal_inv :: "externals \<Rightarrow> disk \<Rightarrow> bool" where
  "journal_inv x d \<longleftrightarrow>
     (\<forall>c. event_cursor d = Some c \<longrightarrow> sec_schema_version c = EVENT_CURSOR_SCHEMA_VERSION)
     \<and> distinct_keys (event_claims d) \<and> distinct_keys (event_records d)
     \<and> claims_ok x d \<and> claims_unique d \<and> records_claimed d"

lemma validate_exact_sequence: "validate_exact_event_target e = Inr () \<Longrightarrow> ev_sequence e \<noteq> 0"
  by (auto simp: validate_exact_event_target_def r_bind_Inr_iff)

lemma cursor_last_simps [simp]:
  "cursor_last (d\<lparr>event_cursor := Some c\<rparr>) = sec_last_sequence c"
  "cursor_last (d\<lparr>event_claims := cl\<rparr>) = cursor_last d"
  "cursor_last (d\<lparr>event_records := re\<rparr>) = cursor_last d"
  by (simp_all add: cursor_last_def)

lemma claim_step_claims:
  assumes "map_of (event_claims d) h = None" "valid_claim x h c" "ev_sequence (sev_event c) = cursor_last d"
    and fresh: "\<And>h' c'. map_of (event_claims d) h' = Some c' \<Longrightarrow> ev_sequence (sev_event c') \<noteq> cursor_last d"
    and "claims_ok x d" "claims_unique d" "records_claimed d"
  shows "claims_ok x (d\<lparr>event_claims := put h c (event_claims d)\<rparr>)"
    and "claims_unique (d\<lparr>event_claims := put h c (event_claims d)\<rparr>)"
    and "records_claimed (d\<lparr>event_claims := put h c (event_claims d)\<rparr>)"
proof -
  show "claims_ok x (d\<lparr>event_claims := put h c (event_claims d)\<rparr>)"
    using assms by (simp add: claims_ok_def)
  show "claims_unique (d\<lparr>event_claims := put h c (event_claims d)\<rparr>)"
    unfolding claims_unique_def
  proof (intro allI impI)
    fix h1 c1 h2 c2
    assume "map_of (event_claims (d\<lparr>event_claims := put h c (event_claims d)\<rparr>)) h1 = Some c1"
      "map_of (event_claims (d\<lparr>event_claims := put h c (event_claims d)\<rparr>)) h2 = Some c2"
      "ev_sequence (sev_event c1) = ev_sequence (sev_event c2)"
    then show "h1 = h2"
      using assms(3) fresh [of h1 c1] fresh [of h2 c2] assms(6)
      by (auto simp: claims_unique_def split: if_splits)
  qed
  show "records_claimed (d\<lparr>event_claims := put h c (event_claims d)\<rparr>)"
    unfolding records_claimed_def
  proof (intro allI impI)
    fix q r
    assume "map_of (event_records (d\<lparr>event_claims := put h c (event_claims d)\<rparr>)) q = Some r"
    then have "map_of (event_records d) q = Some r" by simp
    then obtain h' c' where *: "map_of (event_claims d) h' = Some c'" "r = event_record (sev_event c')"
      "q = ev_sequence (sev_event c')"
      using assms(7) unfolding records_claimed_def by blast
    then have "h' \<noteq> h" using assms(1) by auto
    with * show "\<exists>h' c'. map_of (event_claims (d\<lparr>event_claims := put h c (event_claims d)\<rparr>)) h' = Some c'
        \<and> r = event_record (sev_event c') \<and> q = ev_sequence (sev_event c')"
      by (intro exI [of _ h'] exI [of _ c']) simp
  qed
qed

lemma journal_step_inv:
  assumes "journal_step x d d'" and inv: "journal_inv x d"
  shows "journal_inv x d'"
  using assms(1)
proof (cases rule: journal_step.cases)
  case (Advance q)
  then have "cursor_last d < q" using checked_succ_SomeD(1) by simp
  then have le: "a \<le> cursor_last d \<Longrightarrow> a \<le> q" for a
    by (meson order.trans order_less_imp_le)
  from Advance inv show ?thesis
    by (auto simp: journal_inv_def claims_ok_def claims_unique_def records_claimed_def intro: le)
next
  case (Claim h c)
  then show ?thesis
    using inv claim_step_claims [of d h x c] by (simp add: journal_inv_def)
next
  case (Record e)
  then show ?thesis
    using inv by (auto simp: journal_inv_def claims_ok_def claims_unique_def records_claimed_def claimed_def)
qed

interpretation journal: preserved "journal_step x" "journal_inv x" for x
  by unfold_locales (rule journal_step_inv)

text \<open>The journal only grows: committed claims and records never change, and nothing outside the
  journal is touched.\<close>

definition journal_le :: "disk \<Rightarrow> disk \<Rightarrow> bool" where
  "journal_le d d' \<longleftrightarrow> cursor_last d \<le> cursor_last d'
     \<and> (\<forall>h c. map_of (event_claims d) h = Some c \<longrightarrow> map_of (event_claims d') h = Some c)
     \<and> (\<forall>q r. map_of (event_records d) q = Some r \<longrightarrow> map_of (event_records d') q = Some r)
     \<and> directories d' = directories d \<and> generations d' = generations d \<and> operations d' = operations d"

lemma journal_step_le: "journal_step x d d' \<Longrightarrow> journal_le d d'"
  by (erule journal_step.cases)
    (auto simp: journal_le_def dest: checked_succ_SomeD(1) intro: order_less_imp_le)

lemma journal_le_trans: "journal_le d e \<Longrightarrow> journal_le e f \<Longrightarrow> journal_le d f"
  by (auto simp: journal_le_def)

lemma journal_steps_le: "(journal_step x)\<^sup>*\<^sup>* d d' \<Longrightarrow> journal_le d d'"
proof (induction rule: rtranclp_induct)
  case base
  then show ?case by (simp add: journal_le_def)
next
  case (step y z)
  then show ?case using journal_step_le journal_le_trans by blast
qed

text \<open>Claims of \<open>d'\<close> that are not in \<open>d\<close> carry a sequence past \<open>q\<close>.\<close>

definition claims_list_after ::
  "u64 \<Rightarrow> (string \<times> StoredEventClaim) list \<Rightarrow> (string \<times> StoredEventClaim) list \<Rightarrow> bool" where
  "claims_list_after q al al' \<longleftrightarrow> (\<forall>h c. map_of al' h = Some c \<longrightarrow>
     map_of al h = Some c \<or> q < ev_sequence (sev_event c))"

abbreviation claims_after :: "u64 \<Rightarrow> disk \<Rightarrow> disk \<Rightarrow> bool" where
  "claims_after q d d' \<equiv> claims_list_after q (event_claims d) (event_claims d')"

lemma claims_list_after_refl [simp]: "claims_list_after q al al"
  by (simp add: claims_list_after_def)

lemma claims_list_after_put [simp]:
  "q < ev_sequence (sev_event c) \<Longrightarrow> claims_list_after q al (put h c al)"
  by (auto simp: claims_list_after_def)

text \<open>The effect of one whole call on the journal.\<close>

definition journal_call :: "externals \<Rightarrow> disk \<Rightarrow> disk \<Rightarrow> bool" where
  "journal_call x d d' \<longleftrightarrow> (journal_step x)\<^sup>*\<^sup>* d d' \<and> claims_after (cursor_last d) d d'"

lemma journal_call_trans:
  assumes "journal_call x d e" "journal_call x e f"
  shows "journal_call x d f"
proof -
  have "cursor_last d \<le> cursor_last e"
    using assms(1) journal_steps_le [of x d e] by (simp add: journal_call_def journal_le_def)
  then show ?thesis
    using assms by (fastforce simp: journal_call_def claims_list_after_def)
qed

lemma journal_call_refl [simp]: "journal_call x d d"
  by (simp add: journal_call_def claims_list_after_def)

lemma journal_call_steps: "(journal_call x)\<^sup>*\<^sup>* d d' \<Longrightarrow> journal_call x d d'"
  by (induction rule: rtranclp_induct) (auto intro: journal_call_trans)

lemma journal_call_inv: "journal_call x d d' \<Longrightarrow> journal_inv x d \<Longrightarrow> journal_inv x d'"
  using journal.steps_preserve by (auto simp: journal_call_def)

lemma evolves_journal_call:
  assumes "evolves (journal_step x) m (\<lambda>r s'. claims_after (cursor_last (disk s)) (disk s) (disk s') \<and> Q r s') s"
  shows "evolves (journal_call x) m Q s"
  using assms unfolding evolves_def
  by (rule wp_mono) (auto simp: journal_call_def intro: r_into_rtranclp)

section \<open>Appending\<close>

lemma load_event_cursor_read_only [read_only_intros]: "read_only load_event_cursor"
  by (auto simp: load_event_cursor_def intro!: read_only_intros)

lemma load_event_claim_read_only [read_only_intros]: "read_only (load_event_claim h i)"
  by (auto simp: load_event_claim_def intro!: read_only_intros)

lemma load_event_cursor_Inr:
  assumes "fst (load_event_cursor s) = Inr c"
  shows "sec_schema_version c = EVENT_CURSOR_SCHEMA_VERSION" and "sec_last_sequence c = cursor_last (disk s)"
  using assms
  by (auto simp: load_event_cursor_def m_defs on_disk_def cursor_last_def split: option.splits if_splits)

lemma load_event_claim_Inr:
  assumes "fst (load_event_claim h i s) = Inr c"
  shows "map_of (event_claims (disk s)) h = Some c \<and> sev_identity c = i"
  using assms
  by (auto simp: load_event_claim_def m_defs on_disk_def split: option.splits if_splits sum.splits prod.splits)

lemma evolves_load_event_claim:
  assumes "\<And>e. Q (Inl e) s"
    and "\<And>c. map_of (event_claims (disk s)) h = Some c \<Longrightarrow> claimed (disk s) (sev_event c) \<Longrightarrow>
           sev_identity c = i \<Longrightarrow> Q (Inr c) s"
  shows "evolves R (load_event_claim h i) Q s"
proof (rule evolves_read_only [OF load_event_claim_read_only])
  show "Q (fst (load_event_claim h i s)) s"
    using assms load_event_claim_Inr [of h i s] claimedI
    by (cases "fst (load_event_claim h i s)") auto
qed

lemma evolves_load_event_cursor:
  assumes "\<And>e. Q (Inl e) s"
    and "\<And>c. sec_schema_version c = EVENT_CURSOR_SCHEMA_VERSION \<Longrightarrow>
           sec_last_sequence c = cursor_last (disk s) \<Longrightarrow> Q (Inr c) s"
  shows "evolves R load_event_cursor Q s"
proof (rule evolves_read_only [OF load_event_cursor_read_only])
  show "Q (fst (load_event_cursor s)) s"
    using assms load_event_cursor_Inr [of s] by (cases "fst (load_event_cursor s)") auto
qed

lemma evolves_ensure_event_record:
  assumes "claimed (disk s) e"
    and "\<And>err s'. same_env s s' \<Longrightarrow> (journal_step x)\<^sup>*\<^sup>* (disk s) (disk s') \<Longrightarrow>
           event_claims (disk s') = event_claims (disk s) \<Longrightarrow> event_cursor (disk s') = event_cursor (disk s) \<Longrightarrow>
           Q (Inl err) s'"
    and "\<And>s'. same_env s s' \<Longrightarrow> (journal_step x)\<^sup>*\<^sup>* (disk s) (disk s') \<Longrightarrow>
           event_claims (disk s') = event_claims (disk s) \<Longrightarrow> event_cursor (disk s') = event_cursor (disk s) \<Longrightarrow>
           map_of (event_records (disk s')) (ev_sequence e) = Some (event_record e) \<Longrightarrow> Q (Inr ()) s'"
  shows "evolves (journal_step x) (ensure_event_record e) Q s"
proof -
  let ?d = "disk s" and ?d' = "(disk s)\<lparr>event_records := put (ev_sequence e) (event_record e) (event_records (disk s))\<rparr>"
  have step: "map_of (event_records ?d) (ev_sequence e) = None \<Longrightarrow> journal_step x ?d ?d'"
    using assms(1) by (blast intro: journal_step.Record)
  then have steps: "map_of (event_records ?d) (ev_sequence e) = None \<Longrightarrow> (journal_step x)\<^sup>*\<^sup>* ?d ?d'"
    by blast
  show ?thesis
    unfolding ensure_event_record_def Let_def event_record_def [symmetric]
    by (intro evolves_rules)
      (auto intro!: evolves_rules assms(2,3) step steps split: option.split)
qed


definition new_event ::
  "u64 \<Rightarrow> u64 \<Rightarrow> ContainerTarget \<Rightarrow> OperationId option \<Rightarrow> ProcessId option \<Rightarrow> RuntimeEventKind
     \<Rightarrow> (string, string) fmap \<Rightarrow> RuntimeEvent" where
  "new_event q t target operation_id process_id kind attributes =
     \<lparr>ev_sequence = q, ev_timestamp_unix_ns = t, ev_container = target, ev_operation_id = operation_id,
      ev_process_id = process_id, ev_kind = kind, ev_attributes = attributes\<rparr>"

lemma new_event_sel [simp]:
  "ev_sequence (new_event q t target oid pid kind attrs) = q"
  "ev_container (new_event q t target oid pid kind attrs) = target"
  "ev_operation_id (new_event q t target oid pid kind attrs) = oid"
  "ev_process_id (new_event q t target oid pid kind attrs) = pid"
  "ev_kind (new_event q t target oid pid kind attrs) = kind"
  "ev_attributes (new_event q t target oid pid kind attrs) = attrs"
  by (simp_all add: new_event_def)

text \<open>What a successful append leaves: the identity is claimed by the returned event, whose record is
  stored, and the event is the requested one.\<close>

definition event_published ::
  "string \<Rightarrow> ContainerTarget \<Rightarrow> OperationId option \<Rightarrow> ProcessId option \<Rightarrow> RuntimeEventKind
     \<Rightarrow> (string, string) fmap \<Rightarrow> RuntimeEvent \<Rightarrow> DurableStateStore \<Rightarrow> bool" where
  "event_published ident target operation_id process_id kind attributes e s \<longleftrightarrow>
     (\<exists>c. map_of (event_claims (disk s)) (event_identity_hash (ext s) ident) = Some c
          \<and> sev_identity c = ident \<and> sev_event c = e)
     \<and> map_of (event_records (disk s)) (ev_sequence e) = Some (event_record e)
     \<and> validate_claimed_event e target operation_id process_id kind attributes = Inr ()"

lemma validate_claimed_new_event [simp]:
  "validate_claimed_event (new_event q t target oid pid kind attrs) target oid pid kind attrs = Inr ()"
  by (simp add: validate_claimed_event_def)

lemma validate_claimed_event_Inr:
  "validate_claimed_event e target oid pid kind attrs = Inr () \<Longrightarrow>
     ev_container e = target \<and> ev_process_id e = pid \<and> ev_kind e = kind \<and> ev_attributes e = attrs"
  by (auto simp: validate_claimed_event_def Let_def split: if_splits)

lemma claims_below_cursor:
  assumes "journal_inv x d" "checked_succ (cursor_last d) = Some q" "map_of (event_claims d) h = Some c"
  shows "ev_sequence (sev_event c) \<noteq> q"
proof -
  have "ev_sequence (sev_event c) \<le> cursor_last d"
    using assms(1,3) by (simp add: journal_inv_def claims_ok_def)
  with checked_succ_SomeD(1) [OF assms(2)] show ?thesis by auto
qed

text \<open>The second half of an append, from a cursor that no claim uses yet.\<close>

lemma publish_event_evolves:
  assumes fresh: "\<And>h' c'. map_of (event_claims (disk s)) h' = Some c' \<Longrightarrow> ev_sequence (sev_event c') \<noteq> q"
    and q: "cursor_last (disk s) = q" and lst: "lst < q" and h: "h = event_identity_hash x ident" and x: "ext s = x"
    and none: "map_of (event_claims (disk s)) h = None"
    and ident: "\<And>t. validate_event_identity ident (new_event q t target oid pid kind attrs) = Inr ()"
  shows "evolves (journal_step x)
     (m_bind (m_gets event_timestamp) (\<lambda>stamp.
      m_bind (m_lift stamp) (\<lambda>t.
      m_bind (m_lift (validate_exact_event_target (new_event q t target oid pid kind attrs))) (\<lambda>_.
      m_bind (atomic_write ClaimRuntimeEvent (EventClaimPath h)
                (ClaimFile \<lparr>sev_schema_version = EVENT_CLAIM_SCHEMA_VERSION, sev_identity = ident,
                            sev_event = new_event q t target oid pid kind attrs\<rparr>)) (\<lambda>_.
      m_bind (ensure_event_record (new_event q t target oid pid kind attrs)) (\<lambda>_.
        m_return (new_event q t target oid pid kind attrs)))))))
     (\<lambda>r s'. claims_after lst (disk s) (disk s')
       \<and> (\<forall>e. r = Inr e \<longrightarrow> event_published ident target oid pid kind attrs e s')) s"
proof -
  have step: "journal_step x (disk s) ((disk s)\<lparr>event_claims :=
      put h \<lparr>sev_schema_version = EVENT_CLAIM_SCHEMA_VERSION, sev_identity = ident,
             sev_event = new_event q t target oid pid kind attrs\<rparr> (event_claims (disk s))\<rparr>)"
    if "validate_exact_event_target (new_event q t target oid pid kind attrs) = Inr ()" for t
    using that none q h ident fresh by (intro journal_step.Claim) (auto simp: valid_claim_def)
  have hs: "event_identity_hash (ext s) ident = h" using h x by simp
  show ?thesis
    unfolding x [symmetric]
    by (auto split: sum.split simp: event_published_def same_env_def hs lst
        intro!: evolves_rules evolves_ensure_event_record step [folded x] claimed_put)
qed

lemma append_event_evolves:
  assumes inv: "journal_inv (ext s) (disk s)"
    and ident: "\<And>q t. validate_event_identity ident (new_event q t target oid pid kind attrs) = Inr ()"
  shows "evolves (journal_call (ext s)) (append_event ident target oid pid kind attrs)
           (\<lambda>r s'. \<forall>e. r = Inr e \<longrightarrow> event_published ident target oid pid kind attrs e s') s"
proof -
  let ?h = "event_identity_hash (ext s) ident"
  have existing: "evolves (journal_step (ext s))
      (m_bind (load_event_claim ?h ident) (\<lambda>claim.
         m_bind (m_lift (validate_claimed_event (sev_event claim) target oid pid kind attrs)) (\<lambda>_.
         m_bind (ensure_event_record (sev_event claim)) (\<lambda>_.
           m_return (sev_event claim)))))
      (\<lambda>r s'. claims_after (cursor_last (disk s)) (disk s) (disk s')
        \<and> (\<forall>e. r = Inr e \<longrightarrow> event_published ident target oid pid kind attrs e s')) s"
    by (auto split: sum.split simp: event_published_def same_env_def
        intro!: evolves_rules evolves_ensure_event_record evolves_load_event_claim)
  have fresh: "evolves (journal_step (ext s))
      (m_bind (atomic_write AdvanceEventSequence EventCursorPath (CursorFile (c\<lparr>sec_last_sequence := q\<rparr>)))
        (\<lambda>_. m_bind (m_gets event_timestamp) (\<lambda>stamp.
         m_bind (m_lift stamp) (\<lambda>t.
         m_bind (m_lift (validate_exact_event_target (new_event q t target oid pid kind attrs))) (\<lambda>_.
         m_bind (atomic_write ClaimRuntimeEvent (EventClaimPath ?h)
                  (ClaimFile \<lparr>sev_schema_version = EVENT_CLAIM_SCHEMA_VERSION, sev_identity = ident,
                              sev_event = new_event q t target oid pid kind attrs\<rparr>)) (\<lambda>_.
         m_bind (ensure_event_record (new_event q t target oid pid kind attrs)) (\<lambda>_.
           m_return (new_event q t target oid pid kind attrs))))))))
      (\<lambda>r s'. claims_after (cursor_last (disk s)) (disk s) (disk s')
        \<and> (\<forall>e. r = Inr e \<longrightarrow> event_published ident target oid pid kind attrs e s')) s"
    if c: "sec_schema_version c = EVENT_CURSOR_SCHEMA_VERSION"
      and q: "checked_succ (cursor_last (disk s)) = Some q"
      and none: "map_of (event_claims (disk s)) ?h = None" for c q
  proof -
    have eq: "c\<lparr>sec_last_sequence := q\<rparr>
        = \<lparr>sec_schema_version = EVENT_CURSOR_SCHEMA_VERSION, sec_last_sequence = q\<rparr>"
      using c by simp
    show ?thesis
      unfolding eq
    proof (rule evolves_bind, rule evolves_write)
      fix s'
      assume s': "same_env s s'"
        "disk s' = replace_file EventCursorPath (CursorFile \<lparr>sec_schema_version =
           EVENT_CURSOR_SCHEMA_VERSION, sec_last_sequence = q\<rparr>) (disk s)"
      show "case Inr () of Inl e \<Rightarrow> claims_after (cursor_last (disk s)) (disk s) (disk s')
            \<and> (\<forall>ea. Inl e = Inr ea \<longrightarrow> event_published ident target oid pid kind attrs ea s')
        | Inr x \<Rightarrow> evolves (journal_step (ext s)) (m_bind (m_gets event_timestamp) (\<lambda>stamp.
         m_bind (m_lift stamp) (\<lambda>t.
         m_bind (m_lift (validate_exact_event_target (new_event q t target oid pid kind attrs))) (\<lambda>_.
         m_bind (atomic_write ClaimRuntimeEvent (EventClaimPath ?h)
                  (ClaimFile \<lparr>sev_schema_version = EVENT_CLAIM_SCHEMA_VERSION, sev_identity = ident,
                              sev_event = new_event q t target oid pid kind attrs\<rparr>)) (\<lambda>_.
         m_bind (ensure_event_record (new_event q t target oid pid kind attrs)) (\<lambda>_.
           m_return (new_event q t target oid pid kind attrs)))))))
      (\<lambda>r s'. claims_after (cursor_last (disk s)) (disk s) (disk s')
        \<and> (\<forall>e. r = Inr e \<longrightarrow> event_published ident target oid pid kind attrs e s')) s'"
        unfolding sum.case
        by (rule evolves_mono, rule publish_event_evolves [where lst = "cursor_last (disk s)"])
          (use s' none ident claims_below_cursor [OF inv q] checked_succ_SomeD(1) [OF q]
            in \<open>auto simp: same_env_def\<close>)
    qed (auto intro: journal_step.Advance q)
  qed
  show ?thesis
    apply (rule evolves_journal_call)
    unfolding append_event_def Let_def new_event_def [symmetric]
    apply (intro evolves_rules)
    apply (simp split: sum.split)
    apply (intro allI impI evolves_rules)
    apply simp
    apply (intro evolves_rules)
    apply (simp add: existing)
    apply (intro impI evolves_bind evolves_load_event_cursor)
     apply (simp_all split: sum.split)
    apply (intro allI impI evolves_bind [of _ "m_lift _"] evolves_lift)
    apply (auto split: sum.split simp: fresh)
    done
qed

section \<open>Well-formed identities\<close>

lemma strip_prefix_append [simp]: "strip_prefix_str pre (pre @ s) = Some s"
  by (simp add: strip_prefix_str_def)

lemma rsplit_once_colon_append:
  assumes "CHR '':'' \<notin> set suf"
  shows "rsplit_once_colon (i @ CHR '':'' # suf) = Some (i, suf)"
proof -
  have "takeWhile (\<lambda>c. c \<noteq> CHR '':'') (rev suf @ CHR '':'' # rev i) = rev suf"
    using assms by (subst takeWhile_append2) auto
  then show ?thesis
    by (simp add: rsplit_once_colon_def)
qed

lemma strip_operation_other [simp]:
  "strip_prefix_str OPERATION_PREFIX (CONTAINER_PREFIX @ s) = None"
  "strip_prefix_str OPERATION_PREFIX (PROCESS_PREFIX @ s) = None"
  by (simp_all add: strip_prefix_str_def OPERATION_PREFIX_def CONTAINER_PREFIX_def PROCESS_PREFIX_def)

lemma scoped_identity_ok:
  assumes "fmlookup attrs ATTR_OPERATION_ID = None"
  shows "validate_event_identity (CONTAINER_PREFIX @ k) (new_event q t target None pid kind attrs) = Inr ()"
    and "validate_event_identity (PROCESS_PREFIX @ k) (new_event q t target None pid kind attrs) = Inr ()"
  using assms by (simp_all add: validate_event_identity_def)

lemma operation_identity_ok:
  assumes "valid_id oid" "suf \<noteq> []" "CHR '':'' \<notin> set suf"
  shows "validate_event_identity (OPERATION_PREFIX @ oid @ '':'' @ suf)
           (new_event q t target (Some oid) pid kind attrs) = Inr ()"
  using assms by (simp add: validate_event_identity_def rsplit_once_colon_append valid_id_def r_reject_def)

definition event_appended :: "error + RuntimeEvent \<Rightarrow> ContainerTarget \<Rightarrow> RuntimeEventKind \<Rightarrow> DurableStateStore \<Rightarrow> bool" where
  "event_appended r target kind s \<longleftrightarrow>
     (\<forall>e. r = Inr e \<longrightarrow> claimed (disk s) e \<and> ev_container e = target \<and> ev_kind e = kind
          \<and> map_of (event_records (disk s)) (ev_sequence e) = Some (event_record e))"

lemma event_published_appended:
  "event_published ident target oid pid kind attrs e s \<Longrightarrow> event_appended (Inr e) target kind s"
  using validate_claimed_event_Inr by (fastforce simp: event_published_def event_appended_def claimed_def)

lemma append_event_evolves_appended:
  assumes "journal_inv (ext s) (disk s)"
    and "\<And>q t. validate_event_identity ident (new_event q t target oid pid kind attrs) = Inr ()"
  shows "evolves (journal_call (ext s)) (append_event ident target oid pid kind attrs)
           (\<lambda>r. event_appended r target kind) s"
  using append_event_evolves [OF assms]
proof (rule evolves_mono)
  fix r :: "error + RuntimeEvent" and s'
  assume "\<forall>e. r = Inr e \<longrightarrow> event_published ident target oid pid kind attrs e s'"
  then show "event_appended r target kind s'"
    using event_published_appended by (cases r) (auto simp: event_appended_def)
qed

lemma append_container_event_evolves:
  assumes "journal_inv (ext s) (disk s)" "fmlookup attrs ATTR_OPERATION_ID = None"
  shows "evolves (journal_call (ext s)) (append_container_event suf target kind attrs)
           (\<lambda>r. event_appended r target kind) s"
  unfolding append_container_event_def
  using assms by (auto split: sum.split simp: event_appended_def [of "Inl _"]
      intro!: evolves_bind evolves_lift append_event_evolves_appended scoped_identity_ok)

lemma append_process_event_evolves:
  assumes "journal_inv (ext s) (disk s)" "fmlookup attrs ATTR_OPERATION_ID = None"
  shows "evolves (journal_call (ext s)) (append_process_event suf target pid kind attrs)
           (\<lambda>r. event_appended r target kind) s"
  unfolding append_process_event_def
  using assms by (auto split: sum.split simp: event_appended_def [of "Inl _"]
      intro!: evolves_bind evolves_lift append_event_evolves_appended scoped_identity_ok)

lemma append_operation_event_evolves:
  assumes "journal_inv (ext s) (disk s)" "valid_id oid" "suf \<noteq> []" "CHR '':'' \<notin> set suf"
  shows "evolves (journal_call (ext s)) (append_operation_event oid suf target pid kind attrs)
           (\<lambda>r. event_appended r target kind) s"
  unfolding append_operation_event_def
  using assms by (intro append_event_evolves_appended operation_identity_ok)

section \<open>The startup audit accepts every reachable journal\<close>

lemma not_transaction_json [simp]: "\<not> is_transaction_file (json_name n)"
proof
  assume "is_transaction_file (json_name n)"
  then obtain zs where "n @ ''.json'' = zs @ ''.next''"
    by (auto simp: is_transaction_file_def json_name_def suffix_def)
  then have "last (n @ ''.json'') = last (zs @ ''.next'')" by simp
  then show False by simp
qed

lemma not_transaction_record [simp]: "\<not> is_transaction_file (event_record_name q)"
  by (simp add: event_record_name_def)

lemma parse_event_record_name_round_trip:
  "parse_event_record_name (event_record_name q) = Inr q"
proof -
  have lt: "unat q < 2 ^ 64"
    using unsigned_less [of q, where ?'a = nat] by simp
  then have "unat q < 10 ^ 20" by simp
  then have "parse_nat (print_padded 20 (unat q)) = unat q"
    by (rule parse_print_padded)
  then show ?thesis
    using lt by (simp add: parse_event_record_name_def event_record_name_def json_name_def
        digits_print_padded not_le)
qed

definition hex_digests :: "externals \<Rightarrow> bool" where
  "hex_digests x \<longleftrightarrow> (\<forall>i. length (x_sha256 x i) = 64 \<and> list_all is_lower_hex (x_sha256 x i))"

lemma parse_event_claim_name_ok:
  assumes "hex_digests x"
  shows "parse_event_claim_name (json_name (event_identity_hash x i)) = Inr (event_identity_hash x i)"
  using assms by (simp add: parse_event_claim_name_def json_name_def hex_digests_def event_identity_hash_def)

lemma parse_event_claim_name_Inr:
  "parse_event_claim_name (json_name h) = Inr h' \<Longrightarrow> h' = h"
  by (auto simp: parse_event_claim_name_def json_name_def split: if_splits)


lemma journal_inv_claim:
  assumes "journal_inv x d" "map_of (event_claims d) h = Some c"
  shows "valid_claim x h c" and "ev_sequence (sev_event c) \<le> cursor_last d"
    and "ev_sequence (sev_event c) \<noteq> 0"
  using assms validate_exact_sequence by (auto simp: journal_inv_def claims_ok_def valid_claim_def)

lemma load_event_cursor_ok:
  assumes "journal_inv x (disk s)"
  shows "\<exists>c. load_event_cursor s = (Inr c, s) \<and> sec_last_sequence c = cursor_last (disk s)
           \<and> sec_schema_version c = EVENT_CURSOR_SCHEMA_VERSION"
  using assms
  by (auto simp: load_event_cursor_def m_defs on_disk_def journal_inv_def cursor_last_def split: option.split)

lemma audit_event_claim_ok:
  assumes inv: "journal_inv (ext s) (disk s)" and hex: "hex_digests (ext s)"
    and c: "map_of (event_claims (disk s)) h = Some c"
    and fresh: "map_of acc (ev_sequence (sev_event c)) = None"
  shows "audit_event_claim (cursor_last (disk s)) (json_name h) acc s
           = (Inr (put (ev_sequence (sev_event c)) (sev_event c) acc), s)"
proof -
  note v = journal_inv_claim [OF inv c]
  then have h: "h = event_identity_hash (ext s) (sev_identity c)" and
    "sev_schema_version c = EVENT_CLAIM_SCHEMA_VERSION" and
    "validate_exact_event_target (sev_event c) = Inr ()" and
    "validate_event_identity (sev_identity c) (sev_event c) = Inr ()"
    by (auto simp: valid_claim_def)
  moreover have "parse_event_claim_name (json_name h) = Inr h"
    unfolding h by (rule parse_event_claim_name_ok [OF hex])
  ultimately show ?thesis
    using c fresh v by (simp add: audit_event_claim_def m_defs on_disk_def not_less)
qed

lemma audit_claims_ok:
  assumes inv: "journal_inv (ext s) (disk s)" and hex: "hex_digests (ext s)"
    and "set al \<subseteq> set (event_claims (disk s))" and "distinct_keys al"
    and "\<And>h c. (h, c) \<in> set al \<Longrightarrow> map_of acc (ev_sequence (sev_event c)) = None"
  shows "\<exists>acc'. m_fold (map (\<lambda>(h, _). json_name h) al) (audit_event_claim (cursor_last (disk s))) acc s
            = (Inr acc', s)
          \<and> (\<forall>h c. (h, c) \<in> set al \<longrightarrow> map_of acc' (ev_sequence (sev_event c)) = Some (sev_event c))
          \<and> (\<forall>q e. map_of acc q = Some e \<longrightarrow> map_of acc' q = Some e)"
  using assms(3-)
proof (induction al arbitrary: acc)
  case Nil
  then show ?case by (simp add: m_return_apply)
next
  case (Cons p al)
  obtain h c where p: "p = (h, c)" by (cases p)
  have dk: "distinct_keys (event_claims (disk s))" using inv by (simp add: journal_inv_def)
  have look: "map_of (event_claims (disk s)) h' = Some c'" if "(h', c') \<in> set (p # al)" for h' c'
    using that Cons.prems(1) distinct_keys_lookup [OF dk] by auto
  let ?acc = "put (ev_sequence (sev_event c)) (sev_event c) acc"
  have one: "audit_event_claim (cursor_last (disk s)) (json_name h) acc s = (Inr ?acc, s)"
    using Cons.prems p look by (intro audit_event_claim_ok [OF inv hex]) auto
  have uniq: "ev_sequence (sev_event c') \<noteq> ev_sequence (sev_event c)" if "(h', c') \<in> set al" for h' c'
  proof
    assume "ev_sequence (sev_event c') = ev_sequence (sev_event c)"
    then have "h' = h"
      using inv look [of h' c'] look [of h c] that p by (auto simp: journal_inv_def claims_unique_def)
    then show False using that Cons.prems(2) p by (force simp: distinct_keys_def)
  qed
  have "\<exists>acc'. m_fold (map (\<lambda>(h, _). json_name h) al) (audit_event_claim (cursor_last (disk s))) ?acc s
            = (Inr acc', s)
          \<and> (\<forall>h c. (h, c) \<in> set al \<longrightarrow> map_of acc' (ev_sequence (sev_event c)) = Some (sev_event c))
          \<and> (\<forall>q e. map_of ?acc q = Some e \<longrightarrow> map_of acc' q = Some e)"
    using Cons.prems uniq by (intro Cons.IH) (auto simp: distinct_keys_def)
  then show ?case
    using one Cons.prems(3) p by (auto simp: m_bind_Inr split: if_splits) (metis option.distinct(1))
qed

lemma audit_event_journal_ok:
  assumes inv: "journal_inv (ext s) (disk s)" and hex: "hex_digests (ext s)"
  shows "audit_event_journal s = (Inr (), s)"
proof -
  have dk: "distinct_keys (event_claims (disk s))" "distinct_keys (event_records (disk s))"
    using inv by (simp_all add: journal_inv_def)
  obtain cu where cu: "load_event_cursor s = (Inr cu, s)" "sec_last_sequence cu = cursor_last (disk s)"
    using load_event_cursor_ok [OF inv] by blast
  obtain acc where acc: "m_fold (map (\<lambda>(h, _). json_name h) (event_claims (disk s)))
      (audit_event_claim (cursor_last (disk s))) [] s = (Inr acc, s)"
    and all: "\<And>h c. (h, c) \<in> set (event_claims (disk s)) \<Longrightarrow>
      map_of acc (ev_sequence (sev_event c)) = Some (sev_event c)"
    using audit_claims_ok [OF inv hex subset_refl dk(1), of "[]"] by auto
  have claims: "m_fold (event_claim_entries s) (audit_event_claim (cursor_last (disk s))) [] s = (Inr acc, s)"
    unfolding event_claim_entries_def m_fold_append m_bind_Inr [of "m_fold _ _ _", OF acc]
    by (rule m_fold_skip)
      (auto simp: audit_event_claim_def m_return_apply split: state_path.splits)
  have rec: "audit_event_record (cursor_last (disk s)) acc name s = (Inr (), s)"
    if nm: "name \<in> set (event_record_entries s)" for name
  proof (cases "is_transaction_file name")
    case True
    then show ?thesis by (simp add: audit_event_record_def m_return_apply)
  next
    case False
    then obtain q r where q: "name = event_record_name q" "map_of (event_records (disk s)) q = Some r"
      using nm distinct_keys_lookup [OF dk(2)]
      by (auto simp: event_record_entries_def split: state_path.splits)
    then obtain h c where c: "map_of (event_claims (disk s)) h = Some c" "r = event_record (sev_event c)"
      "q = ev_sequence (sev_event c)"
      using inv unfolding journal_inv_def records_claimed_def by blast
    then have "map_of acc q = Some (ser_event r)"
      using all distinct_keys_lookup [OF dk(1)] by (auto simp: event_record_def)
    moreover have "validate_event_record r q (cursor_last (disk s)) = Inr ()"
      using journal_inv_claim [OF inv c(1)] c
      by (simp add: validate_event_record_def event_record_def valid_claim_def r_reject_def not_less)
    ultimately show ?thesis
      using q by (simp add: audit_event_record_def parse_event_record_name_round_trip m_defs on_disk_def)
  qed
  have recs: "m_foreach (event_record_entries s) (audit_event_record (cursor_last (disk s)) acc) s = (Inr (), s)"
    using rec by (rule m_foreach_ok)
  show ?thesis
    unfolding audit_event_journal_def
    using cu claims recs
    by (simp add: m_bind_def m_gets_def)
qed

section \<open>Completeness of polling\<close>

lemma ensure_event_record_Inr:
  assumes "ensure_event_record e s = (Inr u, s')"
  shows "same_env s s'" and "event_claims (disk s') = event_claims (disk s)"
    and "event_cursor (disk s') = event_cursor (disk s)"
    and "\<And>q. map_of (event_records (disk s')) q =
           (if q = ev_sequence e then Some (event_record e) else map_of (event_records (disk s)) q)"
    and "\<And>r. map_of (event_records (disk s)) (ev_sequence e) = Some r \<Longrightarrow> r = event_record e"
proof -
  have *: "same_env s s' \<and> event_claims (disk s') = event_claims (disk s)
      \<and> event_cursor (disk s') = event_cursor (disk s)
      \<and> map_of (event_records (disk s')) = (map_of (event_records (disk s)))(ev_sequence e \<mapsto> event_record e)
      \<and> (\<forall>r. map_of (event_records (disk s)) (ev_sequence e) = Some r \<longrightarrow> r = event_record e)"
  proof (cases "map_of (event_records (disk s)) (ev_sequence e)")
    case None
    then have w: "atomic_write StoreRuntimeEvent (EventRecordPath (ev_sequence e))
        (EventFile (event_record e)) s = (Inr u, s')"
      using assms by (simp add: ensure_event_record_def m_defs on_disk_def event_record_def Let_def)
    show ?thesis
      using atomic_write_Inr [OF w] None by (auto simp: update_conv)
  next
    case (Some r)
    then have "r = event_record e \<and> s' = s"
      using assms
      by (auto simp: ensure_event_record_def m_defs on_disk_def event_record_def Let_def split: if_splits)
    then show ?thesis using Some by auto
  qed
  from * show "same_env s s'" "event_claims (disk s') = event_claims (disk s)"
    "event_cursor (disk s') = event_cursor (disk s)" by blast+
  fix q show "map_of (event_records (disk s')) q =
           (if q = ev_sequence e then Some (event_record e) else map_of (event_records (disk s)) q)"
    using * by simp
  fix r show "map_of (event_records (disk s)) (ev_sequence e) = Some r \<Longrightarrow> r = event_record e"
    using * by simp
qed

lemma repair_event_claim_Inr:
  assumes "repair_event_claim lst name acc s = (Inr acc', s')" and "\<not> is_transaction_file name"
  obtains h c where "parse_event_claim_name name = Inr h" "map_of (event_claims (disk s)) h = Some c"
    "acc' = insert (ev_sequence (sev_event c)) acc"
    "ensure_event_record (sev_event c) s = (Inr (), s')"
  using assms
  by (auto simp: repair_event_claim_def m_defs on_disk_def
      split: option.splits if_splits sum.splits prod.splits)

lemma repair_event_claim_transaction:
  "is_transaction_file name \<Longrightarrow> repair_event_claim lst name acc s = (Inr acc, s)"
  by (simp add: repair_event_claim_def m_return_apply)

definition records_grow :: "disk \<Rightarrow> disk \<Rightarrow> bool" where
  "records_grow d d' \<longleftrightarrow> event_claims d' = event_claims d \<and> event_cursor d' = event_cursor d
     \<and> (\<forall>q r. map_of (event_records d) q = Some r \<longrightarrow> map_of (event_records d') q = Some r)"

lemma records_grow_refl [simp]: "records_grow d d"
  by (simp add: records_grow_def)

lemma records_grow_trans: "records_grow d e \<Longrightarrow> records_grow e f \<Longrightarrow> records_grow d f"
  by (simp add: records_grow_def)

lemma ensure_event_record_grow:
  assumes "ensure_event_record e s = (Inr u, s')"
  shows "records_grow (disk s) (disk s')"
    and "map_of (event_records (disk s')) (ev_sequence e) = Some (event_record e)"
  using ensure_event_record_Inr [OF assms] by (auto simp: records_grow_def)

text \<open>After a successful repair every claimed event has its record, and nothing else changed.\<close>

lemma repair_pending_Inr:
  assumes "repair_pending_event_records s = (Inr cls, s')"
  shows "same_env s s'" and "records_grow (disk s) (disk s')"
    and "\<And>h c. map_of (event_claims (disk s)) h = Some c \<Longrightarrow>
           map_of (event_records (disk s')) (ev_sequence (sev_event c)) = Some (event_record (sev_event c))"
proof -
  obtain cu where cu: "load_event_cursor s = (Inr cu, s)"
    and fold: "m_fold (event_claim_entries s) (repair_event_claim (sec_last_sequence cu)) {} s = (Inr cls, s')"
    using assms read_onlyD [OF load_event_cursor_read_only, of s]
    by (auto simp: repair_pending_event_records_def m_bind_def m_gets_def split: prod.splits sum.splits)
  let ?P = "\<lambda>ys (a :: u64 set) t. same_env s t \<and> records_grow (disk s) (disk t)
    \<and> (\<forall>h c. json_name h \<in> set ys \<longrightarrow> map_of (event_claims (disk s)) h = Some c \<longrightarrow>
        map_of (event_records (disk t)) (ev_sequence (sev_event c)) = Some (event_record (sev_event c)))"
  have "?P (event_claim_entries s) cls s'"
    using fold
  proof (rule m_fold_Inr_induct)
    fix ys x a t a' t'
    assume P: "?P ys a t" and f: "repair_event_claim (sec_last_sequence cu) x a t = (Inr a', t')"
    show "?P (ys @ [x]) a' t'"
    proof (cases "is_transaction_file x")
      case True
      with f have "t' = t" by (simp add: repair_event_claim_transaction)
      moreover have "x \<noteq> json_name h" for h using True by auto
      ultimately show ?thesis using P by auto
    next
      case False
      from f this obtain h c where c: "parse_event_claim_name x = Inr h"
        "map_of (event_claims (disk t)) h = Some c" "ensure_event_record (sev_event c) t = (Inr (), t')"
        by (rule repair_event_claim_Inr)
      note g = ensure_event_record_grow [OF c(3)] ensure_event_record_Inr(1) [OF c(3)]
      have cl: "event_claims (disk t) = event_claims (disk s)" using P by (simp add: records_grow_def)
      have "map_of (event_records (disk t')) (ev_sequence (sev_event c')) = Some (event_record (sev_event c'))"
        if "json_name h' \<in> set (ys @ [x])" "map_of (event_claims (disk s)) h' = Some c'" for h' c'
      proof (cases "x = json_name h'")
        case True
        then have "h' = h" using c(1) parse_event_claim_name_Inr by blast
        then show ?thesis using c(2) that(2) cl g(2) by simp
      next
        case False
        then show ?thesis using that P g(1) by (auto simp: records_grow_def)
      qed
      then show ?thesis
        using P g records_grow_trans same_env_trans by blast
    qed
  qed simp
  moreover have "json_name h \<in> set (event_claim_entries s)"
    if "map_of (event_claims (disk s)) h = Some c" for h c
    using map_of_SomeD [OF that] by (force simp: event_claim_entries_def)
  ultimately show "same_env s s'" "records_grow (disk s) (disk s')"
    "\<And>h c. map_of (event_claims (disk s)) h = Some c \<Longrightarrow>
       map_of (event_records (disk s')) (ev_sequence (sev_event c)) = Some (event_record (sev_event c))"
    by blast+
qed

lemma poll_event_record_read_only [read_only_intros]: "read_only (poll_event_record l cl a n acc)"
  by (auto simp: poll_event_record_def intro!: read_only_intros)

lemma event_record_name_inject [simp]: "event_record_name q = event_record_name q' \<longleftrightarrow> q = q'"
  using parse_event_record_name_round_trip by (metis sum.inject(2))

lemma poll_event_record_Inr:
  assumes "poll_event_record l cl a (event_record_name q) acc s = (Inr acc', s')"
  obtains r where "map_of (event_records (disk s)) q = Some r" "ev_sequence (ser_event r) = q" "q \<le> l"
    "acc' = (if q > a then acc @ [ser_event r] else acc)"
  using assms
  by (auto simp: poll_event_record_def m_defs on_disk_def parse_event_record_name_round_trip
      validate_event_record_def r_bind_Inr_iff split: option.splits if_splits sum.splits prod.splits)

text \<open>What the poll loop collects: the events past the cursor, each under its own sequence.\<close>

definition recorded :: "disk \<Rightarrow> RuntimeEvent \<Rightarrow> bool" where
  "recorded d e \<longleftrightarrow> (\<exists>r. map_of (event_records d) (ev_sequence e) = Some r \<and> ser_event r = e)"

lemma poll_collect:
  assumes "m_fold (event_record_entries s) (poll_event_record l cl a) [] s = (Inr found, s')"
  shows "s' = s"
    and "set found = {e. recorded (disk s) e \<and> ev_sequence e > a}"
    and "\<And>q r. map_of (event_records (disk s)) q = Some r \<Longrightarrow> ev_sequence (ser_event r) = q \<and> q \<le> l"
proof -
  show "s' = s"
    using assms by (rule read_onlyD [OF read_only_fold [OF poll_event_record_read_only]])
  let ?P = "\<lambda>ys acc t. t = s \<and> (\<forall>e \<in> set acc. recorded (disk s) e \<and> ev_sequence e > a)
    \<and> (\<forall>q. event_record_name q \<in> set ys \<longrightarrow> (\<exists>r. map_of (event_records (disk s)) q = Some r
          \<and> ev_sequence (ser_event r) = q \<and> q \<le> l \<and> (q > a \<longrightarrow> ser_event r \<in> set acc)))"
  have P: "?P (event_record_entries s) found s'"
    using assms
  proof (rule m_fold_Inr_induct)
    fix ys x acc t acc' t'
    assume P: "?P ys acc t" and x: "x \<in> set (event_record_entries s)"
      and f: "poll_event_record l cl a x acc t = (Inr acc', t')"
    then have t: "t = s" "t' = s" using read_onlyD [OF poll_event_record_read_only] by blast+
    show "?P (ys @ [x]) acc' t'"
    proof (cases "is_transaction_file x")
      case True
      then have "acc' = acc" using f by (simp add: poll_event_record_def m_return_apply)
      moreover have "x \<noteq> event_record_name q" for q using True by auto
      ultimately show ?thesis using P t by auto
    next
      case False
      then obtain q where q: "x = event_record_name q"
        using x by (auto simp: event_record_entries_def split: state_path.splits)
      from f [unfolded q t] obtain r where r: "map_of (event_records (disk s)) q = Some r"
        "ev_sequence (ser_event r) = q" "q \<le> l" "acc' = (if q > a then acc @ [ser_event r] else acc)"
        by (rule poll_event_record_Inr)
      have "recorded (disk s) (ser_event r)" using r by (auto simp: recorded_def)
      then show ?thesis using P r t q by auto
    qed
  qed simp
  have nm: "event_record_name q \<in> set (event_record_entries s)"
    if "map_of (event_records (disk s)) q = Some r" for q r
    using map_of_SomeD [OF that] by (force simp: event_record_entries_def)
  show "set found = {e. recorded (disk s) e \<and> ev_sequence e > a}"
  proof (intro equalityI subsetI CollectI)
    fix e assume "e \<in> set found"
    then show "recorded (disk s) e \<and> ev_sequence e > a" using P by blast
  next
    fix e assume "e \<in> {e. recorded (disk s) e \<and> ev_sequence e > a}"
    then obtain r where "map_of (event_records (disk s)) (ev_sequence e) = Some r" "ser_event r = e"
      "ev_sequence e > a" by (auto simp: recorded_def)
    then show "e \<in> set found" using P nm by fastforce
  qed
  show "\<And>q r. map_of (event_records (disk s)) q = Some r \<Longrightarrow> ev_sequence (ser_event r) = q \<and> q \<le> l"
    using P nm by fastforce
qed

lemma strict_of_sorted:
  "sorted (map ev_sequence xs) \<Longrightarrow> \<not> adjacent_duplicate xs \<Longrightarrow> sorted_wrt (\<lambda>a b. ev_sequence a < ev_sequence b) xs"
proof (induction xs rule: adjacent_duplicate.induct)
  case (1 a b rest)
  then have tail: "sorted_wrt (\<lambda>a b. ev_sequence a < ev_sequence b) (b # rest)" by simp
  have "ev_sequence a < ev_sequence b" using 1 by auto
  with tail show ?case by (auto intro: less_trans)
qed auto

lemma batch_events_spec:
  assumes "batch_events filt n recs acc nx = (full, evs, nx')" and "length acc < n"
  shows "(full \<longrightarrow> (\<exists>pre e post. recs = pre @ e # post \<and> evs = acc @ filter (\<lambda>e. event_matches_filter e filt) (pre @ [e])
            \<and> length evs = n \<and> nx' = ev_sequence e))
    \<and> (\<not> full \<longrightarrow> evs = acc @ filter (\<lambda>e. event_matches_filter e filt) recs \<and> length evs < n
            \<and> nx' = (if recs = [] then nx else ev_sequence (last recs)))"
  using assms
proof (induction recs arbitrary: acc nx)
  case Nil
  then show ?case by auto
next
  case (Cons e recs)
  show ?case
  proof (cases "event_matches_filter e filt")
    case False
    then have "batch_events filt n recs acc (ev_sequence e) = (full, evs, nx')"
      using Cons.prems by simp
    note ih = Cons.IH [OF this Cons.prems(2)]
    show ?thesis
    proof (cases full)
      case True
      with ih obtain pre e' post where "recs = pre @ e' # post"
        "evs = acc @ filter (\<lambda>e. event_matches_filter e filt) (pre @ [e'])"
        "length evs = n" "nx' = ev_sequence e'" by blast
      then show ?thesis
        using True False by (intro conjI impI exI [of _ "e # pre"] exI [of _ e'] exI [of _ post]) auto
    next
      case nf: False
      then show ?thesis using ih False by auto
    qed
  next
    case True
    show ?thesis
    proof (cases "length (acc @ [e]) = n")
      case True
      then show ?thesis
        using Cons.prems \<open>event_matches_filter e filt\<close>
        by (intro conjI impI exI [of _ "[]"] exI [of _ e] exI [of _ recs]) auto
    next
      case False
      then have "batch_events filt n recs (acc @ [e]) (ev_sequence e) = (full, evs, nx')"
        using Cons.prems True by (simp add: Let_def)
      moreover have "length (acc @ [e]) < n" using False Cons.prems(2) by simp
      ultimately have ih: "(full \<longrightarrow> (\<exists>pre e' post. recs = pre @ e' # post
            \<and> evs = (acc @ [e]) @ filter (\<lambda>e. event_matches_filter e filt) (pre @ [e'])
            \<and> length evs = n \<and> nx' = ev_sequence e'))
        \<and> (\<not> full \<longrightarrow> evs = (acc @ [e]) @ filter (\<lambda>e. event_matches_filter e filt) recs \<and> length evs < n
            \<and> nx' = (if recs = [] then ev_sequence e else ev_sequence (last recs)))"
        by (rule Cons.IH)
      show ?thesis
      proof (cases full)
        case True
        with ih obtain pre e' post where "recs = pre @ e' # post"
          "evs = (acc @ [e]) @ filter (\<lambda>e. event_matches_filter e filt) (pre @ [e'])"
          "length evs = n" "nx' = ev_sequence e'" by blast
        then show ?thesis
          using True \<open>event_matches_filter e filt\<close>
          by (intro conjI impI exI [of _ "e # pre"] exI [of _ e'] exI [of _ post]) auto
      next
        case False
        then show ?thesis using ih \<open>event_matches_filter e filt\<close> by auto
      qed
    qed
  qed
qed

lemma poll_fold_state:
  "m_fold ns (poll_event_record l cl a) acc s = (r, s') \<Longrightarrow> s' = s"
  by (rule read_onlyD [OF read_only_fold [OF poll_event_record_read_only]])

lemma poll_events_Inr:
  assumes "poll_events filt a limit s = (Inr b, s')"
  obtains cls found full evs nx where
    "repair_pending_event_records s = (Inr cls, s')"
    "m_fold (event_record_entries s') (poll_event_record (cursor_last (disk s')) cls a) [] s' = (Inr found, s')"
    "\<not> adjacent_duplicate (sort_key ev_sequence found)"
    "batch_events filt (unat limit) (sort_key ev_sequence found) [] a = (full, evs, nx)"
    "b = \<lparr>eb_events = evs, eb_next_sequence = (if full then nx else max nx (cursor_last (disk s')))\<rparr>"
proof -
  obtain cls s1 where r: "repair_pending_event_records s = (Inr cls, s1)"
    using assms by (auto simp: poll_events_def m_bind_def split: prod.splits sum.splits)
  obtain cu where cu: "load_event_cursor s1 = (Inr cu, s1)"
    using assms r read_onlyD [OF load_event_cursor_read_only, of s1]
    by (auto simp: poll_events_def m_bind_def split: prod.splits sum.splits)
  obtain found where f: "m_fold (event_record_entries s1)
      (poll_event_record (sec_last_sequence cu) cls a) [] s1 = (Inr found, s1)"
    using assms r cu
    by (auto simp: poll_events_def m_bind_def m_gets_def split: prod.splits sum.splits
        dest: poll_fold_state)
  have last: "sec_last_sequence cu = cursor_last (disk s1)"
    using load_event_cursor_Inr(2) [of s1 cu] cu by simp
  show ?thesis
    using assms r cu f
    by (intro that [of cls found "fst (batch_events filt (unat limit) (sort_key ev_sequence found) [] a)"
          "fst (snd (batch_events filt (unat limit) (sort_key ev_sequence found) [] a))"
          "snd (snd (batch_events filt (unat limit) (sort_key ev_sequence found) [] a))"])
      (auto simp: poll_events_def m_bind_def m_gets_def m_reject_def m_return_def m_throw_def Let_def last
        split: prod.splits sum.splits if_splits)
qed

lemma poll_events_spec:
  assumes poll: "poll_events filt a limit s = (Inr b, s')" and limit: "limit \<noteq> 0"
  shows "sorted_wrt (\<lambda>e f. ev_sequence e < ev_sequence f) (eb_events b)"
    and "length (eb_events b) \<le> unat limit"
    and "e \<in> set (eb_events b) \<longleftrightarrow> recorded (disk s') e \<and> event_matches_filter e filt
           \<and> a < ev_sequence e \<and> ev_sequence e \<le> eb_next_sequence b"
    and "a \<le> eb_next_sequence b"
    and "eb_next_sequence b \<le> max a (cursor_last (disk s'))"
    and "claimed (disk s) e \<Longrightarrow> recorded (disk s') e"
    and "records_grow (disk s) (disk s')" and "same_env s s'"
proof -
  from poll obtain cls found full evs nx where
    rep: "repair_pending_event_records s = (Inr cls, s')"
    and fold: "m_fold (event_record_entries s') (poll_event_record (cursor_last (disk s')) cls a) [] s' = (Inr found, s')"
    and nodup: "\<not> adjacent_duplicate (sort_key ev_sequence found)"
    and batch: "batch_events filt (unat limit) (sort_key ev_sequence found) [] a = (full, evs, nx)"
    and b: "b = \<lparr>eb_events = evs, eb_next_sequence = (if full then nx else max nx (cursor_last (disk s')))\<rparr>"
    by (rule poll_events_Inr)
  let ?recs = "sort_key ev_sequence found"
  have strict: "sorted_wrt (\<lambda>e f. ev_sequence e < ev_sequence f) ?recs"
    using nodup by (intro strict_of_sorted) auto
  note coll = poll_collect [OF fold]
  have recs: "e \<in> set ?recs \<longleftrightarrow> recorded (disk s') e \<and> a < ev_sequence e" for e
    using coll(2) by simp
  have below: "ev_sequence e \<le> cursor_last (disk s')" if "e \<in> set ?recs" for e
    using coll(3) recs that by (auto simp: recorded_def)
  have pos: "length [] < unat limit" using limit by (simp add: unat_gt_0)
  note spec = batch_events_spec [OF batch pos]
  note g = repair_pending_Inr [OF rep]
  show "records_grow (disk s) (disk s')" "same_env s s'" by (fact g)+
  show "claimed (disk s) e \<Longrightarrow> recorded (disk s') e"
    using g(3) by (auto simp: claimed_def recorded_def event_record_def)
  have all: "sorted_wrt (\<lambda>e f. ev_sequence e < ev_sequence f) (eb_events b)
      \<and> length (eb_events b) \<le> unat limit
      \<and> (e \<in> set (eb_events b)) = (recorded (disk s') e \<and> event_matches_filter e filt
           \<and> a < ev_sequence e \<and> ev_sequence e \<le> eb_next_sequence b)
      \<and> a \<le> eb_next_sequence b \<and> eb_next_sequence b \<le> max a (cursor_last (disk s'))"
  proof (cases full)
    case True
    then obtain pre x post where split: "?recs = pre @ x # post"
      and evs: "evs = filter (\<lambda>e. event_matches_filter e filt) (pre @ [x])"
      and n: "length evs = unat limit" "nx = ev_sequence x"
      using spec by auto
    have sw: "sorted_wrt (\<lambda>e f. ev_sequence e < ev_sequence f) (pre @ [x])"
      using strict split by (auto simp: sorted_wrt_append)
    have le: "e \<in> set (pre @ [x]) \<longleftrightarrow> e \<in> set ?recs \<and> ev_sequence e \<le> nx" for e
      using strict split n by (auto simp: sorted_wrt_append not_le [symmetric])
    have x: "x \<in> set ?recs" using split by simp
    show ?thesis
    proof -
      have s1: "sorted_wrt (\<lambda>e f. ev_sequence e < ev_sequence f) evs"
        unfolding evs using sw by (rule sorted_wrt_filter)
      have s2: "e \<in> set evs \<longleftrightarrow> e \<in> set (pre @ [x]) \<and> event_matches_filter e filt"
        unfolding evs by auto
      have s3: "a < nx" "nx \<le> cursor_last (disk s')"
        using recs [of x] below [OF x] x n(2) by auto
      show ?thesis
        unfolding b using True s1 s2 s3 n(1) le [of e] recs [of e] by (auto simp: max_def)
    qed
  next
    case False
    then have evs: "evs = filter (\<lambda>e. event_matches_filter e filt) ?recs" "length evs < unat limit"
      and nx: "nx = (if ?recs = [] then a else ev_sequence (last ?recs))"
      using spec by auto
    have lst: "ev_sequence (last ?recs) \<le> cursor_last (disk s') \<and> a < ev_sequence (last ?recs)"
      if "?recs \<noteq> []"
      using below recs that last_in_set by blast
    show ?thesis
    proof -
      have s1: "sorted_wrt (\<lambda>e f. ev_sequence e < ev_sequence f) evs"
        unfolding evs(1) using strict by (rule sorted_wrt_filter)
      have s2: "e \<in> set evs \<longleftrightarrow> e \<in> set ?recs \<and> event_matches_filter e filt"
        unfolding evs(1) by auto
      have s3: "a \<le> nx" "nx \<le> max a (cursor_last (disk s'))"
        using nx lst by (auto simp: max_def split: if_splits)
      show ?thesis
        unfolding b using False s1 s2 s3 evs(2) below [of e] recs [of e]
        by (auto simp: max_def split: if_splits)
    qed
  qed
  from all show "sorted_wrt (\<lambda>e f. ev_sequence e < ev_sequence f) (eb_events b)"
    and "length (eb_events b) \<le> unat limit"
    and "e \<in> set (eb_events b) \<longleftrightarrow> recorded (disk s') e \<and> event_matches_filter e filt
           \<and> a < ev_sequence e \<and> ev_sequence e \<le> eb_next_sequence b"
    and "a \<le> eb_next_sequence b"
    and "eb_next_sequence b \<le> max a (cursor_last (disk s'))"
    by blast+
qed


lemma repair_event_claim_evolves:
  assumes "\<And>r s'. event_claims (disk s') = event_claims (disk s) \<Longrightarrow> Q r s'"
  shows "evolves (journal_step x) (repair_event_claim l name acc) Q s"
proof -
  have "evolves (journal_step x) (repair_event_claim l name acc)
     (\<lambda>r s'. event_claims (disk s') = event_claims (disk s)) s"
    unfolding repair_event_claim_def
    by (auto intro!: evolves_rules evolves_ensure_event_record split: sum.split option.split
        simp: claimedI)
  then show ?thesis using assms by (rule evolves_mono)
qed

lemma poll_events_evolves: "evolves (journal_call x) (poll_events filt a limit) (\<lambda>_ _. True) s"
proof (rule evolves_journal_call)
  let ?Q = "\<lambda>s'. event_claims (disk s') = event_claims (disk s)"
  have rep: "evolves (journal_step x) repair_pending_event_records (\<lambda>_. ?Q) s"
    unfolding repair_pending_event_records_def
    by (intro evolves_rules evolves_read_only [OF load_event_cursor_read_only])
      (auto split: sum.split intro!: evolves_rules evolves_fold [where I = ?Q] repair_event_claim_evolves)
  have "evolves (journal_step x) (poll_events filt a limit) (\<lambda>_. ?Q) s"
    unfolding poll_events_def Let_def
    by (rule evolves_bind, rule evolves_mono [OF rep])
      (auto split: sum.split prod.split intro!: evolves_read_only read_only_intros)
  then show "evolves (journal_step x) (poll_events filt a limit)
      (\<lambda>r s'. claims_after (cursor_last (disk s)) (disk s) (disk s') \<and> True) s"
    by (rule evolves_mono) simp
qed


text \<open>A cursor returned by a poll can be trusted later: no event that becomes visible afterwards has a
  sequence the cursor has already passed.\<close>

lemma poll_skips_nothing:
  assumes poll: "poll_events filt a limit s = (Inr b, s')" "limit \<noteq> 0"
    and inv: "journal_inv x (disk s')" and a: "a \<le> cursor_last (disk s')"
    and later: "journal_call x (disk s') d"
    and e: "recorded d e" "event_matches_filter e filt" "a < ev_sequence e" "ev_sequence e \<le> eb_next_sequence b"
  shows "e \<in> set (eb_events b)"
proof -
  note spec = poll_events_spec [OF poll]
  have "journal_inv x d" using later inv by (rule journal_call_inv)
  then obtain h c where c: "map_of (event_claims d) h = Some c" "sev_event c = e"
    using e(1) unfolding journal_inv_def records_claimed_def recorded_def event_record_def
    by (metis StoredEventRecord.select_convs(2))
  have "eb_next_sequence b \<le> cursor_last (disk s')"
    using spec(5) a by (simp add: max_def)
  then have "\<not> cursor_last (disk s') < ev_sequence (sev_event c)"
    using e(4) c(2) by auto
  then have "map_of (event_claims (disk s')) h = Some c"
    using later c(1) by (auto simp: journal_call_def claims_list_after_def)
  then have "claimed (disk s) e"
    using spec(7) c(2) by (auto simp: records_grow_def claimed_def)
  then have "recorded (disk s') e" by (rule spec(6))
  then show ?thesis using spec(3) [of e] e by blast
qed

text \<open>What other tasks may do to the journal while a long poll waits.\<close>

definition journal_wakeup :: "(DurableStateStore \<Rightarrow> DurableStateStore) \<Rightarrow> bool" where
  "journal_wakeup w \<longleftrightarrow> (\<forall>t. journal_inv (ext t) (disk t) \<longrightarrow>
     journal_call (ext t) (disk t) (disk (w t)) \<and> ext (w t) = ext t)"

lemma events_loop_spec:
  assumes "events_loop ws req a s = (Inr b, s')" and "eq_limit req \<noteq> 0"
    and "\<forall>w \<in> set ws. journal_wakeup w"
    and "journal_inv (ext s) (disk s)" and "a \<le> cursor_last (disk s)"
  shows "journal_call (ext s) (disk s) (disk s')
    \<and> sorted_wrt (\<lambda>e f. ev_sequence e < ev_sequence f) (eb_events b)
    \<and> length (eb_events b) \<le> unat (eq_limit req) \<and> a \<le> eb_next_sequence b
    \<and> (\<forall>e. e \<in> set (eb_events b) \<longleftrightarrow> recorded (disk s') e \<and> event_matches_filter e (eq_container req)
         \<and> a < ev_sequence e \<and> ev_sequence e \<le> eb_next_sequence b)"
  using assms
proof (induction ws arbitrary: a s)
  case Nil
  then have "poll_events (eq_container req) a (eq_limit req) s = (Inr b, s')"
    by (auto simp: events_loop.simps m_bind_def m_return_def split: prod.splits sum.splits if_splits)
  from poll_events_spec [OF this Nil.prems(2)] evolvesD(1) [OF poll_events_evolves this]
  show ?case using journal_call_steps by blast
next
  case (Cons w ws)
  obtain b1 s1 where poll: "poll_events (eq_container req) a (eq_limit req) s = (Inr b1, s1)"
    using Cons.prems(1) by (auto simp: events_loop.simps [of "w # ws"] m_bind_def split: prod.splits sum.splits)
  note spec = poll_events_spec [OF poll Cons.prems(2)]
  have call1: "journal_call (ext s) (disk s) (disk s1)"
    using evolvesD(1) [OF poll_events_evolves poll] journal_call_steps by blast
  have env1: "ext s1 = ext s" using spec(8) by (simp add: same_env_def)
  show ?case
  proof (cases "eb_events b1 \<noteq> [] \<or> eq_wait_timeout_ms req = None")
    case True
    then have "b = b1" "s' = s1"
      using Cons.prems(1) poll by (auto simp: events_loop.simps [of "w # ws"] m_bind_def m_return_def)
    then show ?thesis using spec call1 by blast
  next
    case False
    then have empty: "eb_events b1 = []" and wait: "eq_wait_timeout_ms req \<noteq> None" by auto
    let ?s2 = "w s1"
    have run: "events_loop ws req (eb_next_sequence b1) ?s2 = (Inr b, s')"
      using Cons.prems(1) poll empty wait
      by (auto simp: events_loop.simps [of "w # ws"] m_bind_def m_modify_def)
    have inv1: "journal_inv (ext s1) (disk s1)"
      using call1 Cons.prems(4) env1 journal_call_inv by simp
    then have w: "journal_call (ext s1) (disk s1) (disk ?s2)" "ext ?s2 = ext s1"
      using Cons.prems(3) by (auto simp: journal_wakeup_def)
    have mono: "cursor_last (disk s) \<le> cursor_last (disk s1)" "cursor_last (disk s1) \<le> cursor_last (disk ?s2)"
      using call1 w(1) journal_steps_le by (auto simp: journal_call_def journal_le_def)
    have next2: "eb_next_sequence b1 \<le> cursor_last (disk ?s2)"
      using spec(5) Cons.prems(5) mono by (auto simp: max_def split: if_splits)
    have ih: "journal_call (ext ?s2) (disk ?s2) (disk s')
      \<and> sorted_wrt (\<lambda>e f. ev_sequence e < ev_sequence f) (eb_events b)
      \<and> length (eb_events b) \<le> unat (eq_limit req) \<and> eb_next_sequence b1 \<le> eb_next_sequence b
      \<and> (\<forall>e. e \<in> set (eb_events b) \<longleftrightarrow> recorded (disk s') e \<and> event_matches_filter e (eq_container req)
           \<and> eb_next_sequence b1 < ev_sequence e \<and> ev_sequence e \<le> eb_next_sequence b)"
      using Cons.prems(2,3) inv1 w journal_call_inv next2 by (intro Cons.IH [OF run]) auto
    have later: "journal_call (ext s1) (disk s1) (disk s')"
      using w ih journal_call_trans by metis
    have none: "\<not> (recorded (disk s') e \<and> event_matches_filter e (eq_container req)
        \<and> a < ev_sequence e \<and> ev_sequence e \<le> eb_next_sequence b1)" for e
      using poll_skips_nothing [OF poll Cons.prems(2) inv1 order.trans [OF Cons.prems(5) mono(1)] later, of e] empty
      by auto
    have "a \<le> eb_next_sequence b" using ih spec(4) by (meson order.trans)
    then show ?thesis
      using ih none spec(4) later call1 env1 journal_call_trans
      by (metis (no_types, lifting) le_less_trans not_le)
  qed
qed

end
