(* ===== verification/Requests.thy ===== *)
theory Requests
  imports Durable_Store
begin

text \<open>
  Fail-closed request validation of the SDK: \<open>crates/sdk/src/validation.rs\<close> and the resolution of a
  process I/O contract against an OCI process in \<open>crates/sdk/src/process_io.rs\<close>.  The semantic checks
  on OCI documents and the base64 decoder are parameters.  Strings are byte strings.
\<close>

definition op_validate_sdk_request :: string where
  "op_validate_sdk_request = ''validate-sdk-request''"

definition invalid_request :: error where
  "invalid_request = state_error InvalidArgument op_validate_sdk_request"

definition unsupported :: error where
  "unsupported = state_error Unsupported op_validate_sdk_request"

section \<open>Process I/O\<close>

definition validate_terminal_size :: "u16 \<Rightarrow> u16 \<Rightarrow> error + unit" where
  "validate_terminal_size width height = r_reject (width = 0 \<or> height = 0) invalid_request"

text \<open>\<open>u16::try_from\<close>.\<close>

definition u16_try_from :: "u64 \<Rightarrow> u16 option" where
  "u16_try_from n = (if n \<le> 65535 then Some (ucast n) else None)"

definition terminal_size_from_oci :: "u64 \<Rightarrow> u64 \<Rightarrow> error + TerminalSize" where
  "terminal_size_from_oci width height =
     r_bind (ok_or unsupported (u16_try_from width)) (\<lambda>width.
     r_bind (ok_or unsupported (u16_try_from height)) (\<lambda>height.
       Inr \<lparr>ts_width = width, ts_height = height\<rparr>))"

definition resolve :: "ProcessIo \<Rightarrow> bool \<Rightarrow> TerminalSize option \<Rightarrow> error + ProcessIo" where
  "resolve io process_uses_terminal console_size =
     (let terminal_modes = [io_stdin io = IoTerminal, io_stdout io = IoTerminal, io_stderr io = IoTerminal] in
      r_bind (r_reject (process_uses_terminal \<and> terminal_modes \<noteq> [True, True, True]) invalid_request) (\<lambda>_.
      r_bind (r_reject (\<not> process_uses_terminal \<and> (\<exists>terminal \<in> set terminal_modes. terminal))
                invalid_request) (\<lambda>_.
        if process_uses_terminal then
          r_bind (case console_size of
                    None \<Rightarrow> Inr io
                  | Some configured \<Rightarrow>
                      if (case io_terminal_size io of
                            None \<Rightarrow> False
                          | Some transport \<Rightarrow> transport \<noteq> configured)
                      then Inl invalid_request
                      else Inr (io\<lparr>io_terminal_size := Some configured\<rparr>)) (\<lambda>resolved.
          r_bind (ok_or invalid_request (io_terminal_size resolved)) (\<lambda>size.
          r_bind (validate_terminal_size (ts_width size) (ts_height size)) (\<lambda>_.
            Inr resolved)))
        else if io_terminal_size io \<noteq> None then Inl invalid_request
        else Inr io)))"

definition resolve_for_process :: "externals \<Rightarrow> ProcessIo \<Rightarrow> document \<Rightarrow> error + ProcessIo" where
  "resolve_for_process x io process =
     (let terminal = (case x_process_terminal x process of None \<Rightarrow> False | Some t \<Rightarrow> t) in
      r_bind (if terminal then
                (case x_process_console_size x process of
                   None \<Rightarrow> Inr None
                 | Some (width, height) \<Rightarrow>
                     r_bind (terminal_size_from_oci width height) (\<lambda>size. Inr (Some size)))
              else Inr None) (\<lambda>console_size.
        resolve io terminal console_size))"

definition validate_without_process :: "ProcessIo \<Rightarrow> error + unit" where
  "validate_without_process io = r_bind (resolve io False None) (\<lambda>_. Inr ())"

section \<open>Requests\<close>

definition create_validate :: "externals \<Rightarrow> CreateRequest \<Rightarrow> error + unit" where
  "create_validate x request =
     r_bind (x_validate_for_create x (cq_bundle request)) (\<lambda>_.
     r_bind (x_attachments_validate x (cq_attachments request) (cq_bundle request)) (\<lambda>_.
     r_bind (x_attachments_validate_isolation x (cq_attachments request) (cq_isolation request)) (\<lambda>_.
       case bn_spec_process (cq_bundle request) of
         Some process \<Rightarrow>
           r_bind (resolve_for_process x (ca_process_io (cq_attachments request)) process) (\<lambda>_. Inr ())
       | None \<Rightarrow> validate_without_process (ca_process_io (cq_attachments request)))))"

definition exec_validate :: "externals \<Rightarrow> ExecRequest \<Rightarrow> error + unit" where
  "exec_validate x request =
     r_bind (r_reject (is_init (xq_process_id request)) invalid_request) (\<lambda>_.
     r_bind (x_validate_process x (xq_process request)) (\<lambda>_.
     r_bind (resolve_for_process x (xq_io request) (xq_process request)) (\<lambda>_. Inr ())))"

definition update_validate :: "externals \<Rightarrow> UpdateRequest \<Rightarrow> error + unit" where
  "update_validate x request = x_validate_linux_resources x (uq_resources request)"

definition MAX_STDIN_WRITE_BYTES :: nat where "MAX_STDIN_WRITE_BYTES = 16 * 1024 * 1024"
definition MAX_FILE_TRANSFER_BYTES :: nat where "MAX_FILE_TRANSFER_BYTES = 32 * 1024 * 1024"
definition MAX_FILESYSTEM_DEPTH :: u32 where "MAX_FILESYSTEM_DEPTH = 64"
definition MAX_FILESYSTEM_PATH_BYTES :: nat where "MAX_FILESYSTEM_PATH_BYTES = 4096"
definition MAX_FILESYSTEM_USER_BYTES :: nat where "MAX_FILESYSTEM_USER_BYTES = 256"

definition write_stdin_validate :: "WriteStdinRequest \<Rightarrow> error + unit" where
  "write_stdin_validate request =
     r_reject (length (wq_data request) > MAX_STDIN_WRITE_BYTES) invalid_request"

text \<open>Evaluation compares the length as a binary integer.\<close>

lemma write_stdin_validate_code [code]:
  "write_stdin_validate request = r_reject (int (length (wq_data request)) > 16777216) invalid_request"
  by (simp add: write_stdin_validate_def MAX_STDIN_WRITE_BYTES_def)

definition resize_validate :: "ResizeRequest \<Rightarrow> error + unit" where
  "resize_validate request =
     validate_terminal_size (ts_width (rz_size request)) (ts_height (rz_size request))"

definition starts_with :: "string \<Rightarrow> string \<Rightarrow> bool" where
  "starts_with pre value \<longleftrightarrow> take (length pre) value = pre"

definition validate_container_path :: "string \<Rightarrow> error + unit" where
  "validate_container_path path =
     r_bind (r_reject (path = []) invalid_request) (\<lambda>_.
     r_bind (r_reject (length path > MAX_FILESYSTEM_PATH_BYTES) invalid_request) (\<lambda>_.
     r_bind (r_reject (CHR 0x00 \<in> set path) invalid_request) (\<lambda>_.
       r_reject (starts_with ''~'' path \<and> path \<noteq> ''~'' \<and> \<not> starts_with ''~/'' path) invalid_request)))"

definition validate_file_user :: "string option \<Rightarrow> error + unit" where
  "validate_file_user user =
     (case user of
        None \<Rightarrow> Inr ()
      | Some user \<Rightarrow>
          r_reject (user = [] \<or> length user > MAX_FILESYSTEM_USER_BYTES \<or> CHR 0x00 \<in> set user)
            invalid_request)"

definition div_ceil :: "nat \<Rightarrow> nat \<Rightarrow> nat" where
  "div_ceil a b = (a + b - 1) div b"

definition file_validate :: "externals \<Rightarrow> FileRequest \<Rightarrow> error + unit" where
  "file_validate x request =
     r_bind (validate_container_path (fr_path request)) (\<lambda>_.
     r_bind (validate_file_user (fr_user request)) (\<lambda>_.
       case fr_op request of
         Upload \<Rightarrow>
           r_bind (r_reject (fr_context request = None) invalid_request) (\<lambda>_.
           r_bind (ok_or invalid_request (fr_data request)) (\<lambda>encoded.
           r_bind (r_reject (length encoded > div_ceil MAX_FILE_TRANSFER_BYTES 3 * 4) invalid_request) (\<lambda>_.
           r_bind (ok_or invalid_request (x_base64_decode x encoded)) (\<lambda>decoded.
             r_reject (length decoded > MAX_FILE_TRANSFER_BYTES) invalid_request))))
       | Download \<Rightarrow>
           r_bind (r_reject (fr_data request \<noteq> None) invalid_request) (\<lambda>_.
             r_reject (fr_context request \<noteq> None) invalid_request)))"

definition filesystem_validate :: "FilesystemRequest \<Rightarrow> error + unit" where
  "filesystem_validate request =
     r_bind (validate_container_path (fq_path request)) (\<lambda>_.
     r_bind (validate_file_user (fq_user request)) (\<lambda>_.
     r_bind (if fq_op request = Move then
               r_bind (ok_or invalid_request (fq_destination request)) validate_container_path
             else r_reject (fq_destination request \<noteq> None) invalid_request) (\<lambda>_.
     r_bind (if fq_op request = ListDir then
               r_reject (fq_depth request > MAX_FILESYSTEM_DEPTH) invalid_request
             else r_reject (fq_depth request \<noteq> 0) invalid_request) (\<lambda>_.
     r_bind (r_reject (is_mutating (fq_op request) \<and> fq_context request = None) invalid_request) (\<lambda>_.
       r_reject (\<not> is_mutating (fq_op request) \<and> fq_context request \<noteq> None) invalid_request)))))"

section \<open>Resolved process I/O\<close>

lemma resolve_Inr:
  assumes "resolve io t c = Inr r"
  shows "r = io\<lparr>io_terminal_size := io_terminal_size r\<rparr>"
    and "\<forall>m \<in> {io_stdin io, io_stdout io, io_stderr io}. (m = IoTerminal) = t"
    and "(io_terminal_size r \<noteq> None) = t"
    and "\<And>z. io_terminal_size r = Some z \<Longrightarrow> 0 < ts_width z \<and> 0 < ts_height z"
    and "\<And>z. io_terminal_size io = Some z \<Longrightarrow> io_terminal_size r = Some z"
    and "\<And>z. t \<Longrightarrow> c = Some z \<Longrightarrow> io_terminal_size r = Some z"
  using assms
  by (auto simp: resolve_def Let_def validate_terminal_size_def r_bind_Inr_iff word_neq_0_conv
      split: if_splits option.splits)

lemma resolve_again:
  assumes "resolve io t c = Inr r"
  shows "resolve r t c = Inr r"
  using assms
  by (auto simp: resolve_def Let_def validate_terminal_size_def r_bind_Inr_iff
      split: if_splits option.splits)

lemma ucast_u16_u64: "n \<le> 65535 \<Longrightarrow> ucast (ucast n :: u16) = (n :: u64)"
proof (rule word_uint_eqI)
  assume "n \<le> 65535"
  then have "uint n < 2 ^ 16" by (simp add: word_le_def)
  moreover have "0 \<le> uint n" by simp
  ultimately show "uint (ucast (ucast n :: u16) :: u64) = uint n"
    by (simp add: unsigned_ucast_eq unsigned_take_bit_eq take_bit_int_eq_self)
qed

lemma terminal_size_from_oci_Inr:
  "terminal_size_from_oci w h = Inr z \<Longrightarrow> ucast (ts_width z) = w \<and> ucast (ts_height z) = h"
  by (auto simp: terminal_size_from_oci_def u16_try_from_def r_bind_Inr_iff ucast_u16_u64 split: if_splits)

section \<open>A concrete instance of the parameters\<close>

text \<open>Every document is accepted, a configuration is its own digest, and digests are 64 lower-case
  hexadecimal characters.\<close>

definition example_hex :: "bool list \<Rightarrow> char" where
  "example_hex bs = ''0123456789abcdef'' ! (foldr (\<lambda>b n. of_bool b + 2 * n) bs 0)"

definition example_hash :: "string \<Rightarrow> string" where
  "example_hash s = take 64 (concat (map (\<lambda>c. [example_hex [digit0 c, digit1 c, digit2 c, digit3 c],
      example_hex [digit4 c, digit5 c, digit6 c, digit7 c]]) (rev s)) @ replicate 64 CHR ''0'')"

definition example_ext :: externals where
  "example_ext =
     \<lparr>x_sha256 = example_hash, x_to_vec = (\<lambda>_. Some []), x_canonical_json_bytes = (\<lambda>_. Some []),
      x_file_len = (\<lambda>_. 1), x_validate_state = (\<lambda>_. Inr ()),
      x_bundle_from_json = (\<lambda>dir js. Inr \<lparr>bn_directory = dir, bn_config_json = js,
         bn_config_digest = js, bn_spec_version = ''1.3.0'', bn_spec_annotations = None,
         bn_spec_process = None\<rparr>),
      x_attachments_validate = (\<lambda>_ _. Inr ()), x_attachments_validate_isolation = (\<lambda>_ _. Inr ()),
      x_network_enforcement = (\<lambda>_ _. Inr None), x_attachments_digest = (\<lambda>a. Inr (ca_document a)),
      x_validate_for_create = (\<lambda>_. Inr ()), x_validate_linux_resources = (\<lambda>_. Inr ()),
      x_validate_process = (\<lambda>_. Inr ()), x_process_terminal = (\<lambda>p. Some (p = ''sh'')),
      x_process_console_size = (\<lambda>_. Some (120, 40)), x_base64_decode = Some,
      x_checkpoint_validate = (\<lambda>_. Inr ()), x_restore_validate = (\<lambda>_. Inr ()),
      x_attest_validate = (\<lambda>_. Inr ()), x_restore_reference = (\<lambda>_. Inr []),
      x_checkpoint_response_ok = (\<lambda>_ _. True), x_restore_response_ok = (\<lambda>_ _. True),
      x_attest_response_ok = (\<lambda>_ _. True)\<rparr>"

definition example_store :: DurableStateStore where
  "example_store = \<lparr>disk = empty_disk, temps = [], faults = (\<lambda>_. None), fault_log = [],
     system_time = Some 1000, ext = example_ext\<rparr>"

section \<open>Properties\<close>

text \<open>C30 \<open>(process I/O)\<close>: a resolved process I/O contract keeps the requested modes and changes nothing
  but the terminal size; all three streams are terminals exactly for a terminal process, a size is
  present exactly for a terminal process and is positive; a configured console size and a requested
  size are both honoured without truncation; and resolving the result again gives it back.\<close>

theorem resolved_process_io:
  assumes "resolve_for_process x io process = Inr r"
  shows "r = io\<lparr>io_terminal_size := io_terminal_size r\<rparr>
    \<and> (\<forall>m \<in> {io_stdin r, io_stdout r, io_stderr r}.
           (m = IoTerminal) = (x_process_terminal x process = Some True))
    \<and> (io_terminal_size r \<noteq> None) = (x_process_terminal x process = Some True)
    \<and> (\<forall>z. io_terminal_size r = Some z \<longrightarrow> 0 < ts_width z \<and> 0 < ts_height z
           \<and> (\<forall>w h. x_process_console_size x process = Some (w, h) \<longrightarrow>
                 ucast (ts_width z) = w \<and> ucast (ts_height z) = h))
    \<and> (\<forall>z. io_terminal_size io = Some z \<longrightarrow> io_terminal_size r = Some z)
    \<and> resolve_for_process x r process = Inr r"
proof -
  define t where "t = (x_process_terminal x process = Some True)"
  have t: "(case x_process_terminal x process of None \<Rightarrow> False | Some b \<Rightarrow> b) = t"
    by (simp add: t_def split: option.split)
  obtain c where c: "(if t then (case x_process_console_size x process of None \<Rightarrow> Inr None
        | Some (w, h) \<Rightarrow> r_bind (terminal_size_from_oci w h) (\<lambda>size. Inr (Some size)))
      else Inr None) = Inr c" and r: "resolve io t c = Inr r"
    using assms by (auto simp: resolve_for_process_def Let_def t r_bind_Inr_iff)
  note res = resolve_Inr [OF r]
  have io: "io_stdin r = io_stdin io" "io_stdout r = io_stdout io" "io_stderr r = io_stderr io"
    by (subst res(1), simp)+
  have "resolve_for_process x r process = Inr r"
    using c resolve_again [OF r] by (simp add: resolve_for_process_def Let_def t)
  moreover have "ucast (ts_width z) = w \<and> ucast (ts_height z) = h"
    if "io_terminal_size r = Some z" "x_process_console_size x process = Some (w, h)" for z w h
  proof -
    have "t" using res(3) that(1) by simp
    with c that(2) obtain z' where z': "terminal_size_from_oci w h = Inr z'" "c = Some z'"
      by (auto simp: r_bind_Inr_iff)
    with res(6) [OF \<open>t\<close> z'(2)] that(1) terminal_size_from_oci_Inr show ?thesis by auto
  qed
  ultimately show ?thesis
    using res(1-5) io unfolding t_def [symmetric] by auto
qed

definition example_io :: ProcessIo where
  "example_io = \<lparr>io_stdin = IoTerminal, io_stdout = IoTerminal, io_stderr = IoTerminal, io_terminal_size = None\<rparr>"

theorem resolved_process_io_witness:
  "\<exists>r. resolve_for_process example_ext example_io ''sh'' = Inr r
     \<and> io_terminal_size r = Some \<lparr>ts_width = 120, ts_height = 40\<rparr>
     \<and> resolve_for_process example_ext r ''sh'' = Inr r"
proof -
  have r: "resolve_for_process example_ext example_io ''sh'' =
      Inr (example_io\<lparr>io_terminal_size := Some \<lparr>ts_width = 120, ts_height = 40\<rparr>\<rparr>)"
    by (simp add: resolve_for_process_def resolve_def example_ext_def example_io_def Let_def
        terminal_size_from_oci_def u16_try_from_def validate_terminal_size_def r_reject_def)
  with resolved_process_io [OF r] show ?thesis by simp
qed

end
