(* ===== verification/Store_Core.thy ===== *)
theory Store_Core
  imports Event_Journal Requests
begin

text \<open>
  The shared machinery of the durable store: request digests, deadlines and retry validation
  (\<open>state/operation.rs\<close>), the loading and validation of operations, container records and bundles,
  generation allocation and operation claims (\<open>state/mod.rs\<close>), and the migration of claims written
  by older releases (\<open>state/process_io.rs\<close>).

  Every public method of the store holds its gate for its whole run, so a call is one atomic
  computation and an execution is a sequence of calls.
\<close>

section \<open>Operation names\<close>

definition op_load_operation :: string where "op_load_operation = ''load-operation''"
definition op_load_container_state :: string where
  "op_load_container_state = ''load-container-state''"
definition op_reconcile_container_state :: string where
  "op_reconcile_container_state = ''reconcile-container-state''"
definition op_reconcile_operation :: string where
  "op_reconcile_operation = ''reconcile-operation''"
definition op_load_durable_bundle :: string where
  "op_load_durable_bundle = ''load-durable-bundle''"
definition op_load_durable_attachments :: string where
  "op_load_durable_attachments = ''load-durable-attachments''"
definition op_state :: string where "op_state = ''state''"
definition op_allocate_generation :: string where
  "op_allocate_generation = ''allocate-generation''"
definition op_migrate_claim :: string where
  "op_migrate_claim = ''migrate-process-io-claim''"
definition op_checkpoint :: string where "op_checkpoint = ''checkpoint''"
definition op_restore :: string where "op_restore = ''restore''"
definition op_attest :: string where "op_attest = ''attest''"

section \<open>Results of preparing an operation\<close>

datatype RecordOperationPreparation =
    PreparedRecord ContainerRecord | ResumeRecord ContainerRecord | ReplayedRecord ContainerRecord

datatype DeletePreparation =
    DeletePrepared ContainerRecord | DeleteResume ContainerRecord | DeleteReplayed

datatype ProcessOperationPreparation =
    PreparedProcess ProcessRecord | ResumeProcess ProcessRecord | ReplayedProcess ProcessRecord

datatype SignalProcessPreparation =
    SignalPrepared ProcessTarget | SignalResume ProcessTarget | SignalReplayed

datatype ProcessWaitPreparation = WaitReplayed ExitStatus | WaitPrepared ProcessTarget

datatype ProcessIoPreparation = IoPrepared ProcessTarget | IoResume ProcessTarget | IoReplayed

section \<open>Request digests\<close>

record RequestDigests =
  rd_legacy :: string
  rd_canonical :: string

definition for_schema :: "RequestDigests \<Rightarrow> string \<Rightarrow> string option" where
  "for_schema digests schema_version =
     (if schema_version = OPERATION_SCHEMA_VERSION_V1 then Some (rd_legacy digests)
      else if schema_version \<in> {OPERATION_SCHEMA_VERSION_V2, OPERATION_SCHEMA_VERSION_V3,
                OPERATION_SCHEMA_VERSION_V4, OPERATION_SCHEMA_VERSION_V5, OPERATION_SCHEMA_VERSION}
        then Some (rd_canonical digests)
      else None)"

definition SHA256_PREFIX :: string where "SHA256_PREFIX = ''sha256:''"

definition sha256_digest :: "externals \<Rightarrow> string \<Rightarrow> string" where
  "sha256_digest x bytes = SHA256_PREFIX @ x_sha256 x bytes"

definition request_digest :: "externals \<Rightarrow> fingerprint \<Rightarrow> string \<Rightarrow> error + RequestDigests" where
  "request_digest x value operation =
     r_bind (ok_or (state_error Internal operation) (x_to_vec x value)) (\<lambda>legacy.
     r_bind (ok_or (state_error Internal operation) (x_canonical_json_bytes x value)) (\<lambda>canonical.
       Inr \<lparr>rd_legacy = sha256_digest x legacy, rd_canonical = sha256_digest x canonical\<rparr>))"

text \<open>\<open>as_millis\<close> of the time since the epoch; \<open>None\<close> is a clock before it.\<close>

definition validate_deadline :: "OperationContext \<Rightarrow> string \<Rightarrow> unit store_m" where
  "validate_deadline context operation =
     (case oc_deadline_unix_ms context of
        None \<Rightarrow> m_return ()
      | Some deadline \<Rightarrow>
          m_bind (m_gets system_time) (\<lambda>now.
          m_bind (m_lift (ok_or (state_error Internal operation) now)) (\<lambda>nanos.
            m_reject (nanos div 1000000 \<ge> ucast deadline)
              (state_error DeadlineExceeded operation))))"

definition validate_retry ::
  "StoredOperation \<Rightarrow> StoredOperationKind \<Rightarrow> ContainerId \<Rightarrow> RequestDigests \<Rightarrow> string \<Rightarrow> error + unit" where
  "validate_retry stored kind container_id request_digests operation =
     r_bind (ok_or (state_error FailedPrecondition operation)
               (for_schema request_digests (so_schema_version stored))) (\<lambda>expected_digest.
       r_reject (so_kind stored \<noteq> kind \<or> so_container_id stored \<noteq> container_id
                 \<or> so_request_digest stored \<noteq> expected_digest)
         (state_error FailedPrecondition operation))"

section \<open>Stored operations\<close>

definition checkpoint_request_digest :: "externals \<Rightarrow> CheckpointRequest \<Rightarrow> error + RequestDigests" where
  "checkpoint_request_digest x request =
     request_digest x (CheckpointFingerprint (ck_target request) (ck_artifact_path request)
       (ck_quiesce request)) op_checkpoint"

definition restore_request_digest :: "externals \<Rightarrow> RestoreRequest \<Rightarrow> error + RequestDigests" where
  "restore_request_digest x request =
     r_bind (x_restore_reference x request) (\<lambda>reference.
       request_digest x (RestoreFingerprint (rq_id request) (rq_bundle request)
         (rq_artifact_path request) (rq_isolation request) (rq_attachments request) reference)
         op_restore)"

definition attestation_request_digest ::
  "externals \<Rightarrow> TeeAttestationRequest \<Rightarrow> error + RequestDigests" where
  "attestation_request_digest x request =
     request_digest x (AttestationFingerprint (aq_target request) (aq_report_data request)) op_attest"

definition digest_matches :: "StoredOperation \<Rightarrow> error + RequestDigests \<Rightarrow> bool" where
  "digest_matches operation r =
     (case r of Inl e \<Rightarrow> False | Inr digests \<Rightarrow> rd_canonical digests = so_request_digest operation)"

definition request_target_matches :: "StoredOperation \<Rightarrow> ContainerTarget \<Rightarrow> bool" where
  "request_target_matches operation target \<longleftrightarrow>
     ct_id target = so_container_id operation
     \<and> (case ct_generation target of None \<Rightarrow> True | Some g \<Rightarrow> g = so_generation operation)"

definition response_target_matches :: "StoredOperation \<Rightarrow> ContainerTarget \<Rightarrow> bool" where
  "response_target_matches operation target \<longleftrightarrow>
     ct_id target = so_container_id operation \<and> ct_generation target = Some (so_generation operation)"

definition invalid_shape :: error where
  "invalid_shape = state_error FailedPrecondition op_load_operation"

definition context_matches :: "StoredOperation \<Rightarrow> OperationContext option \<Rightarrow> bool" where
  "context_matches operation context =
     (case context of None \<Rightarrow> False | Some c \<Rightarrow> oc_operation_id c = so_operation_id operation)"

definition validate_file_shape :: "externals \<Rightarrow> StoredOperation \<Rightarrow> error + unit" where
  "validate_file_shape x operation =
     r_bind (r_reject (so_schema_version operation \<notin> {OPERATION_SCHEMA_VERSION_V3,
               OPERATION_SCHEMA_VERSION_V4, OPERATION_SCHEMA_VERSION_V5, OPERATION_SCHEMA_VERSION})
               invalid_shape) (\<lambda>_.
       case so_request operation of
         Some (FileReq request) \<Rightarrow>
           r_bind (r_reject (fr_op request \<noteq> Upload
                     \<or> \<not> request_target_matches operation (fr_target request)
                     \<or> \<not> context_matches operation (fr_context request)
                     \<or> \<not> is_ok (file_validate x request)) invalid_shape) (\<lambda>_.
             case so_outcome operation of
               Prepared \<Rightarrow> Inr ()
             | Failed e \<Rightarrow> Inr ()
             | SucceededFilesystem (FileResp response) \<Rightarrow>
                 r_reject (\<not> response_target_matches operation (fs_target response)) invalid_shape
             | _ \<Rightarrow> Inl invalid_shape)
       | _ \<Rightarrow> Inl invalid_shape)"

definition validate_filesystem_shape :: "externals \<Rightarrow> StoredOperation \<Rightarrow> error + unit" where
  "validate_filesystem_shape x operation =
     r_bind (r_reject (so_schema_version operation \<notin> {OPERATION_SCHEMA_VERSION_V3,
               OPERATION_SCHEMA_VERSION_V4, OPERATION_SCHEMA_VERSION_V5, OPERATION_SCHEMA_VERSION})
               invalid_shape) (\<lambda>_.
       case so_request operation of
         Some (FilesystemReq request) \<Rightarrow>
           r_bind (r_reject (\<not> is_mutating (fq_op request)
                     \<or> \<not> request_target_matches operation (fq_target request)
                     \<or> \<not> context_matches operation (fq_context request)
                     \<or> \<not> is_ok (filesystem_validate request)) invalid_shape) (\<lambda>_.
             case so_outcome operation of
               Prepared \<Rightarrow> Inr ()
             | Failed e \<Rightarrow> Inr ()
             | SucceededFilesystem (FilesystemResp response) \<Rightarrow>
                 r_reject (\<not> response_target_matches operation (fp_target response)) invalid_shape
             | _ \<Rightarrow> Inl invalid_shape)
       | _ \<Rightarrow> Inl invalid_shape)"

definition validate_checkpoint_shape :: "externals \<Rightarrow> StoredOperation \<Rightarrow> error + unit" where
  "validate_checkpoint_shape x operation =
     r_bind (r_reject (so_schema_version operation \<notin> {OPERATION_SCHEMA_VERSION_V4,
               OPERATION_SCHEMA_VERSION_V5, OPERATION_SCHEMA_VERSION}) invalid_shape) (\<lambda>_.
       case so_request operation of
         Some (CheckpointReq request) \<Rightarrow>
           r_bind (r_reject (\<not> request_target_matches operation (ck_target request)
                     \<or> oc_operation_id (ck_context request) \<noteq> so_operation_id operation
                     \<or> \<not> is_ok (x_checkpoint_validate x request)
                     \<or> \<not> digest_matches operation (checkpoint_request_digest x request))
                     invalid_shape) (\<lambda>_.
             case so_outcome operation of
               Prepared \<Rightarrow> Inr ()
             | Failed e \<Rightarrow> Inr ()
             | SucceededCheckpoint response \<Rightarrow>
                 r_reject (\<not> x_checkpoint_response_ok x response request) invalid_shape
             | _ \<Rightarrow> Inl invalid_shape)
       | _ \<Rightarrow> Inl invalid_shape)"

definition validate_restore_shape :: "externals \<Rightarrow> StoredOperation \<Rightarrow> error + unit" where
  "validate_restore_shape x operation =
     r_bind (r_reject (so_schema_version operation \<notin> {OPERATION_SCHEMA_VERSION_V5,
               OPERATION_SCHEMA_VERSION}) invalid_shape) (\<lambda>_.
       case so_request operation of
         Some (RestoreReq request) \<Rightarrow>
           r_bind (r_reject (rq_id request \<noteq> so_container_id operation
                     \<or> oc_operation_id (rq_context request) \<noteq> so_operation_id operation
                     \<or> \<not> is_ok (x_restore_validate x request)
                     \<or> \<not> digest_matches operation (restore_request_digest x request))
                     invalid_shape) (\<lambda>_.
             case so_outcome operation of
               Prepared \<Rightarrow> Inr ()
             | Failed e \<Rightarrow> Inr ()
             | SucceededRestore response \<Rightarrow>
                 r_reject (cr_generation (rr_restored response) \<noteq> so_generation operation
                           \<or> \<not> x_restore_response_ok x response request) invalid_shape
             | _ \<Rightarrow> Inl invalid_shape)
       | _ \<Rightarrow> Inl invalid_shape)"

definition validate_attest_shape :: "externals \<Rightarrow> StoredOperation \<Rightarrow> error + unit" where
  "validate_attest_shape x operation =
     r_bind (r_reject (so_schema_version operation \<noteq> OPERATION_SCHEMA_VERSION) invalid_shape) (\<lambda>_.
       case so_request operation of
         Some (AttestReq request) \<Rightarrow>
           r_bind (r_reject (\<not> response_target_matches operation (aq_target request)
                     \<or> oc_operation_id (aq_context request) \<noteq> so_operation_id operation
                     \<or> \<not> is_ok (x_attest_validate x request)
                     \<or> \<not> digest_matches operation (attestation_request_digest x request))
                     invalid_shape) (\<lambda>_.
             case so_outcome operation of
               Prepared \<Rightarrow> Inr ()
             | Failed e \<Rightarrow> Inr ()
             | SucceededAttestation response \<Rightarrow>
                 r_reject (\<not> x_attest_response_ok x response request) invalid_shape
             | _ \<Rightarrow> Inl invalid_shape)
       | _ \<Rightarrow> Inl invalid_shape)"

text \<open>The outcomes that belong to another operation family.\<close>

definition is_extension_outcome :: "StoredOperationStatus \<Rightarrow> bool" where
  "is_extension_outcome outcome =
     (case outcome of
        SucceededFilesystem r \<Rightarrow> True
      | SucceededCheckpoint r \<Rightarrow> True
      | SucceededRestore r \<Rightarrow> True
      | SucceededAttestation r \<Rightarrow> True
      | _ \<Rightarrow> False)"

definition validate_lifecycle_shape :: "StoredOperation \<Rightarrow> error + unit" where
  "validate_lifecycle_shape operation =
     r_reject (so_request operation \<noteq> None \<or> is_extension_outcome (so_outcome operation))
       invalid_shape"

definition validate_stored_operation_shape :: "externals \<Rightarrow> StoredOperation \<Rightarrow> error + unit" where
  "validate_stored_operation_shape x operation =
     (case so_kind operation of
        KFile \<Rightarrow> validate_file_shape x operation
      | KFilesystem \<Rightarrow> validate_filesystem_shape x operation
      | KCheckpoint \<Rightarrow> validate_checkpoint_shape x operation
      | KRestore \<Rightarrow> validate_restore_shape x operation
      | KAttest \<Rightarrow> validate_attest_shape x operation
      | _ \<Rightarrow> validate_lifecycle_shape operation)"

definition supported_schema :: "string \<Rightarrow> bool" where
  "supported_schema v \<longleftrightarrow>
     v \<in> {OPERATION_SCHEMA_VERSION_V1, OPERATION_SCHEMA_VERSION_V2, OPERATION_SCHEMA_VERSION_V3,
          OPERATION_SCHEMA_VERSION_V4, OPERATION_SCHEMA_VERSION_V5, OPERATION_SCHEMA_VERSION}"

definition load_operation :: "OperationId \<Rightarrow> StoredOperation store_m" where
  "load_operation operation_id =
     m_bind (on_disk (\<lambda>d. map_of (operations d) operation_id)) (\<lambda>file.
     m_bind (m_lift (ok_or (state_error NotFound op_load_operation) file)) (\<lambda>operation.
     m_bind (m_reject (\<not> supported_schema (so_schema_version operation)
                       \<or> so_operation_id operation \<noteq> operation_id)
               (state_error FailedPrecondition op_load_operation)) (\<lambda>_.
     m_bind (external (\<lambda>x. validate_stored_operation_shape x operation)) (\<lambda>_.
       m_return operation))))"

definition load_operation_if_present :: "OperationId \<Rightarrow> StoredOperation option store_m" where
  "load_operation_if_present operation_id =
     m_bind (on_disk (\<lambda>d. map_of (operations d) operation_id)) (\<lambda>file.
       case file of
         None \<Rightarrow> m_return None
       | Some _ \<Rightarrow> m_bind (load_operation operation_id) (\<lambda>operation. m_return (Some operation)))"

definition operation_exists :: "OperationId \<Rightarrow> bool store_m" where
  "operation_exists operation_id =
     m_bind (load_operation_if_present operation_id) (\<lambda>operation. m_return (operation \<noteq> None))"

text \<open>\<open>write_json\<close> of an operation record to \<open>operation_path\<close>.\<close>

definition write_operation :: "DurableMutation \<Rightarrow> StoredOperation \<Rightarrow> unit store_m" where
  "write_operation mutation operation =
     atomic_write mutation (OperationPath (so_operation_id operation)) (OperationFile operation)"

text \<open>The operation record every \<open>prepare_*\<close> call writes before its claim.\<close>

definition prepared_operation ::
  "OperationId \<Rightarrow> StoredOperationKind \<Rightarrow> ContainerId \<Rightarrow> Generation \<Rightarrow> ProcessId option \<Rightarrow> RequestDigests
     \<Rightarrow> StoredOperation" where
  "prepared_operation operation_id kind container_id generation process_id digest =
     \<lparr>so_schema_version = OPERATION_SCHEMA_VERSION, so_operation_id = operation_id, so_kind = kind,
      so_container_id = container_id, so_generation = generation, so_process_id = process_id,
      so_request = None, so_request_digest = rd_canonical digest, so_outcome = Prepared\<rparr>"

text \<open>The \<open>match\<close> on a stored outcome in operations that answer with a container record: replay,
  report the stored failure, or go on when prepared; any other outcome is invalid.\<close>

definition on_record_outcome ::
  "string \<Rightarrow> StoredOperationStatus \<Rightarrow> (ContainerRecord \<Rightarrow> 'a store_m) \<Rightarrow> 'a store_m \<Rightarrow> 'a store_m" where
  "on_record_outcome operation outcome replay prepared =
     (case outcome of
        Prepared \<Rightarrow> prepared
      | Succeeded response \<Rightarrow> replay response
      | Failed e \<Rightarrow> m_throw e
      | _ \<Rightarrow> m_throw (state_error FailedPrecondition operation))"

definition on_empty_outcome ::
  "string \<Rightarrow> StoredOperationStatus \<Rightarrow> 'a store_m \<Rightarrow> 'a store_m \<Rightarrow> 'a store_m" where
  "on_empty_outcome operation outcome replay prepared =
     (case outcome of
        Prepared \<Rightarrow> prepared
      | SucceededEmpty \<Rightarrow> replay
      | Failed e \<Rightarrow> m_throw e
      | _ \<Rightarrow> m_throw (state_error FailedPrecondition operation))"

definition on_process_outcome ::
  "string \<Rightarrow> StoredOperationStatus \<Rightarrow> (ProcessRecord \<Rightarrow> 'a store_m) \<Rightarrow> 'a store_m \<Rightarrow> 'a store_m" where
  "on_process_outcome operation outcome replay prepared =
     (case outcome of
        Prepared \<Rightarrow> prepared
      | SucceededProcess response \<Rightarrow> replay response
      | Failed e \<Rightarrow> m_throw e
      | _ \<Rightarrow> m_throw (state_error FailedPrecondition operation))"

section \<open>Container records\<close>

definition load_bundle_from_directory :: "StoredContainer \<Rightarrow> directory \<Rightarrow> OciBundle store_m" where
  "load_bundle_from_directory stored directory =
     m_bind (on_disk (\<lambda>d. Option.bind (map_of (directories d) directory) cd_config)) (\<lambda>file.
     m_bind (m_lift (ok_or (retryable True (state_error Unavailable op_load_durable_bundle)) file)) (\<lambda>config_json.
       external (\<lambda>x. x_bundle_from_json x (st_bundle (cr_state (sc_record stored))) config_json)))"

definition load_bundle :: "StoredContainer \<Rightarrow> OciBundle store_m" where
  "load_bundle stored = load_bundle_from_directory stored (Live (sc_id stored))"

text \<open>The isolation request reconstructed from a durable record.\<close>

definition durable_isolation :: "StoredContainer \<Rightarrow> CreateAttachments \<Rightarrow> error + IsolationRequest" where
  "durable_isolation stored attachments =
     (case cr_isolation (sc_record stored) of
        DedicatedVm \<Rightarrow> Inr RequestDedicatedVm
      | SharedHostKernel \<Rightarrow> Inr RequestSharedHostKernel
      | SharedGuestKernel \<Rightarrow>
          r_bind (ok_or (state_error FailedPrecondition op_load_container_state)
                    (ca_guest_session attachments)) (\<lambda>session.
            Inr (RequestSharedGuestKernel (gs_trust_domain session))))"

definition validate_attachment_evidence ::
  "externals \<Rightarrow> StoredContainer \<Rightarrow> OciBundle \<Rightarrow> error + unit" where
  "validate_attachment_evidence x stored bundle =
     (let record = sc_record stored; invalid = state_error FailedPrecondition op_load_container_state in
      case (sc_attachments stored, cr_attachments_digest record) of
        (Some attachments, Some expected_digest) \<Rightarrow>
          r_bind (x_attachments_validate x attachments bundle) (\<lambda>_.
          r_bind (durable_isolation stored attachments) (\<lambda>isolation.
          r_bind (map_err (\<lambda>_. invalid) (x_attachments_validate_isolation x attachments isolation)) (\<lambda>_.
          r_bind (x_network_enforcement x attachments bundle) (\<lambda>expected_network_enforcement.
          r_bind (r_reject ((cr_guest_session record \<noteq> None \<and> cr_isolation record \<noteq> SharedGuestKernel)
                    \<or> cr_guest_session record \<noteq> ca_guest_session attachments
                    \<or> cr_network_enforcement record \<noteq> expected_network_enforcement) invalid) (\<lambda>_.
          r_bind (x_attachments_digest x attachments) (\<lambda>digest.
            r_reject (digest \<noteq> expected_digest) invalid))))))
      | (None, None) \<Rightarrow>
          r_reject (\<not> (cr_guest_session record = None \<and> cr_network_enforcement record = None)) invalid
      | _ \<Rightarrow> Inl invalid)"

definition load_stored_container_from_directory ::
  "ContainerId \<Rightarrow> directory \<Rightarrow> StoredContainer store_m" where
  "load_stored_container_from_directory i directory =
     m_bind (on_disk (\<lambda>d. Option.bind (map_of (directories d) directory) cd_record)) (\<lambda>file.
     m_bind (m_lift (ok_or (retryable True (state_error Unavailable op_reconcile_container_state))
               file)) (\<lambda>stored.
     m_bind (m_reject (sc_schema_version stored \<noteq> CONTAINER_SCHEMA_VERSION \<or> sc_id stored \<noteq> i
                       \<or> cr_generation (sc_record stored) = 0
                       \<or> st_id (cr_state (sc_record stored)) \<noteq> i)
               (state_error FailedPrecondition op_load_container_state)) (\<lambda>_.
     m_bind (external (\<lambda>x. x_validate_state x (cr_state (sc_record stored)))) (\<lambda>_.
     m_bind (load_bundle_from_directory stored directory) (\<lambda>bundle.
     m_bind (m_reject (bn_config_digest bundle \<noteq> cr_config_digest (sc_record stored))
               (state_error FailedPrecondition op_load_container_state)) (\<lambda>_.
     m_bind (external (\<lambda>x. validate_attachment_evidence x stored bundle)) (\<lambda>_.
       m_return stored)))))))"

definition load_stored_container :: "ContainerId \<Rightarrow> StoredContainer store_m" where
  "load_stored_container i =
     m_bind (on_disk (\<lambda>d. map_of (directories d) (Live i))) (\<lambda>present.
     m_bind (m_reject (present = None) (state_error NotFound op_load_container_state)) (\<lambda>_.
       load_stored_container_from_directory i (Live i)))"

definition generation_conflict :: "string \<Rightarrow> error" where
  "generation_conflict operation = state_error Conflict operation"

definition load_stored_exact :: "ContainerId \<Rightarrow> Generation \<Rightarrow> StoredContainer store_m" where
  "load_stored_exact i generation =
     m_bind (m_try (load_stored_container i)) (\<lambda>result.
     m_bind (m_lift (map_err (\<lambda>e. if err_code e = NotFound
                                then retryable True (state_error Unavailable op_reconcile_operation)
                                else e) result)) (\<lambda>stored.
     m_bind (m_reject (cr_generation (sc_record stored) \<noteq> generation)
               (generation_conflict op_reconcile_operation)) (\<lambda>_.
       m_return stored)))"

text \<open>\<open>write_json\<close> of a container record below \<open>container_directory\<close>.\<close>

definition write_container :: "DurableMutation \<Rightarrow> ContainerId \<Rightarrow> StoredContainer \<Rightarrow> unit store_m" where
  "write_container mutation i stored =
     atomic_write mutation (RecordPath (Live i)) (ContainerFile stored)"

text \<open>The generation fence of a caller's target.\<close>

definition validate_requested_generation ::
  "StoredContainer \<Rightarrow> ContainerTarget \<Rightarrow> string \<Rightarrow> error + unit" where
  "validate_requested_generation container target operation =
     (case ct_generation target of
        None \<Rightarrow> Inr ()
      | Some expected \<Rightarrow>
          r_reject (cr_generation (sc_record container) \<noteq> expected) (generation_conflict operation))"

definition state_request :: "ContainerTarget \<Rightarrow> ContainerRecord store_m" where
  "state_request target =
     m_bind (load_stored_container (ct_id target)) (\<lambda>stored.
     m_bind (m_lift (validate_requested_generation stored target op_state)) (\<lambda>_.
       m_return (sc_record stored)))"

definition bundle_request :: "ContainerTarget \<Rightarrow> OciBundle store_m" where
  "bundle_request target =
     m_bind (load_stored_container (ct_id target)) (\<lambda>stored.
     m_bind (m_lift (validate_requested_generation stored target op_load_durable_bundle)) (\<lambda>_.
       load_bundle stored))"

definition attachment_contract :: "ContainerTarget \<Rightarrow> CreateAttachments option store_m" where
  "attachment_contract target =
     m_bind (load_stored_container (ct_id target)) (\<lambda>stored.
     m_bind (m_lift (validate_requested_generation stored target op_load_durable_attachments)) (\<lambda>_.
       m_return (sc_attachments stored)))"

section \<open>Generations\<close>

definition next_generation :: "ContainerId \<Rightarrow> Generation store_m" where
  "next_generation i =
     m_bind (on_disk (\<lambda>d. map_of (generations d) i)) (\<lambda>file.
     m_bind (case file of
               None \<Rightarrow> m_return 0
             | Some stored \<Rightarrow>
                 m_bind (m_reject (sg_schema_version stored \<noteq> GENERATION_SCHEMA_VERSION
                                   \<or> sg_id stored \<noteq> i)
                           (state_error FailedPrecondition op_allocate_generation)) (\<lambda>_.
                   m_return (sg_last_generation stored))) (\<lambda>lst.
     m_bind (m_lift (ok_or (state_error ResourceExhausted op_allocate_generation)
               (checked_succ lst))) (\<lambda>generation.
     m_bind (atomic_write AllocateGeneration (GenerationPath i)
               (GenerationFile \<lparr>sg_schema_version = GENERATION_SCHEMA_VERSION, sg_id = i,
                                sg_last_generation = generation\<rparr>)) (\<lambda>_.
       m_return generation))))"

section \<open>Operation claims\<close>

definition ensure_active_operation :: "StoredContainer \<Rightarrow> OperationId \<Rightarrow> string \<Rightarrow> error + unit" where
  "ensure_active_operation stored operation_id operation =
     (case sc_active_operation stored of
        Some active \<Rightarrow>
          if active = operation_id then Inr () else Inl (state_error Conflict operation)
      | None \<Rightarrow> Inr ())"

definition is_process_io_kind :: "StoredOperationKind \<Rightarrow> bool" where
  "is_process_io_kind kind \<longleftrightarrow> kind \<in> {KWriteStdin, KCloseStdin, KResize}"

definition validate_legacy_io_operation ::
  "StoredOperation \<Rightarrow> ContainerId \<Rightarrow> Generation \<Rightarrow> bool \<Rightarrow> error + unit" where
  "validate_legacy_io_operation operation container_id generation init =
     (let process_matches =
            (case so_process_id operation of None \<Rightarrow> False | Some p \<Rightarrow> is_init p = init)
      in r_reject (so_container_id operation \<noteq> container_id \<or> so_generation operation \<noteq> generation
                   \<or> \<not> process_matches \<or> so_outcome operation \<noteq> Prepared)
           (state_error FailedPrecondition op_migrate_claim))"

text \<open>The mutated \<open>&mut StoredContainer\<close> is returned next to the migrated identifier.\<close>

definition migrate_legacy_init_io_claim ::
  "StoredContainer \<Rightarrow> (OperationId option \<times> StoredContainer) store_m" where
  "migrate_legacy_init_io_claim container =
     (case sc_active_operation container of
        None \<Rightarrow> m_return (None, container)
      | Some operation_id \<Rightarrow>
          m_bind (load_operation operation_id) (\<lambda>operation.
            if \<not> is_process_io_kind (so_kind operation) then m_return (None, container)
            else
              m_bind (m_lift (validate_legacy_io_operation operation (sc_id container)
                        (cr_generation (sc_record container)) True)) (\<lambda>_.
                m_return (Some operation_id,
                  container\<lparr>sc_active_operation := None,
                            sc_init_io_operations :=
                              insert operation_id (sc_init_io_operations container)\<rparr>))))"

definition claim_active_operation ::
  "StoredContainer \<Rightarrow> OperationId \<Rightarrow> DurableMutation \<Rightarrow> string \<Rightarrow> StoredContainer store_m" where
  "claim_active_operation stored operation_id mutation operation =
     (if sc_active_operation stored = Some operation_id then m_return stored
      else
        m_bind (case sc_active_operation stored of
                  None \<Rightarrow> m_return stored
                | Some active \<Rightarrow>
                    m_bind (migrate_legacy_init_io_claim stored) (\<lambda>(migrated, stored').
                    m_bind (m_reject (migrated = None) (state_error Conflict operation)) (\<lambda>_.
                    m_bind (m_reject (mutation \<in> {ClaimOperation KDelete, ClaimOperation KCheckpoint})
                              (retryable True (state_error Conflict operation))) (\<lambda>_.
                      m_return stored')))) (\<lambda>unclaimed.
        (let claimed_record = unclaimed\<lparr>sc_active_operation := Some operation_id\<rparr> in
         m_bind (write_container mutation (sc_id claimed_record) claimed_record) (\<lambda>_.
           m_return claimed_record))))"

end
