(* ===== verification/Store_Steps.thy ===== *)
theory Store_Steps
  imports Store_Core
begin

text \<open>
  An abstract specification of the durable store: what one committed file replacement or directory
  move may change (\<open>store_step\<close>), the invariant every reachable root satisfies (\<open>store_inv\<close>), and
  what no step ever undoes (\<open>store_le\<close>).  The invariant is the one the startup audit checks:
  operations carry their own identifier and a generation the counter has reached, a generation has
  one creation operation, and every claim in a container or process record names a prepared
  operation of that container and generation.

  The judgement \<open>runs m P s\<close> states that the computation \<open>m\<close> of the store refines the
  specification from \<open>s\<close>, whatever the fault injector does, and that a successful run ends in \<open>P\<close>.
\<close>

section \<open>Views of the disk\<close>

definition live_record :: "disk \<Rightarrow> ContainerId \<Rightarrow> StoredContainer option" where
  "live_record d i = Option.bind (map_of (directories d) (Live i)) cd_record"

definition process_table :: "disk \<Rightarrow> ContainerId \<Rightarrow> (ProcessId \<times> StoredProcess) list option" where
  "process_table d i = Option.bind (map_of (directories d) (Live i)) cd_processes"

definition process_record :: "disk \<Rightarrow> ContainerId \<Rightarrow> ProcessId \<Rightarrow> StoredProcess option" where
  "process_record d i p = Option.bind (process_table d i) (\<lambda>ps. map_of ps p)"

definition last_generation :: "disk \<Rightarrow> ContainerId \<Rightarrow> Generation" where
  "last_generation d i =
     (case map_of (generations d) i of None \<Rightarrow> 0 | Some g \<Rightarrow> sg_last_generation g)"

abbreviation generation_of :: "StoredContainer \<Rightarrow> Generation" where
  "generation_of r \<equiv> cr_generation (sc_record r)"

abbreviation status_of :: "StoredContainer \<Rightarrow> ContainerState" where
  "status_of r \<equiv> st_status (cr_state (sc_record r))"

lemma bind_map_option [simp]: "Option.bind (map_option f v) g = Option.bind v (\<lambda>c. g (f c))"
  by (cases v) simp_all

lemma live_record_frame [simp]:
  "live_record (d\<lparr>operations := ops\<rparr>) = live_record d"
  "live_record (d\<lparr>generations := gs\<rparr>) = live_record d"
  "live_record (update_dir k (\<lambda>c. c\<lparr>cd_config := cfg\<rparr>) d) = live_record d"
  "live_record (update_dir k (\<lambda>c. c\<lparr>cd_processes := f c\<rparr>) d) = live_record d"
  by (auto simp: live_record_def fun_eq_iff split: option.splits)

lemma live_record_update [simp]:
  "live_record (update_dir (Live i) (\<lambda>c. c\<lparr>cd_record := Some r\<rparr>) d) j =
     (if j = i \<and> map_of (directories d) (Live i) \<noteq> None then Some r else live_record d j)"
  by (auto simp: live_record_def)

lemma live_record_mkdir [simp]:
  "live_record (d\<lparr>directories := put (Live i) empty_dir (directories d)\<rparr>) j =
     (if j = i then None else live_record d j)"
  by (auto simp: live_record_def empty_dir_def)

lemma live_record_move [simp]:
  "live_record (move_dir (Live i) (Quarantined t) d) j = (if j = i then None else live_record d j)"
  by (auto simp: live_record_def lookup_move_dir split: option.splits)

lemma process_table_frame [simp]:
  "process_table (d\<lparr>operations := ops\<rparr>) = process_table d"
  "process_table (d\<lparr>generations := gs\<rparr>) = process_table d"
  "process_table (update_dir k (\<lambda>c. c\<lparr>cd_config := cfg\<rparr>) d) = process_table d"
  "process_table (update_dir k (\<lambda>c. c\<lparr>cd_record := f c\<rparr>) d) = process_table d"
  by (auto simp: process_table_def fun_eq_iff split: option.splits)

lemma process_table_mkdir [simp]:
  "process_table (d\<lparr>directories := put (Live i) empty_dir (directories d)\<rparr>) j =
     (if j = i then None else process_table d j)"
  by (auto simp: process_table_def empty_dir_def)

lemma process_table_move [simp]:
  "process_table (move_dir (Live i) (Quarantined t) d) j = (if j = i then None else process_table d j)"
  by (auto simp: process_table_def lookup_move_dir split: option.splits)

lemma process_table_create [simp]:
  "process_table (update_dir (Live i) (\<lambda>c. c\<lparr>cd_processes := Some []\<rparr>) d) j =
     (if j = i \<and> map_of (directories d) (Live i) \<noteq> None then Some [] else process_table d j)"
  by (auto simp: process_table_def)

lemma process_table_put [simp]:
  "process_table (update_dir (Live i) (\<lambda>c. c\<lparr>cd_processes := map_option (put p pr) (cd_processes c)\<rparr>) d) j =
     (if j = i then map_option (put p pr) (process_table d i) else process_table d j)"
  by (cases "map_of (directories d) (Live i)") (auto simp: process_table_def)

lemma last_generation_frame [simp]:
  "last_generation (d\<lparr>operations := ops\<rparr>) = last_generation d"
  "last_generation (d\<lparr>directories := ds\<rparr>) = last_generation d"
  "last_generation (update_dir k f d) = last_generation d"
  "last_generation (move_dir a b d) = last_generation d"
  by (auto simp: last_generation_def fun_eq_iff)

lemma last_generation_put [simp]:
  "last_generation (d\<lparr>generations := put i g (generations d)\<rparr>) j =
     (if j = i then sg_last_generation g else last_generation d j)"
  by (simp add: last_generation_def)

lemma views_cong:
  assumes "directories d' = directories d" "operations d' = operations d" "generations d' = generations d"
  shows "live_record d' = live_record d" "process_table d' = process_table d"
    "process_record d' = process_record d" "last_generation d' = last_generation d"
  using assms by (auto simp: live_record_def process_table_def process_record_def last_generation_def
      fun_eq_iff)

section \<open>Well-formed records\<close>

definition is_process_kind :: "StoredOperationKind \<Rightarrow> bool" where
  "is_process_kind k \<longleftrightarrow> k \<in> {KExec, KSignalProcess, KWriteStdin, KCloseStdin, KResize}"

fun is_failed :: "StoredOperationStatus \<Rightarrow> bool" where
  "is_failed (Failed e) = True"
| "is_failed _ = False"

text \<open>A state document names a process exactly while one exists, and only a running container is
  paused.\<close>

definition state_ok :: "State \<Rightarrow> bool" where
  "state_ok st \<longleftrightarrow>
     (case st_status st of
        StCreating \<Rightarrow> st_pid st = None
      | StCreated \<Rightarrow> \<exists>p > 0. st_pid st = Some p
      | StRunning \<Rightarrow> \<exists>p > 0. st_pid st = Some p
      | StStopped \<Rightarrow> st_pid st = None)
     \<and> (is_paused st \<longrightarrow> st_status st = StRunning)"

text \<open>The generation was reserved by a creation operation.\<close>

definition created :: "disk \<Rightarrow> ContainerId \<Rightarrow> Generation \<Rightarrow> bool" where
  "created d c g \<longleftrightarrow> (\<exists>i oper. map_of (operations d) i = Some oper \<and> is_creation (so_kind oper)
     \<and> so_container_id oper = c \<and> so_generation oper = g)"

definition claims_op :: "disk \<Rightarrow> OperationId \<Rightarrow> ContainerId \<Rightarrow> Generation \<Rightarrow> (StoredOperation \<Rightarrow> bool) \<Rightarrow> bool" where
  "claims_op d i c g P \<longleftrightarrow> (\<exists>oper. map_of (operations d) i = Some oper
     \<and> so_container_id oper = c \<and> so_generation oper = g \<and> P oper)"

definition active_claim :: "StoredOperation \<Rightarrow> bool" where
  "active_claim oper \<longleftrightarrow>
     (so_outcome oper = Prepared \<or> is_creation (so_kind oper) \<and> is_failed (so_outcome oper))
     \<and> (\<forall>q. so_process_id oper = Some q \<longrightarrow> is_init q)"

definition process_claim :: "ProcessId \<Rightarrow> StoredOperation \<Rightarrow> bool" where
  "process_claim p oper \<longleftrightarrow> so_outcome oper = Prepared \<and> so_process_id oper = Some p"

text \<open>The init process is claimed outside the active slot by I/O operations only.\<close>

definition init_io_claim :: "StoredOperation \<Rightarrow> bool" where
  "init_io_claim oper \<longleftrightarrow> process_claim INIT_PROCESS_ID oper \<and> is_process_io_kind (so_kind oper)"

definition container_claims :: "disk \<Rightarrow> StoredContainer \<Rightarrow> bool" where
  "container_claims d r \<longleftrightarrow>
     (\<forall>i. sc_active_operation r = Some i \<longrightarrow> claims_op d i (sc_id r) (generation_of r) active_claim)
     \<and> (\<forall>i \<in> sc_init_io_operations r.
          claims_op d i (sc_id r) (generation_of r) init_io_claim)"

text \<open>The operations a process record is owned by.\<close>

definition process_owners :: "StoredProcess \<Rightarrow> OperationId set" where
  "process_owners pr = set_option (sp_active_operation pr) \<union> sp_active_io_operations pr"

definition process_target :: "ContainerId \<Rightarrow> Generation \<Rightarrow> ProcessId \<Rightarrow> ProcessTarget" where
  "process_target i g p = \<lparr>pt_container = target_exact i g, pt_process_id = p\<rparr>"

definition process_claims :: "disk \<Rightarrow> ContainerId \<Rightarrow> Generation \<Rightarrow> ProcessId \<Rightarrow> StoredProcess \<Rightarrow> bool" where
  "process_claims d i g p pr \<longleftrightarrow>
     (\<forall>j \<in> process_owners pr. claims_op d j i g (process_claim p))
     \<and> (\<forall>j \<in> sp_active_io_operations pr. claims_op d j i g (\<lambda>oper. is_process_io_kind (so_kind oper)))"

definition executed :: "disk \<Rightarrow> ContainerId \<Rightarrow> Generation \<Rightarrow> ProcessId \<Rightarrow> bool" where
  "executed d c g p \<longleftrightarrow> (\<exists>i oper. map_of (operations d) i = Some oper \<and> so_kind oper = KExec
     \<and> so_container_id oper = c \<and> so_generation oper = g \<and> so_process_id oper = Some p)"

definition op_ok :: "externals \<Rightarrow> disk \<Rightarrow> OperationId \<Rightarrow> StoredOperation \<Rightarrow> bool" where
  "op_ok x d i oper \<longleftrightarrow>
     so_operation_id oper = i \<and> valid_id i \<and> valid_id (so_container_id oper)
     \<and> supported_schema (so_schema_version oper) \<and> validate_stored_operation_shape x oper = Inr ()
     \<and> so_generation oper \<noteq> 0 \<and> so_generation oper \<le> last_generation d (so_container_id oper)
     \<and> (so_process_id oper \<noteq> None \<longleftrightarrow> is_process_kind (so_kind oper))"

definition record_ok :: "disk \<Rightarrow> ContainerId \<Rightarrow> StoredContainer \<Rightarrow> bool" where
  "record_ok d i r \<longleftrightarrow>
     sc_schema_version r = CONTAINER_SCHEMA_VERSION \<and> sc_id r = i \<and> st_id (cr_state (sc_record r)) = i
     \<and> state_ok (cr_state (sc_record r))
     \<and> generation_of r \<noteq> 0 \<and> generation_of r \<le> last_generation d i
     \<and> created d i (generation_of r) \<and> container_claims d r"

definition process_ok :: "disk \<Rightarrow> ContainerId \<Rightarrow> Generation \<Rightarrow> ProcessId \<Rightarrow> StoredProcess \<Rightarrow> bool" where
  "process_ok d i g p pr \<longleftrightarrow>
     sp_schema_version pr = PROCESS_SCHEMA_VERSION \<and> \<not> is_init p
     \<and> pr_target (sp_record pr) = process_target i g p \<and> pr_pid (sp_record pr) \<noteq> Some 0
     \<and> (\<forall>e. sp_exit_status pr = Some e \<longrightarrow> exit_status_validate e = Inr ())
     \<and> executed d i g p \<and> process_claims d i g p pr"

definition generation_ok :: "ContainerId \<Rightarrow> StoredGeneration \<Rightarrow> bool" where
  "generation_ok i g \<longleftrightarrow> sg_schema_version g = GENERATION_SCHEMA_VERSION \<and> sg_id g = i
     \<and> sg_last_generation g \<noteq> 0 \<and> valid_id i"

definition inv_operations :: "externals \<Rightarrow> disk \<Rightarrow> bool" where
  "inv_operations x d \<longleftrightarrow> (\<forall>i oper. map_of (operations d) i = Some oper \<longrightarrow> op_ok x d i oper)"

definition inv_creation :: "disk \<Rightarrow> bool" where
  "inv_creation d \<longleftrightarrow> (\<forall>i oper j oper'. map_of (operations d) i = Some oper \<longrightarrow>
     map_of (operations d) j = Some oper' \<longrightarrow> is_creation (so_kind oper) \<longrightarrow> is_creation (so_kind oper') \<longrightarrow>
     so_container_id oper = so_container_id oper' \<longrightarrow> so_generation oper = so_generation oper' \<longrightarrow> i = j)"

definition inv_generations :: "disk \<Rightarrow> bool" where
  "inv_generations d \<longleftrightarrow> (\<forall>i g. map_of (generations d) i = Some g \<longrightarrow> generation_ok i g)"

definition inv_records :: "disk \<Rightarrow> bool" where
  "inv_records d \<longleftrightarrow> (\<forall>i r. live_record d i = Some r \<longrightarrow> record_ok d i r)"

definition inv_processes :: "disk \<Rightarrow> bool" where
  "inv_processes d \<longleftrightarrow> (\<forall>i ps. process_table d i = Some ps \<longrightarrow> distinct_keys ps
     \<and> (\<exists>r. live_record d i = Some r
          \<and> (\<forall>p pr. map_of ps p = Some pr \<longrightarrow> process_ok d i (generation_of r) p pr)))"

definition inv_layout :: "disk \<Rightarrow> bool" where
  "inv_layout d \<longleftrightarrow> distinct_keys (directories d) \<and> distinct_keys (operations d)
     \<and> distinct_keys (generations d) \<and> (\<forall>i. map_of (directories d) (Live i) \<noteq> None \<longrightarrow> valid_id i)"

definition store_inv :: "externals \<Rightarrow> disk \<Rightarrow> bool" where
  "store_inv x d \<longleftrightarrow> journal_inv x d \<and> inv_operations x d \<and> inv_creation d \<and> inv_generations d
     \<and> inv_records d \<and> inv_processes d \<and> inv_layout d"

section \<open>Steps\<close>

text \<open>No live record is owned by the operation.\<close>

definition unclaimed :: "disk \<Rightarrow> OperationId \<Rightarrow> bool" where
  "unclaimed d i \<longleftrightarrow>
     (\<forall>c r. live_record d c = Some r \<longrightarrow>
        sc_active_operation r \<noteq> Some i \<and> i \<notin> sc_init_io_operations r)
     \<and> (\<forall>c ps p pr. process_table d c = Some ps \<longrightarrow> map_of ps p = Some pr \<longrightarrow> i \<notin> process_owners pr)"

definition lifecycle_step :: "ContainerState \<Rightarrow> ContainerState \<Rightarrow> bool" where
  "lifecycle_step st st' \<longleftrightarrow>
     st' = st \<or> (\<exists>e. transition (lifecycle_state st) e = Inr (lifecycle_state st'))"

definition state_step :: "State \<Rightarrow> State \<Rightarrow> bool" where
  "state_step st st' \<longleftrightarrow> st_id st' = st_id st \<and> st_version st' = st_version st
     \<and> st_bundle st' = st_bundle st \<and> lifecycle_step (st_status st) (st_status st') \<and> state_ok st'"

text \<open>Everything a container generation was created with is fixed; its state follows the lifecycle and
  its exit status is written once.\<close>

definition record_step :: "StoredContainer \<Rightarrow> StoredContainer \<Rightarrow> bool" where
  "record_step r r' \<longleftrightarrow>
     sc_schema_version r' = sc_schema_version r \<and> sc_id r' = sc_id r
     \<and> sc_attachments r' = sc_attachments r
     \<and> sc_record r' = (sc_record r)\<lparr>cr_state := cr_state (sc_record r')\<rparr>
     \<and> state_step (cr_state (sc_record r)) (cr_state (sc_record r'))
     \<and> (sc_init_exit_status r = None \<or> sc_init_exit_status r' = sc_init_exit_status r)"

definition process_step :: "StoredProcess \<Rightarrow> StoredProcess \<Rightarrow> bool" where
  "process_step pr pr' \<longleftrightarrow>
     sp_schema_version pr' = sp_schema_version pr
     \<and> pr_target (sp_record pr') = pr_target (sp_record pr)
     \<and> pr_terminal (sp_record pr') = pr_terminal (sp_record pr)
     \<and> (pr_pid (sp_record pr') = None \<longrightarrow> pr_pid (sp_record pr) = None)
     \<and> pr_pid (sp_record pr') \<noteq> Some 0
     \<and> (sp_exit_status pr = None \<or> sp_exit_status pr' = sp_exit_status pr)
     \<and> (\<forall>e. sp_exit_status pr' = Some e \<longrightarrow> exit_status_validate e = Inr ())"

text \<open>A recovered response differs from the recorded one in its process identity only.\<close>

definition rebinds :: "ContainerRecord \<Rightarrow> ContainerRecord \<Rightarrow> bool" where
  "rebinds r r' \<longleftrightarrow> r' = r\<lparr>cr_state := cr_state r'\<rparr>
     \<and> st_id (cr_state r') = st_id (cr_state r) \<and> st_version (cr_state r') = st_version (cr_state r)
     \<and> st_bundle (cr_state r') = st_bundle (cr_state r)
     \<and> st_status (cr_state r') = st_status (cr_state r)"

fun outcome_rebinds :: "StoredOperationStatus \<Rightarrow> StoredOperationStatus \<Rightarrow> bool" where
  "outcome_rebinds (Succeeded r) (Succeeded r') = rebinds r r'"
| "outcome_rebinds (SucceededProcess r) (SucceededProcess r') =
     (pr_target r' = pr_target r \<and> pr_terminal r' = pr_terminal r)"
| "outcome_rebinds _ _ = False"

fun tombstone_operation :: "tombstone \<Rightarrow> OperationId" where
  "tombstone_operation (DeletedTombstone i) = i"
| "tombstone_operation (FailedCreateTombstone i) = i"
| "tombstone_operation (FailedRestoreTombstone i) = i"

text \<open>A quarantined directory belongs to a prepared delete or to a failed creation of its generation.\<close>

fun tombstone_ok :: "tombstone \<Rightarrow> StoredOperation \<Rightarrow> bool" where
  "tombstone_ok (DeletedTombstone i) oper = (so_kind oper = KDelete \<and> so_outcome oper = Prepared)"
| "tombstone_ok (FailedCreateTombstone i) oper = (so_kind oper = KCreate \<and> is_failed (so_outcome oper))"
| "tombstone_ok (FailedRestoreTombstone i) oper = (so_kind oper = KRestore \<and> is_failed (so_outcome oper))"

inductive store_step :: "externals \<Rightarrow> disk \<Rightarrow> disk \<Rightarrow> bool" for x where
  Allocate: "checked_succ (last_generation d i) = Some g \<Longrightarrow> valid_id i \<Longrightarrow>
     store_step x d (d\<lparr>generations := put i \<lparr>sg_schema_version = GENERATION_SCHEMA_VERSION, sg_id = i,
                                               sg_last_generation = g\<rparr> (generations d)\<rparr>)"
| Prepare: "map_of (operations d) i = None \<Longrightarrow> op_ok x d i oper \<Longrightarrow> so_outcome oper = Prepared \<Longrightarrow>
     (is_creation (so_kind oper) \<longrightarrow> \<not> created d (so_container_id oper) (so_generation oper)) \<Longrightarrow>
     store_step x d (d\<lparr>operations := put i oper (operations d)\<rparr>)"
| Settle: "map_of (operations d) i = Some oper \<Longrightarrow> so_outcome oper = Prepared \<Longrightarrow> out \<noteq> Prepared \<Longrightarrow>
     validate_stored_operation_shape x (oper\<lparr>so_outcome := out\<rparr>) = Inr () \<Longrightarrow>
     unclaimed d i \<or> is_creation (so_kind oper) \<and> is_failed out \<Longrightarrow>
     store_step x d (d\<lparr>operations := put i (oper\<lparr>so_outcome := out\<rparr>) (operations d)\<rparr>)"
| Rebind: "map_of (operations d) i = Some oper \<Longrightarrow> outcome_rebinds (so_outcome oper) out \<Longrightarrow>
     validate_stored_operation_shape x (oper\<lparr>so_outcome := out\<rparr>) = Inr () \<Longrightarrow>
     store_step x d (d\<lparr>operations := put i (oper\<lparr>so_outcome := out\<rparr>) (operations d)\<rparr>)"
| MakeDirectory: "map_of (directories d) (Live i) = None \<Longrightarrow> valid_id i \<Longrightarrow>
     store_step x d (d\<lparr>directories := put (Live i) empty_dir (directories d)\<rparr>)"
| WriteConfig: "map_of (directories d) (Live i) = Some c \<Longrightarrow> cd_config c = None \<Longrightarrow>
     store_step x d (update_dir (Live i) (\<lambda>c. c\<lparr>cd_config := Some cfg\<rparr>) d)"
| NewRecord: "map_of (directories d) (Live i) \<noteq> None \<Longrightarrow> live_record d i = None \<Longrightarrow>
     record_ok d i r \<Longrightarrow> status_of r = StCreating \<Longrightarrow>
     store_step x d (update_dir (Live i) (\<lambda>c. c\<lparr>cd_record := Some r\<rparr>) d)"
| UpdateRecord: "live_record d i = Some r \<Longrightarrow> record_step r r' \<Longrightarrow> container_claims d r' \<Longrightarrow>
     store_step x d (update_dir (Live i) (\<lambda>c. c\<lparr>cd_record := Some r'\<rparr>) d)"
| MakeProcesses: "live_record d i = Some r \<Longrightarrow> process_table d i = None \<Longrightarrow>
     store_step x d (update_dir (Live i) (\<lambda>c. c\<lparr>cd_processes := Some []\<rparr>) d)"
| NewProcess: "live_record d i = Some r \<Longrightarrow> process_table d i = Some ps \<Longrightarrow> map_of ps p = None \<Longrightarrow>
     process_ok d i (generation_of r) p pr \<Longrightarrow>
     store_step x d (update_dir (Live i) (\<lambda>c. c\<lparr>cd_processes := map_option (put p pr) (cd_processes c)\<rparr>) d)"
| UpdateProcess: "live_record d i = Some r \<Longrightarrow> process_table d i = Some ps \<Longrightarrow> map_of ps p = Some pr \<Longrightarrow>
     process_step pr pr' \<Longrightarrow> process_claims d i (generation_of r) p pr' \<Longrightarrow>
     store_step x d (update_dir (Live i) (\<lambda>c. c\<lparr>cd_processes := map_option (put p pr') (cd_processes c)\<rparr>) d)"
| Quarantine: "live_record d i = Some r \<Longrightarrow> map_of (directories d) (Quarantined t) = None \<Longrightarrow>
     map_of (operations d) (tombstone_operation t) = Some oper \<Longrightarrow> tombstone_ok t oper \<Longrightarrow>
     so_container_id oper = i \<Longrightarrow> so_generation oper = generation_of r \<Longrightarrow>
     sc_active_operation r \<in> {None, Some (tombstone_operation t)} \<Longrightarrow>
     store_step x d (move_dir (Live i) (Quarantined t) d)"
| Journal: "journal_call x d d' \<Longrightarrow> store_step x d d'"

section \<open>The invariant is preserved\<close>

lemma journal_call_frame:
  assumes "journal_call x d d'"
  shows "directories d' = directories d" "operations d' = operations d" "generations d' = generations d"
  using assms journal_steps_le by (auto simp: journal_call_def journal_le_def)

lemmas inv_defs = inv_operations_def inv_creation_def inv_generations_def inv_records_def
  inv_processes_def inv_layout_def

lemma claims_op_cong: "operations d' = operations d \<Longrightarrow> claims_op d' = claims_op d"
  by (simp add: claims_op_def fun_eq_iff)

lemma claims_cong:
  assumes "operations d' = operations d"
  shows "container_claims d' = container_claims d" "process_claims d' = process_claims d"
    "created d' = created d" "executed d' = executed d"
  using assms by (simp_all add: container_claims_def process_claims_def claims_op_def created_def
      executed_def fun_eq_iff)

lemma claims_cong_dirs [simp]:
  "container_claims (update_dir k f d) = container_claims d"
  "process_claims (update_dir k f d) = process_claims d"
  "created (update_dir k f d) = created d" "executed (update_dir k f d) = executed d"
  "container_claims (move_dir a b d) = container_claims d"
  "process_claims (move_dir a b d) = process_claims d"
  "created (move_dir a b d) = created d" "executed (move_dir a b d) = executed d"
  "container_claims (d\<lparr>directories := ds\<rparr>) = container_claims d"
  "process_claims (d\<lparr>directories := ds\<rparr>) = process_claims d"
  "created (d\<lparr>directories := ds\<rparr>) = created d" "executed (d\<lparr>directories := ds\<rparr>) = executed d"
  "container_claims (d\<lparr>generations := gs\<rparr>) = container_claims d"
  "process_claims (d\<lparr>generations := gs\<rparr>) = process_claims d"
  "created (d\<lparr>generations := gs\<rparr>) = created d" "executed (d\<lparr>generations := gs\<rparr>) = executed d"
  by (rule claims_cong; simp)+

lemma process_ok_cong_dirs [simp]:
  "process_ok (update_dir k f d) = process_ok d" "process_ok (move_dir a b d) = process_ok d"
  "process_ok (d\<lparr>directories := ds\<rparr>) = process_ok d" "process_ok (d\<lparr>generations := gs\<rparr>) = process_ok d"
  by (simp_all add: process_ok_def fun_eq_iff)

lemma record_ok_cong_dirs [simp]:
  "record_ok (update_dir k f d) = record_ok d" "record_ok (move_dir a b d) = record_ok d"
  "record_ok (d\<lparr>directories := ds\<rparr>) = record_ok d"
  by (simp_all add: record_ok_def fun_eq_iff)

lemma op_ok_cong_dirs [simp]:
  "op_ok x (update_dir k f d) = op_ok x d" "op_ok x (move_dir a b d) = op_ok x d"
  "op_ok x (d\<lparr>directories := ds\<rparr>) = op_ok x d" "op_ok x (d\<lparr>operations := ops\<rparr>) = op_ok x d"
  by (simp_all add: op_ok_def fun_eq_iff)

text \<open>Replacing one operation record by another of the same identity.\<close>

definition same_identity :: "StoredOperation \<Rightarrow> StoredOperation \<Rightarrow> bool" where
  "same_identity a b \<longleftrightarrow> so_kind a = so_kind b \<and> so_container_id a = so_container_id b
     \<and> so_generation a = so_generation b \<and> so_process_id a = so_process_id b"

lemma same_identity_outcome [simp]: "same_identity oper (oper\<lparr>so_outcome := out\<rparr>)"
  by (simp add: same_identity_def)

lemma created_put:
  assumes "\<And>old. map_of (operations d) i = Some old \<Longrightarrow> same_identity old oper"
  shows "created d c g \<Longrightarrow> created (d\<lparr>operations := put i oper (operations d)\<rparr>) c g"
  using assms unfolding created_def same_identity_def by simp metis

lemma executed_put:
  assumes "\<And>old. map_of (operations d) i = Some old \<Longrightarrow> same_identity old oper"
  shows "executed d c g p \<Longrightarrow> executed (d\<lparr>operations := put i oper (operations d)\<rparr>) c g p"
  using assms unfolding executed_def same_identity_def by simp metis

lemma claims_op_put:
  assumes "claims_op d j c g P"
    and "\<And>old. j = i \<Longrightarrow> map_of (operations d) i = Some old \<Longrightarrow> P old \<Longrightarrow> same_identity old oper \<and> P oper"
  shows "claims_op (d\<lparr>operations := put i oper (operations d)\<rparr>) j c g P"
  using assms by (auto simp: claims_op_def same_identity_def)

lemma journal_inv_frame [simp]:
  "journal_inv x (d\<lparr>operations := ops\<rparr>) = journal_inv x d"
  "journal_inv x (d\<lparr>generations := gs\<rparr>) = journal_inv x d"
  "journal_inv x (d\<lparr>directories := ds\<rparr>) = journal_inv x d"
  "journal_inv x (update_dir k f d) = journal_inv x d"
  "journal_inv x (move_dir a b d) = journal_inv x d"
  by (simp_all add: journal_inv_def claims_ok_def claims_unique_def records_claimed_def cursor_last_def)

definition op_update :: "disk \<Rightarrow> OperationId \<Rightarrow> StoredOperation \<Rightarrow> bool" where
  "op_update d i oper \<longleftrightarrow> (\<forall>old. map_of (operations d) i = Some old \<longrightarrow> same_identity old oper
     \<and> (unclaimed d i \<or> (\<not> active_claim old \<and> (\<forall>p. \<not> process_claim p old))
        \<or> (so_process_id oper = None \<and> active_claim oper)))"

lemma container_claims_put:
  assumes "container_claims d r" "live_record d c = Some r" "op_update d i oper"
  shows "container_claims (d\<lparr>operations := put i oper (operations d)\<rparr>) r"
  unfolding container_claims_def
proof (intro conjI allI impI ballI)
  fix j assume "sc_active_operation r = Some j"
  with assms show "claims_op (d\<lparr>operations := put i oper (operations d)\<rparr>) j (sc_id r) (generation_of r) active_claim"
    by (intro claims_op_put) (auto simp: container_claims_def op_update_def unclaimed_def)
next
  fix j assume "j \<in> sc_init_io_operations r"
  with assms show "claims_op (d\<lparr>operations := put i oper (operations d)\<rparr>) j (sc_id r) (generation_of r)
      init_io_claim"
    by (intro claims_op_put)
      (auto simp: container_claims_def op_update_def unclaimed_def init_io_claim_def process_claim_def
        same_identity_def)
qed

lemma process_claims_put:
  assumes "process_claims d c g p pr" "process_table d c = Some ps" "map_of ps p = Some pr" "op_update d i oper"
  shows "process_claims (d\<lparr>operations := put i oper (operations d)\<rparr>) c g p pr"
  unfolding process_claims_def
proof (intro conjI ballI)
  fix j assume "j \<in> sp_active_io_operations pr"
  with assms show "claims_op (d\<lparr>operations := put i oper (operations d)\<rparr>) j c g (\<lambda>oper. is_process_io_kind (so_kind oper))"
    by (intro claims_op_put)
      (auto simp: process_claims_def op_update_def same_identity_def)
next
  fix j assume "j \<in> process_owners pr"
  with assms show "claims_op (d\<lparr>operations := put i oper (operations d)\<rparr>) j c g (process_claim p)"
    by (intro claims_op_put)
      (auto simp: process_claims_def op_update_def unclaimed_def process_claim_def same_identity_def)
qed

lemma op_update_identity: "op_update d i oper \<Longrightarrow> map_of (operations d) i = Some old \<Longrightarrow> same_identity old oper"
  by (simp add: op_update_def)

lemma inv_records_put:
  assumes "inv_records d" "op_update d i oper"
  shows "inv_records (d\<lparr>operations := put i oper (operations d)\<rparr>)"
  using assms by (auto simp: inv_records_def record_ok_def
      intro!: container_claims_put created_put dest: op_update_identity)

lemma inv_processesD:
  assumes "inv_processes d" "process_table d i = Some ps"
  shows "distinct_keys ps"
    and "\<exists>r. live_record d i = Some r \<and> (\<forall>p pr. map_of ps p = Some pr \<longrightarrow> process_ok d i (generation_of r) p pr)"
  using assms unfolding inv_processes_def by blast+

lemma inv_processes_put:
  assumes "inv_processes d" "op_update d i oper"
  shows "inv_processes (d\<lparr>operations := put i oper (operations d)\<rparr>)"
  unfolding inv_processes_def
proof (intro allI impI)
  fix c ps assume ps: "process_table (d\<lparr>operations := put i oper (operations d)\<rparr>) c = Some ps"
  then obtain r where r: "distinct_keys ps" "live_record d c = Some r"
    "\<And>p pr. map_of ps p = Some pr \<Longrightarrow> process_ok d c (generation_of r) p pr"
    using inv_processesD [OF assms(1), of c ps] by (simp only: process_table_frame) blast
  have "process_ok (d\<lparr>operations := put i oper (operations d)\<rparr>) c (generation_of r) p pr"
    if "map_of ps p = Some pr" for p pr
    using r(3) [OF that] that ps assms(2)
    by (auto simp: process_ok_def intro!: executed_put process_claims_put dest: op_update_identity)
  with r show "distinct_keys ps \<and> (\<exists>r. live_record (d\<lparr>operations := put i oper (operations d)\<rparr>) c = Some r
      \<and> (\<forall>p pr. map_of ps p = Some pr \<longrightarrow>
           process_ok (d\<lparr>operations := put i oper (operations d)\<rparr>) c (generation_of r) p pr))"
    by simp
qed

lemma inv_creation_put:
  assumes "inv_creation d" "\<And>old. map_of (operations d) i = Some old \<Longrightarrow> same_identity old oper"
    and "map_of (operations d) i = None \<Longrightarrow> is_creation (so_kind oper) \<Longrightarrow>
           \<not> created d (so_container_id oper) (so_generation oper)"
  shows "inv_creation (d\<lparr>operations := put i oper (operations d)\<rparr>)"
proof (cases "map_of (operations d) i")
  case None
  with assms(1,3) show ?thesis
    unfolding inv_creation_def created_def by simp metis
next
  case (Some old)
  with assms(2) have "same_identity old oper" by simp
  with Some assms(1) show ?thesis
    unfolding inv_creation_def same_identity_def by simp metis
qed

text \<open>A write to the operation directory keeps the invariant.\<close>

lemma store_inv_put:
  assumes inv: "store_inv x d" and upd: "op_update d i oper" and ok: "op_ok x d i oper"
    and new: "map_of (operations d) i = None \<Longrightarrow> is_creation (so_kind oper) \<Longrightarrow>
           \<not> created d (so_container_id oper) (so_generation oper)"
  shows "store_inv x (d\<lparr>operations := put i oper (operations d)\<rparr>)"
proof -
  have "inv_operations x (d\<lparr>operations := put i oper (operations d)\<rparr>)"
    using inv ok by (auto simp: store_inv_def inv_operations_def)
  moreover have "inv_creation (d\<lparr>operations := put i oper (operations d)\<rparr>)"
    using inv new op_update_identity [OF upd] by (intro inv_creation_put) (auto simp: store_inv_def)
  moreover have "journal_inv x (d\<lparr>operations := put i oper (operations d)\<rparr>)"
    using inv by (simp add: store_inv_def)
  ultimately show ?thesis
    using inv inv_records_put [OF _ upd] inv_processes_put [OF _ upd]
    by (auto simp: store_inv_def inv_generations_def inv_layout_def)
qed

lemma store_invD:
  assumes "store_inv x d"
  shows "journal_inv x d" "inv_operations x d" "inv_creation d" "inv_generations d" "inv_records d"
    "inv_processes d" "inv_layout d"
  using assms by (simp_all add: store_inv_def)

lemma record_okI: "store_inv x d \<Longrightarrow> live_record d i = Some r \<Longrightarrow> record_ok d i r"
  by (simp add: store_inv_def inv_records_def)

lemma op_okI: "store_inv x d \<Longrightarrow> map_of (operations d) i = Some oper \<Longrightarrow> op_ok x d i oper"
  by (simp add: store_inv_def inv_operations_def)

lemma live_record_dir: "live_record d i = Some r \<Longrightarrow> map_of (directories d) (Live i) \<noteq> None"
  by (cases "map_of (directories d) (Live i)") (simp_all add: live_record_def)

lemma process_table_dir: "process_table d i = Some ps \<Longrightarrow> map_of (directories d) (Live i) \<noteq> None"
  by (cases "map_of (directories d) (Live i)") (simp_all add: process_table_def)

text \<open>A write below the container directories keeps the invariant when it keeps its own part.\<close>

lemma store_inv_dirs:
  assumes "store_inv x d" "journal_inv x d' = journal_inv x d" "operations d' = operations d"
    "generations d' = generations d" "inv_records d'" "inv_processes d'"
    "distinct_keys (directories d')" "\<And>i. map_of (directories d') (Live i) \<noteq> None \<Longrightarrow> valid_id i"
  shows "store_inv x d'"
  using assms by (simp add: store_inv_def inv_operations_def inv_creation_def inv_generations_def
      inv_layout_def op_ok_def last_generation_def)

lemma distinct_keys_update_dir [simp]: "distinct_keys (directories d) \<Longrightarrow> distinct_keys (directories (update_dir k f d))"
  by (auto simp: update_dir_def split: option.split)

lemma distinct_keys_move_dir [simp]: "distinct_keys (directories d) \<Longrightarrow> distinct_keys (directories (move_dir a b d))"
  by (auto simp: move_dir_def split: option.split)

lemma inv_processes_dirs:
  assumes inv: "inv_processes d" and ops: "\<And>i. process_table d' i = process_table d i \<or> process_table d' i = None"
    and gens: "\<And>i ps r. process_table d' i = Some ps \<Longrightarrow> live_record d i = Some r \<Longrightarrow>
                 \<exists>r'. live_record d' i = Some r' \<and> generation_of r' = generation_of r"
    and ok: "process_ok d' = process_ok d"
  shows "inv_processes d'"
  unfolding inv_processes_def
proof (intro allI impI)
  fix i ps assume ps: "process_table d' i = Some ps"
  then have old: "process_table d i = Some ps" using ops [of i] by auto
  obtain r where r: "live_record d i = Some r"
    "\<forall>p pr. map_of ps p = Some pr \<longrightarrow> process_ok d i (generation_of r) p pr"
    using inv_processesD(2) [OF inv old] by blast
  obtain r' where r': "live_record d' i = Some r'" "generation_of r' = generation_of r"
    using gens [OF ps r(1)] by blast
  show "distinct_keys ps \<and> (\<exists>r. live_record d' i = Some r
      \<and> (\<forall>p pr. map_of ps p = Some pr \<longrightarrow> process_ok d' i (generation_of r) p pr))"
    using inv_processesD(1) [OF inv old] r' r(2) unfolding ok by metis
qed

lemma allocate_inv:
  assumes inv: "store_inv x d" and g: "checked_succ (last_generation d i) = Some g" and i: "valid_id i"
  shows "store_inv x (d\<lparr>generations := put i \<lparr>sg_schema_version = GENERATION_SCHEMA_VERSION, sg_id = i,
                                               sg_last_generation = g\<rparr> (generations d)\<rparr>)"
proof -
  let ?d = "d\<lparr>generations := put i \<lparr>sg_schema_version = GENERATION_SCHEMA_VERSION, sg_id = i,
                                               sg_last_generation = g\<rparr> (generations d)\<rparr>"
  have le: "last_generation d j \<le> last_generation ?d j" for j
    using checked_succ_SomeD(1) [OF g] by (auto simp: less_imp_le)
  have "inv_operations x ?d"
    unfolding inv_operations_def
  proof (intro allI impI)
    fix j oper assume "map_of (operations ?d) j = Some oper"
    then have "op_ok x d j oper" using inv by (simp add: op_okI)
    then show "op_ok x ?d j oper"
      unfolding op_ok_def using le [of "so_container_id oper"] by (meson order_trans)
  qed
  moreover have "inv_records ?d"
    unfolding inv_records_def
  proof (intro allI impI)
    fix j r assume "live_record ?d j = Some r"
    then have "record_ok d j r" using record_okI [OF inv] by simp
    then show "record_ok ?d j r"
      unfolding record_ok_def claims_cong_dirs using le [of j] by (meson order_trans)
  qed
  moreover have "inv_processes ?d"
    using inv by (auto simp: store_inv_def inv_processes_def)
  moreover have "inv_generations ?d"
    using inv i checked_succ_SomeD(3) [OF g] by (auto simp: store_inv_def inv_generations_def generation_ok_def)
  ultimately show ?thesis
    using inv by (auto simp: store_inv_def inv_creation_def inv_layout_def)
qed

lemma settle_inv:
  assumes inv: "store_inv x d" and op: "map_of (operations d) i = Some oper"
    and shape: "validate_stored_operation_shape x (oper\<lparr>so_outcome := out\<rparr>) = Inr ()"
    and cl: "unclaimed d i \<or> is_creation (so_kind oper) \<and> is_failed out
       \<or> (\<not> active_claim oper \<and> (\<forall>p. \<not> process_claim p oper))"
  shows "store_inv x (d\<lparr>operations := put i (oper\<lparr>so_outcome := out\<rparr>) (operations d)\<rparr>)"
proof (rule store_inv_put [OF inv])
  have ok: "op_ok x d i oper" using op_okI [OF inv op] .
  then show "op_ok x d i (oper\<lparr>so_outcome := out\<rparr>)"
    using shape by (simp add: op_ok_def)
  have "so_process_id oper = None" if "is_creation (so_kind oper)"
    using ok that by (auto simp: op_ok_def is_creation_def is_process_kind_def)
  then show "op_update d i (oper\<lparr>so_outcome := out\<rparr>)"
    using op cl by (auto simp: op_update_def active_claim_def)
qed (simp add: op)


lemma inv_layoutD:
  assumes "store_inv x d"
  shows "distinct_keys (directories d)" "map_of (directories d) (Live i) \<noteq> None \<Longrightarrow> valid_id i"
  using assms by (simp_all add: store_inv_def inv_layout_def)

lemma record_step_ok:
  assumes "record_ok d i r" "record_step r r'" "container_claims d r'"
  shows "record_ok d i r'" and "generation_of r' = generation_of r"
proof -
  have "sc_record r' = (sc_record r)\<lparr>cr_state := cr_state (sc_record r')\<rparr>"
    using assms(2) by (simp add: record_step_def)
  then show g: "generation_of r' = generation_of r" by (metis ContainerRecord.select_convs(2) ContainerRecord.surjective ContainerRecord.update_convs(1))
  show "record_ok d i r'"
    using assms g by (simp add: record_ok_def record_step_def state_step_def)
qed

lemma update_record_inv:
  assumes inv: "store_inv x d" and dir: "map_of (directories d) (Live i) \<noteq> None" and ok: "record_ok d i r'"
    and same: "\<And>r. live_record d i = Some r \<Longrightarrow> generation_of r' = generation_of r"
  shows "store_inv x (update_dir (Live i) (\<lambda>c. c\<lparr>cd_record := Some r'\<rparr>) d)"
proof (rule store_inv_dirs [OF inv])
  let ?d = "update_dir (Live i) (\<lambda>c. c\<lparr>cd_record := Some r'\<rparr>) d"
  show "inv_records ?d"
    unfolding inv_records_def using record_okI [OF inv] ok by auto
  show "inv_processes ?d"
  proof (rule inv_processes_dirs [OF store_invD(6) [OF inv]])
    fix j ps r assume "live_record d j = Some r"
    then show "\<exists>r'. live_record ?d j = Some r' \<and> generation_of r' = generation_of r"
      using dir same by auto
  qed simp_all
qed (use inv_layoutD [OF inv] in \<open>auto split: if_splits\<close>)

lemma mkdir_inv:
  assumes inv: "store_inv x d" and "map_of (directories d) (Live i) = None" "valid_id i"
  shows "store_inv x (d\<lparr>directories := put (Live i) empty_dir (directories d)\<rparr>)"
proof (rule store_inv_dirs [OF inv])
  let ?d = "d\<lparr>directories := put (Live i) empty_dir (directories d)\<rparr>"
  show "inv_records ?d"
    unfolding inv_records_def using record_okI [OF inv] by auto
  show "inv_processes ?d"
    by (rule inv_processes_dirs [OF store_invD(6) [OF inv]]) (auto split: if_splits)
qed (use inv_layoutD [OF inv] assms in \<open>auto split: if_splits\<close>)

lemma move_inv:
  assumes inv: "store_inv x d"
  shows "store_inv x (move_dir (Live i) (Quarantined t) d)"
proof (rule store_inv_dirs [OF inv])
  let ?d = "move_dir (Live i) (Quarantined t) d"
  show "inv_records ?d"
    unfolding inv_records_def using record_okI [OF inv] by auto
  show "inv_processes ?d"
    by (rule inv_processes_dirs [OF store_invD(6) [OF inv]]) (auto split: if_splits)
qed (use inv_layoutD [OF inv] in \<open>auto simp: lookup_move_dir split: if_splits option.splits\<close>)

lemma config_inv:
  assumes inv: "store_inv x d"
  shows "store_inv x (update_dir (Live i) (\<lambda>c. c\<lparr>cd_config := Some cfg\<rparr>) d)"
proof (rule store_inv_dirs [OF inv])
  show "inv_records (update_dir (Live i) (\<lambda>c. c\<lparr>cd_config := Some cfg\<rparr>) d)"
    unfolding inv_records_def using record_okI [OF inv] by auto
  show "inv_processes (update_dir (Live i) (\<lambda>c. c\<lparr>cd_config := Some cfg\<rparr>) d)"
    by (rule inv_processes_dirs [OF store_invD(6) [OF inv]]) auto
qed (use inv_layoutD [OF inv] in \<open>auto split: if_splits\<close>)

text \<open>A new process table and a write to an existing one.\<close>

lemma processes_inv:
  assumes inv: "store_inv x d" and r: "live_record d i = Some r"
    and tab: "\<And>j. process_table d' j = (if j = i then Some ps else process_table d j)"
    and ps: "distinct_keys ps" "\<And>p pr. map_of ps p = Some pr \<Longrightarrow> process_ok d i (generation_of r) p pr"
    and d': "d' = update_dir (Live i) (\<lambda>c. c\<lparr>cd_processes := f c\<rparr>) d"
  shows "store_inv x d'"
proof (rule store_inv_dirs [OF inv])
  show "inv_records d'"
    unfolding inv_records_def d' using record_okI [OF inv] by auto
  show "inv_processes d'"
    unfolding inv_processes_def
  proof (intro allI impI)
    fix j qs assume q: "process_table d' j = Some qs"
    have live: "live_record d' = live_record d" and ok: "process_ok d' = process_ok d" by (simp_all add: d')
    show "distinct_keys qs \<and> (\<exists>r. live_record d' j = Some r
        \<and> (\<forall>p pr. map_of qs p = Some pr \<longrightarrow> process_ok d' j (generation_of r) p pr))"
    proof (cases "j = i")
      case True
      with q tab ps r show ?thesis unfolding live ok by auto
    next
      case False
      with q tab show ?thesis
        unfolding live ok using inv_processesD [OF store_invD(6) [OF inv], of j qs] by simp
    qed
  qed
qed (use inv_layoutD [OF inv] d' in \<open>auto split: if_splits\<close>)

lemma process_step_ok:
  assumes "process_ok d i g p pr" "process_step pr pr'" "process_claims d i g p pr'"
  shows "process_ok d i g p pr'"
  using assms by (auto simp: process_ok_def process_step_def)

lemma journal_inv_step:
  assumes inv: "store_inv x d" and j: "journal_call x d d'"
  shows "store_inv x d'"
proof -
  note f = journal_call_frame [OF j]
  have v: "live_record d' = live_record d" "process_table d' = process_table d"
    "last_generation d' = last_generation d"
    using views_cong [OF f] by simp_all
  have c: "container_claims d' = container_claims d" "process_claims d' = process_claims d"
    "created d' = created d" "executed d' = executed d"
    using claims_cong [OF f(2)] by simp_all
  have "op_ok x d' = op_ok x d" "record_ok d' = record_ok d" "process_ok d' = process_ok d"
    by (simp_all add: op_ok_def record_ok_def process_ok_def v c fun_eq_iff)
  then show ?thesis
    using inv journal_call_inv [OF j] by (simp add: store_inv_def inv_defs v f)
qed

text \<open>The invariant holds after every step.\<close>

lemma store_step_inv:
  assumes "store_step x d d'" "store_inv x d"
  shows "store_inv x d'"
  using assms
proof (induction rule: store_step.induct)
  case (Allocate d i g)
  then show ?case by (intro allocate_inv)
next
  case (Prepare d i oper)
  then show ?case by (intro store_inv_put) (auto simp: op_update_def)
next
  case (Settle d i oper out)
  then show ?case by (intro settle_inv) auto
next
  case (Rebind d i oper out)
  have "\<not> active_claim oper \<and> (\<forall>p. \<not> process_claim p oper)"
    using Rebind.hyps(2)
    by (cases "so_outcome oper"; cases out) (auto simp: active_claim_def process_claim_def)
  with Rebind show ?case by (intro settle_inv) auto
next
  case (MakeDirectory d i)
  then show ?case by (intro mkdir_inv)
next
  case (WriteConfig d i c cfg)
  then show ?case by (intro config_inv)
next
  case (NewRecord d i r)
  then show ?case by (intro update_record_inv) auto
next
  case (UpdateRecord d i r r')
  note ok = record_step_ok [OF record_okI [OF UpdateRecord.prems UpdateRecord.hyps(1)] UpdateRecord.hyps(2,3)]
  show ?case
  proof (rule update_record_inv [OF UpdateRecord.prems live_record_dir [OF UpdateRecord.hyps(1)] ok(1)])
    fix r2 assume "live_record d i = Some r2"
    then have "r2 = r" using UpdateRecord.hyps(1) by (metis option.inject)
    then show "generation_of r' = generation_of r2" by (simp only: ok(2))
  qed
next
  case (MakeProcesses d i r)
  then show ?case
    using live_record_dir [OF MakeProcesses.hyps(1)]
    by (intro processes_inv [where i = i and r = r and ps = "[]" and f = "\<lambda>_. Some []", OF MakeProcesses.prems])
      simp_all
next
  case (NewProcess d i r ps p pr)
  have "process_ok d i (generation_of r) q qr" if "map_of ps q = Some qr" for q qr
    using inv_processesD(2) [OF store_invD(6) [OF NewProcess.prems] NewProcess.hyps(2)] NewProcess.hyps(1) that
    by auto
  with NewProcess inv_processesD(1) [OF store_invD(6) [OF NewProcess.prems] NewProcess.hyps(2)] show ?case
    by (intro processes_inv [where i = i and r = r and ps = "put p pr ps"
          and f = "\<lambda>c. map_option (put p pr) (cd_processes c)", OF NewProcess.prems]) (simp_all split: if_splits)
next
  case (UpdateProcess d i r ps p pr pr')
  have old: "process_ok d i (generation_of r) q qr" if "map_of ps q = Some qr" for q qr
    using inv_processesD(2) [OF store_invD(6) [OF UpdateProcess.prems] UpdateProcess.hyps(2)]
      UpdateProcess.hyps(1) that by auto
  have "process_ok d i (generation_of r) p pr'"
    by (rule process_step_ok [OF old [OF UpdateProcess.hyps(3)] UpdateProcess.hyps(4,5)])
  with UpdateProcess old inv_processesD(1) [OF store_invD(6) [OF UpdateProcess.prems] UpdateProcess.hyps(2)]
  show ?case
    by (intro processes_inv [where i = i and r = r and ps = "put p pr' ps"
          and f = "\<lambda>c. map_option (put p pr') (cd_processes c)", OF UpdateProcess.prems]) (simp_all split: if_splits)
next
  case (Quarantine d i r t oper)
  then show ?case by (intro move_inv)
next
  case (Journal d d')
  show ?case by (rule journal_inv_step [OF Journal.prems Journal.hyps])
qed

interpretation store: preserved "store_step x" "store_inv x" for x
  by unfold_locales (rule store_step_inv)

section \<open>What no step undoes\<close>

text \<open>Outcomes are final: a failure and an empty success stay as recorded, a successful response can
  only be rebound to a recovered process.\<close>

definition op_le :: "StoredOperation \<Rightarrow> StoredOperation \<Rightarrow> bool" where
  "op_le a b \<longleftrightarrow> (\<exists>out. b = a\<lparr>so_outcome := out\<rparr>
     \<and> (so_outcome a = Prepared \<or> out = so_outcome a \<or> outcome_rebinds (so_outcome a) out))"

definition store_le :: "disk \<Rightarrow> disk \<Rightarrow> bool" where
  "store_le d d' \<longleftrightarrow>
     (\<forall>i oper. map_of (operations d) i = Some oper \<longrightarrow>
        (\<exists>oper'. map_of (operations d') i = Some oper' \<and> op_le oper oper'))
     \<and> (\<forall>i. last_generation d i \<le> last_generation d' i)
     \<and> cursor_last d \<le> cursor_last d'
     \<and> (\<forall>h c. map_of (event_claims d) h = Some c \<longrightarrow> map_of (event_claims d') h = Some c)
     \<and> (\<forall>q r. map_of (event_records d) q = Some r \<longrightarrow> map_of (event_records d') q = Some r)"

lemma rebinds_refl [simp]: "rebinds r r"
  by (simp add: rebinds_def)

lemma rebinds_trans: "rebinds a b \<Longrightarrow> rebinds b c \<Longrightarrow> rebinds a c"
  unfolding rebinds_def by (metis ContainerRecord.surjective ContainerRecord.update_convs(1))

lemma outcome_rebinds_trans:
  "outcome_rebinds a b \<Longrightarrow> outcome_rebinds b c \<Longrightarrow> outcome_rebinds a c"
  by (cases a; cases b; cases c) (auto intro: rebinds_trans)

lemma outcome_rebinds_Prepared [simp]: "\<not> outcome_rebinds Prepared b" "\<not> outcome_rebinds a Prepared"
  by (cases a; simp)+

lemma op_le_outcome:
  "so_outcome a = Prepared \<or> out = so_outcome a \<or> outcome_rebinds (so_outcome a) out \<Longrightarrow>
     op_le a (a\<lparr>so_outcome := out\<rparr>)"
  by (auto simp: op_le_def)

lemma op_le_refl [simp]: "op_le a a"
  using op_le_outcome [of a "so_outcome a"] by simp

lemma op_le_trans:
  assumes "op_le a b" "op_le b c"
  shows "op_le a c"
proof -
  obtain o1 where b: "b = a\<lparr>so_outcome := o1\<rparr>"
    and o1: "so_outcome a = Prepared \<or> o1 = so_outcome a \<or> outcome_rebinds (so_outcome a) o1"
    using assms(1) by (auto simp: op_le_def)
  obtain o2 where c: "c = b\<lparr>so_outcome := o2\<rparr>"
    and o2: "so_outcome b = Prepared \<or> o2 = so_outcome b \<or> outcome_rebinds (so_outcome b) o2"
    using assms(2) by (auto simp: op_le_def)
  have "c = a\<lparr>so_outcome := o2\<rparr>" by (simp add: c b)
  moreover have "so_outcome a = Prepared \<or> o2 = so_outcome a \<or> outcome_rebinds (so_outcome a) o2"
    using o1 o2 outcome_rebinds_trans [of "so_outcome a" o1 o2] unfolding b by auto
  ultimately show ?thesis by (simp add: op_le_outcome)
qed

lemma store_le_refl [simp]: "store_le d d"
  by (simp add: store_le_def)

lemma store_le_trans: "store_le d e \<Longrightarrow> store_le e f \<Longrightarrow> store_le d f"
  unfolding store_le_def by (meson op_le_trans order_trans)

lemma cursor_last_frame [simp]:
  "cursor_last (d\<lparr>operations := ops\<rparr>) = cursor_last d" "cursor_last (d\<lparr>generations := gs\<rparr>) = cursor_last d"
  "cursor_last (d\<lparr>directories := ds\<rparr>) = cursor_last d" "cursor_last (update_dir k f d) = cursor_last d"
  "cursor_last (move_dir a b d) = cursor_last d"
  by (simp_all add: cursor_last_def)

lemma store_le_put:
  assumes "\<And>old. map_of (operations d) i = Some old \<Longrightarrow> op_le old oper"
  shows "store_le d (d\<lparr>operations := put i oper (operations d)\<rparr>)"
  using assms op_le_refl by (simp add: store_le_def)

lemma store_step_le: "store_step x d d' \<Longrightarrow> store_le d d'"
proof (induction rule: store_step.induct)
  case (Allocate d i g)
  then show ?case using checked_succ_SomeD(1) [OF Allocate.hyps(1)] by (auto simp: store_le_def)
next
  case (Prepare d i oper)
  then show ?case by (intro store_le_put) simp
next
  case (Settle d i oper out)
  then show ?case by (intro store_le_put) (simp add: op_le_outcome)
next
  case (Rebind d i oper out)
  then show ?case by (intro store_le_put) (simp add: op_le_outcome)
next
  case (Journal d d')
  then show ?case
    using journal_steps_le [of x d d'] views_cong [OF journal_call_frame [OF Journal.hyps]]
    by (simp add: journal_call_def journal_le_def store_le_def)
qed (simp_all add: store_le_def)

lemma store_steps_le: "(store_step x)\<^sup>*\<^sup>* d d' \<Longrightarrow> store_le d d'"
  by (induction rule: rtranclp_induct) (auto intro: store_le_trans store_step_le)

end
