(* ===== verification/Store_Runs.thy ===== *)
theory Store_Runs
  imports Store_Steps
begin

text \<open>
  The refinement calculus: rules that reduce \<open>runs m P s\<close> to one obligation per committed write,
  with the contracts of the loading, claiming and event functions the operations are built from.
\<close>

section \<open>The judgement\<close>

named_theorems runs_rules \<open>introduction rules for the refinement judgement\<close>

definition runs :: "'a store_m \<Rightarrow> ('a \<Rightarrow> DurableStateStore \<Rightarrow> bool) \<Rightarrow> DurableStateStore \<Rightarrow> bool" where
  "runs m P s \<longleftrightarrow> (store_inv (ext s) (disk s) \<longrightarrow>
     evolves (store_step (ext s)) m (\<lambda>r s'. \<forall>v. r = Inr v \<longrightarrow> P v s') s)"

lemma runsD:
  assumes "runs m P s" "store_inv (ext s) (disk s)" "m s = (r, s')"
  shows "(store_step (ext s))\<^sup>*\<^sup>* (disk s) (disk s')" "same_env s s'" "store_inv (ext s') (disk s')"
    "r = Inr v \<Longrightarrow> P v s'"
proof -
  have ev: "evolves (store_step (ext s)) m (\<lambda>r s'. \<forall>v. r = Inr v \<longrightarrow> P v s') s"
    using assms by (simp add: runs_def)
  note e = evolvesD [OF ev assms(3)]
  show "(store_step (ext s))\<^sup>*\<^sup>* (disk s) (disk s')" "same_env s s'" "r = Inr v \<Longrightarrow> P v s'"
    using e by auto
  show "store_inv (ext s') (disk s')"
    using store.steps_preserve [OF e(1) assms(2)] e(2) by (simp add: same_env_def)
qed

lemma runs_mono:
  assumes "runs m P s" "\<And>v s'. P v s' \<Longrightarrow> same_env s s' \<Longrightarrow> store_inv (ext s') (disk s') \<Longrightarrow> Q v s'"
  shows "runs m Q s"
  unfolding runs_def
proof
  assume inv: "store_inv (ext s) (disk s)"
  with assms(1) have "evolves (store_step (ext s)) m (\<lambda>r s'. \<forall>v. r = Inr v \<longrightarrow> P v s') s"
    by (simp add: runs_def)
  then show "evolves (store_step (ext s)) m (\<lambda>r s'. \<forall>v. r = Inr v \<longrightarrow> Q v s') s"
  proof (rule evolves_mono)
    fix r s'
    assume "(store_step (ext s))\<^sup>*\<^sup>* (disk s) (disk s')" "same_env s s'" "\<forall>v. r = Inr v \<longrightarrow> P v s'"
    then show "\<forall>v. r = Inr v \<longrightarrow> Q v s'"
      using assms(2) store.steps_preserve [OF _ inv, of "disk s'"] by (simp add: same_env_def)
  qed
qed

lemma runs_bind [runs_rules]:
  assumes "runs m (\<lambda>v s'. runs (f v) P s') s"
  shows "runs (m_bind m f) P s"
  unfolding runs_def
proof
  assume inv: "store_inv (ext s) (disk s)"
  then have "evolves (store_step (ext s)) m (\<lambda>r s'. \<forall>v. r = Inr v \<longrightarrow> runs (f v) P s') s"
    using assms by (simp add: runs_def)
  then show "evolves (store_step (ext s)) (m_bind m f) (\<lambda>r s'. \<forall>v. r = Inr v \<longrightarrow> P v s') s"
  proof (intro evolves_bind, elim evolves_mono, goal_cases)
    case (1 r s')
    have "store_inv (ext s') (disk s')"
      using store.steps_preserve [OF 1(2) inv] 1(3) by (simp add: same_env_def)
    with 1 show ?case
      by (cases r) (auto simp: runs_def same_env_def)
  qed
qed

lemma runs_return [runs_rules]: "P v s \<Longrightarrow> runs (m_return v) P s"
  by (simp add: runs_def evolves_return)

lemma runs_throw [runs_rules]: "runs (m_throw e) P s"
  by (simp add: runs_def evolves_throw)

lemma runs_lift [runs_rules]: "(\<And>v. r = Inr v \<Longrightarrow> P v s) \<Longrightarrow> runs (m_lift r) P s"
  by (simp add: runs_def evolves_lift)

lemma runs_gets [runs_rules]: "P (f s) s \<Longrightarrow> runs (m_gets f) P s"
  by (simp add: runs_def evolves_gets)

lemma runs_on_disk [runs_rules]: "P (f (disk s)) s \<Longrightarrow> runs (on_disk f) P s"
  by (simp add: runs_def evolves_on_disk)

lemma runs_external [runs_rules]: "(\<And>v. f (ext s) = Inr v \<Longrightarrow> P v s) \<Longrightarrow> runs (external f) P s"
  by (simp add: runs_def evolves_external)

lemma runs_reject [runs_rules]: "(\<not> c \<Longrightarrow> P () s) \<Longrightarrow> runs (m_reject c e) P s"
  by (auto simp: runs_def intro!: evolves_reject)

lemma runs_if [runs_rules]:
  "(c \<Longrightarrow> runs m P s) \<Longrightarrow> (\<not> c \<Longrightarrow> runs n P s) \<Longrightarrow> runs (if c then m else n) P s"
  by simp

lemma runs_let [runs_rules]: "runs (f v) P s \<Longrightarrow> runs (Let v f) P s"
  by (simp add: Let_def)

lemma runs_case_option [runs_rules]:
  "(v = None \<Longrightarrow> runs m P s) \<Longrightarrow> (\<And>y. v = Some y \<Longrightarrow> runs (f y) P s) \<Longrightarrow>
     runs (case v of None \<Rightarrow> m | Some y \<Rightarrow> f y) P s"
  by (cases v) auto

lemma runs_case_sum [runs_rules]:
  "(\<And>e. v = Inl e \<Longrightarrow> runs (m e) P s) \<Longrightarrow> (\<And>y. v = Inr y \<Longrightarrow> runs (f y) P s) \<Longrightarrow>
     runs (case v of Inl e \<Rightarrow> m e | Inr y \<Rightarrow> f y) P s"
  by (cases v) auto

lemma runs_case_prod [runs_rules]:
  "(\<And>a b. v = (a, b) \<Longrightarrow> runs (f a b) P s) \<Longrightarrow> runs (case v of (a, b) \<Rightarrow> f a b) P s"
  by (cases v) auto

lemma runs_read_only:
  assumes "read_only m" "\<And>v. store_inv (ext s) (disk s) \<Longrightarrow> m s = (Inr v, s) \<Longrightarrow> P v s"
  shows "runs m P s"
  unfolding runs_def
proof (intro impI evolves_read_only [OF assms(1)] allI)
  fix v assume "store_inv (ext s) (disk s)" "fst (m s) = Inr v"
  moreover have "m s = (fst (m s), s)"
    using assms(1) by (simp add: read_only_def prod_eq_iff)
  ultimately show "P v s" using assms(2) by metis
qed

lemma runs_try_read_only:
  assumes "read_only m" "\<And>e. P (Inl e) s"
    "\<And>v. store_inv (ext s) (disk s) \<Longrightarrow> m s = (Inr v, s) \<Longrightarrow> P (Inr v) s"
  shows "runs (m_try m) P s"
proof (rule runs_read_only [OF read_only_try [OF assms(1)]])
  fix v assume "store_inv (ext s) (disk s)" "m_try m s = (Inr v, s)"
  then show "P v s"
    using assms(2,3) by (cases v) (auto simp: m_try_def split: prod.splits)
qed

lemma runs_write [runs_rules]:
  assumes "store_inv (ext s) (disk s) \<Longrightarrow> store_step (ext s) (disk s) (replace_file path content (disk s))"
    and "\<And>s'. same_env s s' \<Longrightarrow> disk s' = replace_file path content (disk s) \<Longrightarrow> P () s'"
  shows "runs (atomic_write mutation path content) P s"
  unfolding runs_def by (intro impI evolves_write) (use assms in auto)

lemma runs_move [runs_rules]:
  assumes "store_inv (ext s) (disk s) \<Longrightarrow> map_of (directories (disk s)) b = None \<Longrightarrow>
             store_step (ext s) (disk s) (move_dir a b (disk s))"
    and "\<And>s'. same_env s s' \<Longrightarrow> disk s' = move_dir a b (disk s) \<Longrightarrow>
           map_of (directories (disk s)) b = None \<Longrightarrow> P () s'"
  shows "runs (atomic_move_directory mutation a b) P s"
  unfolding runs_def by (intro impI evolves_move) (use assms in auto)

lemma runs_modify_disk:
  assumes "store_inv (ext s) (disk s) \<Longrightarrow> store_step (ext s) (disk s) (f (disk s))"
    and "\<And>s'. same_env s s' \<Longrightarrow> disk s' = f (disk s) \<Longrightarrow> P () s'"
  shows "runs (m_modify (\<lambda>s. s\<lparr>disk := f (disk s)\<rparr>)) P s"
  unfolding runs_def by (intro impI evolves_modify_disk) (use assms in \<open>auto simp: same_env_def\<close>)

lemma runs_foreach:
  assumes "I s" "\<And>y s'. y \<in> set ys \<Longrightarrow> I s' \<Longrightarrow> same_env s s' \<Longrightarrow> runs (f y) (\<lambda>_. I) s'"
    and "\<And>s'. I s' \<Longrightarrow> same_env s s' \<Longrightarrow> P () s'"
  shows "runs (m_foreach ys f) P s"
  using assms
proof (induction ys arbitrary: s)
  case Nil
  then show ?case by (simp add: runs_return)
next
  case (Cons y ys)
  show ?case
    unfolding m_foreach.simps
  proof (rule runs_bind, rule runs_mono)
    show "runs (f y) (\<lambda>_. I) s" using Cons.prems by simp
  next
    fix v s' assume I: "I s'" and env: "same_env s s'"
    show "runs (m_foreach ys f) P s'"
    proof (rule Cons.IH [OF I])
      fix z t assume "z \<in> set ys" "I t" "same_env s' t"
      then show "runs (f z) (\<lambda>_. I) t"
        using Cons.prems(2) [of z t] same_env_trans [OF env] by simp
    next
      fix t assume "I t" "same_env s' t"
      then show "P () t" using Cons.prems(3) same_env_trans [OF env] by simp
    qed
  qed
qed

lemma runs_on_record_outcome [runs_rules]:
  "(outcome = Prepared \<Longrightarrow> runs m P s) \<Longrightarrow> (\<And>r. outcome = Succeeded r \<Longrightarrow> runs (f r) P s) \<Longrightarrow>
     runs (on_record_outcome name outcome f m) P s"
  by (cases outcome) (auto simp: on_record_outcome_def runs_throw)

lemma runs_on_empty_outcome [runs_rules]:
  "(outcome = Prepared \<Longrightarrow> runs m P s) \<Longrightarrow> (outcome = SucceededEmpty \<Longrightarrow> runs n P s) \<Longrightarrow>
     runs (on_empty_outcome name outcome n m) P s"
  by (cases outcome) (auto simp: on_empty_outcome_def runs_throw)

lemma runs_on_process_outcome [runs_rules]:
  "(outcome = Prepared \<Longrightarrow> runs m P s) \<Longrightarrow> (\<And>r. outcome = SucceededProcess r \<Longrightarrow> runs (f r) P s) \<Longrightarrow>
     runs (on_process_outcome name outcome f m) P s"
  by (cases outcome) (auto simp: on_process_outcome_def runs_throw)

section \<open>Loading\<close>

lemma load_operation_read_only [read_only_intros]: "read_only (load_operation i)"
  by (auto simp: load_operation_def intro!: read_only_intros)

lemma load_operation_if_present_read_only [read_only_intros]: "read_only (load_operation_if_present i)"
  by (auto simp: load_operation_if_present_def split: option.split intro!: read_only_intros)

lemma load_bundle_read_only [read_only_intros]: "read_only (load_bundle_from_directory r k)" "read_only (load_bundle r)"
  by (auto simp: load_bundle_from_directory_def load_bundle_def intro!: read_only_intros)

lemma load_container_read_only [read_only_intros]:
  "read_only (load_stored_container_from_directory i k)" "read_only (load_stored_container i)"
  "read_only (load_stored_exact i g)"
  by (auto simp: load_stored_container_from_directory_def load_stored_container_def load_stored_exact_def
      intro!: read_only_intros)

lemma runs_inv: "(store_inv (ext s) (disk s) \<Longrightarrow> runs m P s) \<Longrightarrow> runs m P s"
  by (auto simp: runs_def)

lemma runs_try:
  assumes "read_only m" "\<And>e. P (Inl e) s" "runs m (\<lambda>v s'. P (Inr v) s') s"
  shows "runs (m_try m) P s"
  using assms(2) runsD(4) [OF assms(3)] by (intro runs_try_read_only [OF assms(1)]) blast+

lemma runs_load_operation [runs_rules]:
  assumes "\<And>oper. map_of (operations (disk s)) i = Some oper \<Longrightarrow> op_ok (ext s) (disk s) i oper \<Longrightarrow> P oper s"
  shows "runs (load_operation i) P s"
  unfolding load_operation_def
  by (rule runs_inv, intro runs_rules) (use assms op_okI in auto)

lemma runs_load_operation_if_present [runs_rules]:
  assumes "map_of (operations (disk s)) i = None \<Longrightarrow> P None s"
    and "\<And>oper. map_of (operations (disk s)) i = Some oper \<Longrightarrow> op_ok (ext s) (disk s) i oper \<Longrightarrow> P (Some oper) s"
  shows "runs (load_operation_if_present i) P s"
  unfolding load_operation_if_present_def
  by (intro runs_rules) (use assms in auto)

lemma runs_load_bundle [runs_rules]:
  assumes "\<And>b. P b s"
  shows "runs (load_bundle r) P s"
  unfolding load_bundle_def load_bundle_from_directory_def by (intro runs_rules assms)

lemma runs_load_stored_container [runs_rules]:
  assumes "\<And>r. live_record (disk s) i = Some r \<Longrightarrow> record_ok (disk s) i r \<Longrightarrow> P r s"
  shows "runs (load_stored_container i) P s"
  unfolding load_stored_container_def load_stored_container_from_directory_def load_bundle_from_directory_def
  by (rule runs_inv, intro runs_rules) (use assms record_okI in \<open>auto simp: live_record_def\<close>)

lemma runs_load_stored_exact [runs_rules]:
  assumes "\<And>r. live_record (disk s) i = Some r \<Longrightarrow> record_ok (disk s) i r \<Longrightarrow> generation_of r = g \<Longrightarrow> P r s"
  shows "runs (load_stored_exact i g) P s"
  unfolding load_stored_exact_def
  by (intro runs_bind runs_try load_container_read_only runs_load_stored_container runs_rules)
    (use assms in auto)

lemma runs_validate_deadline [runs_rules]: "P () s \<Longrightarrow> runs (validate_deadline c name) P s"
  unfolding validate_deadline_def by (intro runs_rules) auto

section \<open>Writing\<close>

lemma op_ok_id: "op_ok x d i oper \<Longrightarrow> so_operation_id oper = i"
  by (simp add: op_ok_def)

definition is_extension_kind :: "StoredOperationKind \<Rightarrow> bool" where
  "is_extension_kind k \<longleftrightarrow> k \<in> {KFile, KFilesystem, KCheckpoint, KRestore, KAttest}"

text \<open>Which outcomes an operation of a given kind may be given.\<close>

lemma shape_lifecycle:
  assumes "op_ok x d i oper" "\<not> is_extension_kind (so_kind oper)" "\<not> is_extension_outcome out"
  shows "validate_stored_operation_shape x (oper\<lparr>so_outcome := out\<rparr>) = Inr ()"
  using assms
  by (cases "so_kind oper") (auto simp: op_ok_def is_extension_kind_def validate_stored_operation_shape_def
      validate_lifecycle_shape_def)

lemma shape_prepared:
  assumes "\<not> is_extension_kind (so_kind oper)" "so_outcome oper = Prepared" "so_request oper = None"
  shows "validate_stored_operation_shape x oper = Inr ()"
  using assms by (cases "so_kind oper") (auto simp: is_extension_kind_def validate_stored_operation_shape_def
      validate_lifecycle_shape_def is_extension_outcome_def)

lemma runs_prepare_operation:
  assumes new: "map_of (operations (disk s)) (so_operation_id oper) = None"
    and ok: "store_inv (ext s) (disk s) \<Longrightarrow> op_ok (ext s) (disk s) (so_operation_id oper) oper"
    and prep: "so_outcome oper = Prepared"
    and creation: "store_inv (ext s) (disk s) \<Longrightarrow> is_creation (so_kind oper) \<Longrightarrow>
       \<not> created (disk s) (so_container_id oper) (so_generation oper)"
    and P: "\<And>s'. same_env s s' \<Longrightarrow>
       disk s' = (disk s)\<lparr>operations := put (so_operation_id oper) oper (operations (disk s))\<rparr> \<Longrightarrow> P () s'"
  shows "runs (write_operation m oper) P s"
  unfolding write_operation_def
  by (rule runs_write) (use assms in \<open>auto intro!: store_step.Prepare\<close>)

lemma runs_settle:
  assumes op: "map_of (operations (disk s)) i = Some oper" "op_ok (ext s) (disk s) i oper"
    "so_outcome oper = Prepared" "out \<noteq> Prepared"
    and shape: "validate_stored_operation_shape (ext s) (oper\<lparr>so_outcome := out\<rparr>) = Inr ()"
    and cl: "store_inv (ext s) (disk s) \<Longrightarrow> unclaimed (disk s) i \<or> is_creation (so_kind oper) \<and> is_failed out"
    and P: "\<And>s'. same_env s s' \<Longrightarrow>
       disk s' = (disk s)\<lparr>operations := put i (oper\<lparr>so_outcome := out\<rparr>) (operations (disk s))\<rparr> \<Longrightarrow> P () s'"
  shows "runs (write_operation m (oper\<lparr>so_outcome := out\<rparr>)) P s"
  unfolding write_operation_def
  by (rule runs_write) (use assms op_ok_id [OF op(2)] in \<open>auto intro!: store_step.Settle\<close>)

lemma runs_rebind:
  assumes op: "map_of (operations (disk s)) i = Some oper" "op_ok (ext s) (disk s) i oper"
    "outcome_rebinds (so_outcome oper) out"
    and shape: "validate_stored_operation_shape (ext s) (oper\<lparr>so_outcome := out\<rparr>) = Inr ()"
    and P: "\<And>s'. same_env s s' \<Longrightarrow>
       disk s' = (disk s)\<lparr>operations := put i (oper\<lparr>so_outcome := out\<rparr>) (operations (disk s))\<rparr> \<Longrightarrow> P () s'"
  shows "runs (write_operation m (oper\<lparr>so_outcome := out\<rparr>)) P s"
  unfolding write_operation_def
  by (rule runs_write) (use assms op_ok_id [OF op(2)] in \<open>auto intro!: store_step.Rebind\<close>)

text \<open>What a rewritten container record leaves alone.\<close>

definition record_written :: "disk \<Rightarrow> ContainerId \<Rightarrow> StoredContainer \<Rightarrow> disk \<Rightarrow> bool" where
  "record_written d i r' d' \<longleftrightarrow>
     d' = update_dir (Live i) (\<lambda>c. c\<lparr>cd_record := Some r'\<rparr>) d \<and> map_of (directories d) (Live i) \<noteq> None"

lemma record_writtenD:
  assumes "record_written d i r' d'"
  shows "live_record d' j = (if j = i then Some r' else live_record d j)"
    "operations d' = operations d" "process_table d' = process_table d" "last_generation d' = last_generation d"
    "generations d' = generations d"
  using assms by (simp_all add: record_written_def)

lemma runs_update_record:
  assumes r: "live_record (disk s) i = Some r"
    and step: "store_inv (ext s) (disk s) \<Longrightarrow> record_step r r'"
    and claims: "store_inv (ext s) (disk s) \<Longrightarrow> container_claims (disk s) r'"
    and P: "\<And>s'. same_env s s' \<Longrightarrow> record_written (disk s) i r' (disk s') \<Longrightarrow> P () s'"
  shows "runs (write_container m i r') P s"
  unfolding write_container_def
  by (rule runs_write) (use assms live_record_dir [OF r] in \<open>auto simp: record_written_def intro!: store_step.UpdateRecord\<close>)


section \<open>Events\<close>

text \<open>The journal holds an event of this container incarnation and kind.\<close>

definition published :: "disk \<Rightarrow> ContainerTarget \<Rightarrow> RuntimeEventKind \<Rightarrow> bool" where
  "published d target kind \<longleftrightarrow> (\<exists>e. ev_container e = target \<and> ev_kind e = kind \<and> recorded d e)"

lemma published_mono: "store_le d d' \<Longrightarrow> published d target kind \<Longrightarrow> published d' target kind"
  by (auto simp: published_def recorded_def store_le_def)

text \<open>What appending an event leaves alone.\<close>

definition only_journal :: "disk \<Rightarrow> disk \<Rightarrow> bool" where
  "only_journal d d' \<longleftrightarrow>
     directories d' = directories d \<and> operations d' = operations d \<and> generations d' = generations d
     \<and> store_le d d'"

lemma only_journalD:
  assumes "only_journal d d'"
  shows "live_record d' = live_record d" "process_table d' = process_table d"
    "last_generation d' = last_generation d" "operations d' = operations d"
    "generations d' = generations d" "directories d' = directories d" "store_le d d'"
  using assms views_cong [of d' d] by (simp_all add: only_journal_def)

lemma runs_journal:
  assumes "store_inv (ext s) (disk s) \<Longrightarrow> evolves (journal_call (ext s)) m (\<lambda>r. event_appended r target kind) s"
    and P: "\<And>e s'. same_env s s' \<Longrightarrow> only_journal (disk s) (disk s') \<Longrightarrow> published (disk s') target kind \<Longrightarrow> P e s'"
  shows "runs m P s"
  unfolding runs_def
proof
  assume inv: "store_inv (ext s) (disk s)"
  have "evolves (journal_call (ext s)) m (\<lambda>r s'. \<forall>v. r = Inr v \<longrightarrow> P v s') s"
    using assms(1) [OF inv]
  proof (rule evolves_mono, intro allI impI)
    fix r s' v
    assume steps: "(journal_call (ext s))\<^sup>*\<^sup>* (disk s) (disk s')" and env: "same_env s s'"
      and ev: "event_appended r target kind s'" and r: "r = Inr v"
    have j: "journal_call (ext s) (disk s) (disk s')" by (rule journal_call_steps [OF steps])
    have "only_journal (disk s) (disk s')"
      using journal_call_frame [OF j] store_step_le [OF store_step.Journal [OF j]]
      by (simp add: only_journal_def)
    moreover have "published (disk s') target kind"
      using ev r unfolding event_appended_def published_def recorded_def
      by (intro exI [of _ v]) (auto simp: event_record_def)
    ultimately show "P v s'" using P env by blast
  qed
  then show "evolves (store_step (ext s)) m (\<lambda>r s'. \<forall>v. r = Inr v \<longrightarrow> P v s') s"
    by (rule evolves_relax) (rule store_step.Journal)
qed

lemma runs_append_container_event [runs_rules]:
  assumes "fmlookup attrs ATTR_OPERATION_ID = None"
    and "\<And>e s'. same_env s s' \<Longrightarrow> only_journal (disk s) (disk s') \<Longrightarrow> published (disk s') target kind \<Longrightarrow> P e s'"
  shows "runs (append_container_event suf target kind attrs) P s"
  by (rule runs_journal [where target = target and kind = kind])
    (use assms in \<open>auto intro!: append_container_event_evolves dest: store_invD\<close>)

lemma runs_append_process_event [runs_rules]:
  assumes "fmlookup attrs ATTR_OPERATION_ID = None"
    and "\<And>e s'. same_env s s' \<Longrightarrow> only_journal (disk s) (disk s') \<Longrightarrow> published (disk s') target kind \<Longrightarrow> P e s'"
  shows "runs (append_process_event suf target pid kind attrs) P s"
  by (rule runs_journal [where target = target and kind = kind])
    (use assms in \<open>auto intro!: append_process_event_evolves dest: store_invD\<close>)

lemma runs_append_operation_event [runs_rules]:
  assumes "valid_id oid" "suf \<noteq> []" "CHR '':'' \<notin> set suf"
    and "\<And>e s'. same_env s s' \<Longrightarrow> only_journal (disk s) (disk s') \<Longrightarrow> published (disk s') target kind \<Longrightarrow> P e s'"
  shows "runs (append_operation_event oid suf target pid kind attrs) P s"
  by (rule runs_journal [where target = target and kind = kind])
    (use assms in \<open>auto intro!: append_operation_event_evolves dest: store_invD\<close>)

section \<open>Claims and generations\<close>

lemma container_claims_mono:
  assumes "container_claims d r" "sc_id r' = sc_id r" "generation_of r' = generation_of r"
    and "sc_active_operation r' \<in> {None, sc_active_operation r}" "sc_init_io_operations r' \<subseteq> sc_init_io_operations r"
  shows "container_claims d r'"
  using assms by (auto simp: container_claims_def)

lemma container_claims_claim:
  assumes "container_claims d r" "sc_id r' = sc_id r" "generation_of r' = generation_of r"
    and "sc_init_io_operations r' \<subseteq> sc_init_io_operations r"
    and "sc_active_operation r' = Some i" "claims_op d i (sc_id r) (generation_of r) active_claim"
  shows "container_claims d r'"
  using assms by (auto simp: container_claims_def)

lemma record_step_claims [simp]:
  assumes "state_ok (cr_state (sc_record r))"
  shows "record_step r (r\<lparr>sc_active_operation := a\<rparr>)"
    "record_step r (r\<lparr>sc_init_io_operations := ios\<rparr>)"
    "record_step r (r\<lparr>sc_active_operation := a, sc_init_io_operations := ios\<rparr>)"
  using assms by (simp_all add: record_step_def state_step_def lifecycle_step_def)

lemma record_step_trans_claims: "record_step r r' \<Longrightarrow> record_step r (r'\<lparr>sc_active_operation := a\<rparr>)"
  by (simp add: record_step_def)

text \<open>An operation no record names is not owned by anything, because claims fix their container,
  generation and process.\<close>

lemma unclaimed_container:
  assumes inv: "store_inv x d" and op: "map_of (operations d) i = Some oper" "so_process_id oper = None"
    and r: "\<And>r. live_record d (so_container_id oper) = Some r \<Longrightarrow> generation_of r = so_generation oper \<Longrightarrow>
          sc_active_operation r \<noteq> Some i"
  shows "unclaimed d i"
  unfolding unclaimed_def
proof (intro conjI allI impI)
  fix c r assume c: "live_record d c = Some r"
  then have cl: "container_claims d r" "sc_id r = c" using record_okI [OF inv c] by (auto simp: record_ok_def)
  show "sc_active_operation r \<noteq> Some i"
  proof
    assume "sc_active_operation r = Some i"
    with cl op(1) have "so_container_id oper = c" "so_generation oper = generation_of r"
      by (auto simp: container_claims_def claims_op_def)
    with r c \<open>sc_active_operation r = Some i\<close> show False by simp
  qed
  show "i \<notin> sc_init_io_operations r"
    using cl op by (auto simp: container_claims_def claims_op_def init_io_claim_def process_claim_def)
next
  fix c ps p pr assume "process_table d c = Some ps" "map_of ps p = Some pr"
  then have "\<exists>g. process_claims d c g p pr"
    using inv_processesD(2) [OF store_invD(6) [OF inv]] by (meson process_ok_def)
  then show "i \<notin> process_owners pr"
    using op by (auto simp: process_claims_def claims_op_def process_claim_def)
qed

lemma unclaimed_process:
  assumes inv: "store_inv x d" and op: "map_of (operations d) i = Some oper" "so_process_id oper = Some p"
    and r: "\<And>r. live_record d (so_container_id oper) = Some r \<Longrightarrow> generation_of r = so_generation oper \<Longrightarrow>
          sc_active_operation r \<noteq> Some i \<and> (is_init p \<longrightarrow> i \<notin> sc_init_io_operations r)
          \<and> (\<forall>ps pr. process_table d (so_container_id oper) = Some ps \<longrightarrow> map_of ps p = Some pr \<longrightarrow>
               i \<notin> process_owners pr)"
  shows "unclaimed d i"
  unfolding unclaimed_def
proof (intro conjI allI impI)
  fix c r assume c: "live_record d c = Some r"
  then have cl: "container_claims d r" "sc_id r = c" using record_okI [OF inv c] by (auto simp: record_ok_def)
  show "sc_active_operation r \<noteq> Some i"
  proof
    assume a: "sc_active_operation r = Some i"
    with cl op(1) have "so_container_id oper = c" "so_generation oper = generation_of r"
      by (auto simp: container_claims_def claims_op_def)
    with assms(4) c a show False by simp
  qed
  show "i \<notin> sc_init_io_operations r"
  proof
    assume a: "i \<in> sc_init_io_operations r"
    with cl op have "so_container_id oper = c" "so_generation oper = generation_of r" "is_init p"
      by (auto simp: container_claims_def claims_op_def init_io_claim_def process_claim_def is_init_def)
    with assms(4) c a show False by simp
  qed
next
  fix c ps q pr assume ps: "process_table d c = Some ps" "map_of ps q = Some pr"
  obtain r where c: "live_record d c = Some r" "process_claims d c (generation_of r) q pr"
    using inv_processesD(2) [OF store_invD(6) [OF inv] ps(1)] ps(2) by (meson process_ok_def)
  show "i \<notin> process_owners pr"
  proof
    assume a: "i \<in> process_owners pr"
    with c(2) op have "so_container_id oper = c" "so_generation oper = generation_of r" "q = p"
      by (auto simp: process_claims_def claims_op_def process_claim_def)
    with assms(4) c(1) ps a show False by simp
  qed
qed

lemma active_claim_prepared:
  "so_outcome oper = Prepared \<Longrightarrow> so_process_id oper = None \<Longrightarrow> active_claim oper"
  by (simp add: active_claim_def)

lemma runs_ensure_active [runs_rules]:
  "(sc_active_operation r \<in> {None, Some i} \<Longrightarrow> P () s) \<Longrightarrow> runs (m_lift (ensure_active_operation r i name)) P s"
  by (intro runs_lift) (auto simp: ensure_active_operation_def split: option.splits if_splits)

lemma runs_validate_retry [runs_rules]:
  "(so_kind oper = k \<Longrightarrow> so_container_id oper = c \<Longrightarrow> P () s) \<Longrightarrow>
     runs (m_lift (validate_retry oper k c digests name)) P s"
  by (intro runs_lift) (auto simp: validate_retry_def r_bind_Inr_iff)

lemma runs_validate_requested_generation [runs_rules]:
  "(\<forall>g. ct_generation target = Some g \<longrightarrow> generation_of r = g \<Longrightarrow> P () s) \<Longrightarrow>
     runs (m_lift (validate_requested_generation r target name)) P s"
  by (intro runs_lift) (auto simp: validate_requested_generation_def split: option.splits)

text \<open>A migrated claim moves from the active slot to the init I/O set.\<close>

lemma runs_migrate_legacy_init_io_claim [runs_rules]:
  assumes ok: "container_claims (disk s) r"
    and none: "P (None, r) s"
    and some: "\<And>j r'. sc_active_operation r = Some j \<Longrightarrow>
       r' = r\<lparr>sc_active_operation := None, sc_init_io_operations := insert j (sc_init_io_operations r)\<rparr> \<Longrightarrow>
       container_claims (disk s) r' \<Longrightarrow> P (Some j, r') s"
  shows "runs (migrate_legacy_init_io_claim r) P s"
  unfolding migrate_legacy_init_io_claim_def
proof (intro runs_rules none)
  fix j oper v
  assume j: "sc_active_operation r = Some j" and op: "map_of (operations (disk s)) j = Some oper"
    and k: "\<not> \<not> is_process_io_kind (so_kind oper)"
    and v: "validate_legacy_io_operation oper (sc_id r) (generation_of r) True = Inr v"
  have "claims_op (disk s) j (sc_id r) (generation_of r) init_io_claim"
    using op k v by (auto simp: validate_legacy_io_operation_def Let_def claims_op_def init_io_claim_def process_claim_def
        is_init_def split: option.splits)
  then have "container_claims (disk s) (r\<lparr>sc_active_operation := None,
      sc_init_io_operations := insert j (sc_init_io_operations r)\<rparr>)"
    using ok by (simp add: container_claims_def)
  with some j show "P (Some j, r\<lparr>sc_active_operation := None,
      sc_init_io_operations := insert j (sc_init_io_operations r)\<rparr>) s" by blast
qed

text \<open>A granted claim changes nothing but the owner fields of the record.\<close>

definition claim_granted :: "disk \<Rightarrow> ContainerId \<Rightarrow> StoredContainer \<Rightarrow> OperationId \<Rightarrow> StoredContainer \<Rightarrow> disk \<Rightarrow> bool" where
  "claim_granted d c r i r' d' \<longleftrightarrow>
     live_record d' c = Some r' \<and> sc_active_operation r' = Some i
     \<and> r' = r\<lparr>sc_active_operation := Some i, sc_init_io_operations := sc_init_io_operations r'\<rparr>
     \<and> operations d' = operations d \<and> process_table d' = process_table d
     \<and> last_generation d' = last_generation d \<and> generations d' = generations d"

lemma claim_grantedD:
  assumes "claim_granted d c r i r' d'"
  shows "live_record d' c = Some r'" "sc_active_operation r' = Some i" "sc_record r' = sc_record r"
    "sc_id r' = sc_id r" "operations d' = operations d" "process_table d' = process_table d"
    "last_generation d' = last_generation d"
proof -
  have r': "r' = r\<lparr>sc_active_operation := Some i, sc_init_io_operations := sc_init_io_operations r'\<rparr>"
    using assms by (simp add: claim_granted_def)
  show "sc_record r' = sc_record r" "sc_id r' = sc_id r" by (subst r', simp)+
qed (use assms in \<open>simp_all add: claim_granted_def\<close>)

lemma runs_claim_active_operation:
  assumes r: "live_record (disk s) c = Some r" "record_ok (disk s) c r"
    and op: "map_of (operations (disk s)) i = Some oper" "so_container_id oper = c"
      "so_generation oper = generation_of r" "active_claim oper"
    and P: "\<And>r' s'. same_env s s' \<Longrightarrow> claim_granted (disk s) c r i r' (disk s') \<Longrightarrow> P r' s'"
  shows "runs (claim_active_operation r i m name) P s"
proof -
  have id: "sc_id r = c" and cl: "container_claims (disk s) r" and st: "state_ok (cr_state (sc_record r))"
    using r(2) by (simp_all add: record_ok_def)
  have wr: "runs (write_container m (sc_id r) u) (\<lambda>_. runs (m_return u) P) s"
    if u: "u = r\<lparr>sc_active_operation := Some i, sc_init_io_operations := ios\<rparr>"
      and ios: "container_claims (disk s) (r\<lparr>sc_active_operation := None, sc_init_io_operations := ios\<rparr>)" for u ios
  proof (intro runs_update_record [where r = r] runs_return)
    show "live_record (disk s) (sc_id r) = Some r" using id r(1) by simp
    show "record_step r u" using st u by simp
    show "container_claims (disk s) u"
      using ios op u id by (auto simp: container_claims_def claims_op_def)
  next
    fix s' assume "same_env s s'" and w: "record_written (disk s) (sc_id r) u (disk s')"
    then show "P u s'"
      using u id by (intro P) (auto simp: claim_granted_def record_writtenD [OF w])
  qed
  have wr2: "runs (write_container m (sc_id r) (r\<lparr>sc_init_io_operations := ios, sc_active_operation := Some i\<rparr>))
      (\<lambda>_. runs (m_return (r\<lparr>sc_init_io_operations := ios, sc_active_operation := Some i\<rparr>)) P) s"
    if "container_claims (disk s) (r\<lparr>sc_active_operation := None, sc_init_io_operations := ios\<rparr>)" for ios
    using that by (intro wr [where ios = ios]) simp_all
  have cl0: "container_claims (disk s) (r\<lparr>sc_active_operation := None, sc_init_io_operations := sc_init_io_operations r\<rparr>)"
    using cl by (auto intro: container_claims_mono)
  show ?thesis
    unfolding claim_active_operation_def Let_def
  proof (intro runs_if)
    assume a: "sc_active_operation r = Some i"
    then have "claim_granted (disk s) c r i r (disk s)" using r(1) by (simp add: claim_granted_def)
    then show "runs (m_return r) P s" by (intro runs_return P) (simp_all add: same_env_def)
  next
    show "runs (m_bind (case sc_active_operation r of None \<Rightarrow> m_return r
           | Some active \<Rightarrow> m_bind (migrate_legacy_init_io_claim r) (\<lambda>(migrated, stored').
               m_bind (m_reject (migrated = None) (state_error Conflict name)) (\<lambda>_.
               m_bind (m_reject (m \<in> {ClaimOperation KDelete, ClaimOperation KCheckpoint})
                         (retryable True (state_error Conflict name))) (\<lambda>_. m_return stored'))))
         (\<lambda>u. m_bind (write_container m (sc_id (u\<lparr>sc_active_operation := Some i\<rparr>)) (u\<lparr>sc_active_operation := Some i\<rparr>))
               (\<lambda>_. m_return (u\<lparr>sc_active_operation := Some i\<rparr>)))) P s"
      by (intro runs_bind runs_case_option runs_migrate_legacy_init_io_claim cl runs_case_prod
          runs_reject runs_return)
        (auto intro: wr [OF _ cl0] wr2)
  qed
qed

text \<open>A new generation is above every generation an operation or record was given.\<close>

definition allocated :: "disk \<Rightarrow> ContainerId \<Rightarrow> Generation \<Rightarrow> disk \<Rightarrow> bool" where
  "allocated d i g d' \<longleftrightarrow>
     d' = d\<lparr>generations := put i \<lparr>sg_schema_version = GENERATION_SCHEMA_VERSION, sg_id = i,
                                 sg_last_generation = g\<rparr> (generations d)\<rparr>
     \<and> checked_succ (last_generation d i) = Some g"

lemma allocatedD:
  assumes "allocated d i g d'"
  shows "live_record d' = live_record d" "operations d' = operations d" "directories d' = directories d"
    "last_generation d' i = g" "last_generation d i < g" "g \<noteq> 0" "created d' = created d"
  using assms checked_succ_SomeD [of "last_generation d i" g] by (auto simp: allocated_def)

lemma not_created_above:
  assumes "store_inv x d" "last_generation d i < g"
  shows "\<not> created d i g"
  using op_okI [OF assms(1)] assms(2) by (fastforce simp: created_def op_ok_def)

lemma runs_next_generation:
  assumes i: "valid_id i"
    and P: "\<And>g s'. same_env s s' \<Longrightarrow> allocated (disk s) i g (disk s') \<Longrightarrow> P g s'"
  shows "runs (next_generation i) P s"
  unfolding next_generation_def
  by (intro runs_rules)
    (use i P in \<open>auto simp: allocated_def last_generation_def intro!: store_step.Allocate\<close>)

end
