(* ===== verification/Operation_Contracts.thy ===== *)
theory Operation_Contracts
  imports Store_Runs
begin

text \<open>
  What the two phases of every store operation have in common.  \<open>prepare_*\<close> journals the operation and
  claims the container record before the driver is called; \<open>complete_*\<close> releases the record, publishes the
  event and settles the outcome.  The steps the methods share are defined here, with the contracts
  (\<open>record_prepared\<close>, \<open>record_completed\<close>) every one of them is proved against.
\<close>

section \<open>Shared steps\<close>

definition active_allows_rebind :: "StoredContainer \<Rightarrow> StoredOperationKind set \<Rightarrow> bool store_m" where
  "active_allows_rebind stored kinds =
     (case sc_active_operation stored of
        Some operation_id \<Rightarrow>
          m_bind (load_operation operation_id) (\<lambda>active.
            m_return (so_kind active \<in> kinds \<and> so_container_id active = sc_id stored
                      \<and> so_generation active = cr_generation (sc_record stored)
                      \<and> so_outcome active = Prepared))
      | None \<Rightarrow> m_return True)"

text \<open>\<open>if is_paused(..) { rebuild_paused_state(.., true) }\<close>.\<close>

definition with_pause :: "bool \<Rightarrow> State \<Rightarrow> error + State" where
  "with_pause paused state = (if paused then rebuild_paused_state state True else Inr state)"

text \<open>The \<open>map_err\<close> of an illegal lifecycle transition.\<close>

definition lift_transition :: "string \<Rightarrow> LifecycleState \<Rightarrow> LifecycleEvent \<Rightarrow> error + LifecycleState" where
  "lift_transition operation state event =
     map_err (\<lambda>_. state_error FailedPrecondition operation) (transition state event)"

text \<open>Decimal rendering of a signed integer.\<close>

definition int_to_string :: "int \<Rightarrow> string" where
  "int_to_string n = (if n < 0 then ''-'' @ print_nat (nat (- n)) else print_nat (nat n))"

text \<open>The tail of every \<open>prepare_*\<close> method for a new operation on an existing container: the operation
  record is written first, then the container record is claimed.\<close>

definition claim_new_operation ::
  "OperationId \<Rightarrow> StoredOperationKind \<Rightarrow> ContainerTarget \<Rightarrow> StoredContainer \<Rightarrow> RequestDigests \<Rightarrow> string
     \<Rightarrow> ContainerRecord store_m" where
  "claim_new_operation operation_id kind target stored digest operation =
     m_bind (write_operation (PrepareOperation kind)
               (prepared_operation operation_id kind (ct_id target)
                  (cr_generation (sc_record stored)) None digest)) (\<lambda>_.
     m_bind (claim_active_operation stored operation_id (ClaimOperation kind) operation) (\<lambda>stored.
       m_return (sc_record stored)))"

text \<open>\<open>if stored.active_operation.is_some() { release and write }\<close>.\<close>

definition release_if_owned :: "StoredOperationKind \<Rightarrow> ContainerId \<Rightarrow> StoredContainer \<Rightarrow> unit store_m" where
  "release_if_owned kind i stored =
     (case sc_active_operation stored of
        None \<Rightarrow> m_return ()
      | Some _ \<Rightarrow> write_container (ReconcileContainer kind) i (stored\<lparr>sc_active_operation := None\<rparr>))"

section \<open>State documents follow the lifecycle\<close>

lemma paused_rebuild_state:
  "rebuild_state st status pid = Inr st' \<Longrightarrow> is_paused st' \<longleftrightarrow> is_paused st \<and> status \<noteq> StStopped"
  by (cases "st_annotations st") (auto simp: rebuild_state_def is_paused_def split: if_splits)

lemma state_step_rebuild:
  assumes "rebuild_state st status pid = Inr st'" "state_ok st" "lifecycle_step (st_status st) status"
    and "status \<in> {StCreated, StRunning} \<Longrightarrow> \<exists>p > 0. pid = Some p"
    and "status \<in> {StCreating, StStopped} \<Longrightarrow> pid = None"
    and "status \<in> {StRunning, StStopped} \<or> st_status st \<noteq> StRunning"
  shows "state_step st st'"
  using assms rebuild_state_sel [OF assms(1)] paused_rebuild_state [OF assms(1)]
  by (cases status) (auto simp: state_step_def state_ok_def)

lemma state_step_pause:
  assumes "rebuild_paused_state st b = Inr st'" "state_ok st"
  shows "state_step st st'"
  using assms rebuild_paused_state_sel [OF assms(1)]
  by (auto simp: state_step_def state_ok_def lifecycle_step_def)

lemma record_step_state:
  assumes "state_step (cr_state (sc_record r)) st"
  shows "record_step r (r\<lparr>sc_record := (sc_record r)\<lparr>cr_state := st\<rparr>\<rparr>)"
  using assms by (simp add: record_step_def)

lemma lifecycle_stepI: "transition (lifecycle_state a) e = Inr (lifecycle_state b) \<Longrightarrow> lifecycle_step a b"
  by (auto simp: lifecycle_step_def)

section \<open>What a prepared and a settled operation leave on disk\<close>

text \<open>The operation is prepared and owns the live record the caller was given.\<close>

definition owns :: "disk \<Rightarrow> OperationId \<Rightarrow> StoredOperationKind \<Rightarrow> ContainerId \<Rightarrow> ContainerRecord \<Rightarrow> bool" where
  "owns d i k c rec \<longleftrightarrow> (\<exists>oper r. map_of (operations d) i = Some oper \<and> so_kind oper = k
     \<and> so_container_id oper = c \<and> so_outcome oper = Prepared \<and> so_generation oper = cr_generation rec
     \<and> live_record d c = Some r \<and> sc_record r = rec \<and> sc_active_operation r = Some i)"

definition settled :: "disk \<Rightarrow> OperationId \<Rightarrow> StoredOperationKind \<Rightarrow> ContainerId \<Rightarrow> StoredOperationStatus \<Rightarrow> bool" where
  "settled d i k c out \<longleftrightarrow> (\<exists>oper. map_of (operations d) i = Some oper \<and> so_kind oper = k
     \<and> so_container_id oper = c \<and> so_outcome oper = out)"

lemma settledI:
  "map_of (operations d) i = Some oper \<Longrightarrow> settled d i (so_kind oper) (so_container_id oper) (so_outcome oper)"
  by (auto simp: settled_def)

text \<open>The contract of every \<open>prepare_*\<close> method that answers with a container record.\<close>

definition record_prepared ::
  "OperationId \<Rightarrow> StoredOperationKind \<Rightarrow> ContainerId \<Rightarrow> RecordOperationPreparation \<Rightarrow> DurableStateStore \<Rightarrow> bool" where
  "record_prepared i k c v s \<longleftrightarrow>
     (case v of
        PreparedRecord rec \<Rightarrow> owns (disk s) i k c rec
      | ResumeRecord rec \<Rightarrow> owns (disk s) i k c rec
      | ReplayedRecord rec \<Rightarrow> settled (disk s) i k c (Succeeded rec))"

lemma owns_frame:
  assumes "owns d i k c rec" "live_record d' = live_record d" "operations d' = operations d"
  shows "owns d' i k c rec"
  using assms by (simp add: owns_def)

lemma ownsI:
  assumes "claim_granted d c r i r' d'" "map_of (operations d) i = Some oper" "so_kind oper = k"
    "so_container_id oper = c" "so_outcome oper = Prepared" "so_generation oper = generation_of r"
  shows "owns d' i k c (sc_record r')"
  using assms claim_grantedD [OF assms(1)] unfolding owns_def by auto

lemma live_record_fold: "Option.bind (map_of (directories d) (Live i)) cd_record = v \<Longrightarrow> live_record d i = v"
  by (simp add: live_record_def)

lemma record_written_self:
  "record_written d i r d' \<Longrightarrow> live_record d' i = Some r"
  "record_written d i r d' \<Longrightarrow> operations d' = operations d"
  by (auto dest: record_writtenD(2)) (simp add: record_writtenD(1))

lemma active_allows_rebind_read_only [read_only_intros]: "read_only (active_allows_rebind r ks)"
  by (auto simp: active_allows_rebind_def intro!: read_only_intros)

lemma runs_active_allows_rebind [runs_rules]: "(\<And>b. P b s) \<Longrightarrow> runs (active_allows_rebind r ks) P s"
  by (rule runs_read_only [OF active_allows_rebind_read_only]) blast

text \<open>Rebuilding a state document keeps what a rebound response must keep.\<close>

definition rebound_from :: "State \<Rightarrow> State \<Rightarrow> bool" where
  "rebound_from st st' \<longleftrightarrow> st_id st' = st_id st \<and> st_version st' = st_version st
     \<and> st_bundle st' = st_bundle st \<and> st_status st' = st_status st"

lemma rebound_from_rebuild [intro]:
  "rebuild_state st status pid = Inr st' \<Longrightarrow> status = st_status st \<Longrightarrow> rebound_from st st'"
  by (simp add: rebound_from_def rebuild_state_sel)

lemma rebound_from_pause [intro]: "rebound_from st st' \<Longrightarrow> with_pause b st' = Inr st'' \<Longrightarrow> rebound_from st st''"
  by (auto simp: rebound_from_def with_pause_def rebuild_paused_state_sel split: if_splits)

lemma rebound_from_rebuild_paused [intro]:
  "rebound_from st st' \<Longrightarrow> rebuild_paused_state st' b = Inr st'' \<Longrightarrow> rebound_from st st''"
  by (simp add: rebound_from_def rebuild_paused_state_sel)

lemma settled_put:
  "settled (d\<lparr>operations := put i (oper\<lparr>so_outcome := out\<rparr>) ops\<rparr>) i (so_kind oper) (so_container_id oper) out"
  by (simp add: settled_def)

text \<open>A finished operation of a lifecycle kind whose response follows the recovered process.\<close>

lemma runs_rebind_response:
  assumes "map_of (operations (disk s)) i = Some oper" "op_ok (ext s) (disk s) i oper"
    "so_outcome oper = Succeeded response" "\<not> is_extension_kind (so_kind oper)"
    and "rebound_from (cr_state response) st"
    and "\<And>s'. same_env s s' \<Longrightarrow> settled (disk s') i (so_kind oper) (so_container_id oper)
           (Succeeded (response\<lparr>cr_state := st\<rparr>)) \<Longrightarrow> P () s'"
  shows "runs (write_operation m (oper\<lparr>so_outcome := Succeeded (response\<lparr>cr_state := st\<rparr>)\<rparr>)) P s"
proof (rule runs_rebind [OF assms(1,2)])
  show "outcome_rebinds (so_outcome oper) (Succeeded (response\<lparr>cr_state := st\<rparr>))"
    using assms(3,5) by (simp add: rebinds_def rebound_from_def)
  show "validate_stored_operation_shape (ext s) (oper\<lparr>so_outcome := Succeeded (response\<lparr>cr_state := st\<rparr>)\<rparr>) = Inr ()"
    using assms(2,4) by (rule shape_lifecycle) (simp add: is_extension_outcome_def)
qed (use assms(6) settled_put in simp)

lemma prepared_operation_sel [simp]:
  "so_operation_id (prepared_operation i k c g p dg) = i" "so_kind (prepared_operation i k c g p dg) = k"
  "so_container_id (prepared_operation i k c g p dg) = c" "so_generation (prepared_operation i k c g p dg) = g"
  "so_process_id (prepared_operation i k c g p dg) = p" "so_outcome (prepared_operation i k c g p dg) = Prepared"
  "so_request (prepared_operation i k c g p dg) = None"
  "so_schema_version (prepared_operation i k c g p dg) = OPERATION_SCHEMA_VERSION"
  by (simp_all add: prepared_operation_def)

lemma prepared_operation_ok:
  assumes "valid_id i" "valid_id c" "\<not> is_extension_kind k" "g \<noteq> 0" "g \<le> last_generation d c"
    "(p \<noteq> None) = is_process_kind k"
  shows "op_ok x d i (prepared_operation i k c g p dg)"
  using assms shape_prepared [of "prepared_operation i k c g p dg" x]
  by (simp add: op_ok_def supported_schema_def)

lemma published_frame [simp]:
  "published (d\<lparr>operations := ops\<rparr>) = published d" "published (update_dir k f d) = published d"
  by (simp_all add: published_def recorded_def fun_eq_iff)

lemma op_ok_frame: "op_ok x d i oper \<Longrightarrow> last_generation d' = last_generation d \<Longrightarrow> op_ok x d' i oper"
  by (simp add: op_ok_def)

lemma lifecycle_process_none:
  "op_ok x d i oper \<Longrightarrow> \<not> is_process_kind (so_kind oper) \<Longrightarrow> so_process_id oper = None"
  by (auto simp: op_ok_def)

lemma lifecycle_kinds [simp]:
  "\<not> is_extension_kind KCreate" "\<not> is_extension_kind KStart" "\<not> is_extension_kind KKill"
  "\<not> is_extension_kind KDelete" "\<not> is_extension_kind KPause" "\<not> is_extension_kind KResume"
  "\<not> is_extension_kind KUpdate" "\<not> is_extension_kind KExec" "\<not> is_extension_kind KSignalProcess"
  "\<not> is_extension_kind KWriteStdin" "\<not> is_extension_kind KCloseStdin" "\<not> is_extension_kind KResize"
  "\<not> is_process_kind KCreate" "\<not> is_process_kind KStart" "\<not> is_process_kind KKill"
  "\<not> is_process_kind KDelete" "\<not> is_process_kind KPause" "\<not> is_process_kind KResume"
  "\<not> is_process_kind KUpdate"
  "is_process_kind KExec" "is_process_kind KSignalProcess" "is_process_kind KWriteStdin"
  "is_process_kind KCloseStdin" "is_process_kind KResize"
  by (simp_all add: is_extension_kind_def is_process_kind_def)

text \<open>Settling a lifecycle operation whose record has been released.\<close>

lemma runs_settle_released:
  assumes op: "map_of (operations (disk s)) i = Some oper" "op_ok (ext s) (disk s) i oper"
    "so_outcome oper = Prepared" "\<not> is_process_kind (so_kind oper)"
    and shape: "validate_stored_operation_shape (ext s) (oper\<lparr>so_outcome := out\<rparr>) = Inr ()" "out \<noteq> Prepared"
    and r: "\<And>r. live_record (disk s) (so_container_id oper) = Some r \<Longrightarrow> generation_of r = so_generation oper \<Longrightarrow>
          sc_active_operation r \<noteq> Some i"
    and P: "\<And>s'. same_env s s' \<Longrightarrow> settled (disk s') i (so_kind oper) (so_container_id oper) out \<Longrightarrow>
       disk s' = (disk s)\<lparr>operations := put i (oper\<lparr>so_outcome := out\<rparr>) (operations (disk s))\<rparr> \<Longrightarrow> P () s'"
  shows "runs (write_operation m (oper\<lparr>so_outcome := out\<rparr>)) P s"
proof (rule runs_settle [OF op(1-3) shape(2,1)])
  assume "store_inv (ext s) (disk s)"
  then show "unclaimed (disk s) i \<or> is_creation (so_kind oper) \<and> is_failed out"
    using unclaimed_container [OF _ op(1) lifecycle_process_none [OF op(2,4)]] r by blast
next
  fix s' assume "same_env s s'"
    "disk s' = (disk s)\<lparr>operations := put i (oper\<lparr>so_outcome := out\<rparr>) (operations (disk s))\<rparr>"
  then show "P () s'" using settled_put by (intro P) simp_all
qed

text \<open>Releasing the record of a lifecycle operation while its state is updated.\<close>

lemma runs_release_record:
  assumes r: "live_record (disk s) c = Some r" "record_ok (disk s) c r"
    and step: "record_step r r'" "sc_init_io_operations r' = sc_init_io_operations r"
    and P: "\<And>s'. same_env s s' \<Longrightarrow> live_record (disk s') c = Some (r'\<lparr>sc_active_operation := None\<rparr>) \<Longrightarrow>
       operations (disk s') = operations (disk s) \<Longrightarrow> process_table (disk s') = process_table (disk s) \<Longrightarrow>
       last_generation (disk s') = last_generation (disk s) \<Longrightarrow> generation_of r' = generation_of r \<Longrightarrow> P () s'"
  shows "runs (write_container m c (r'\<lparr>sc_active_operation := None\<rparr>)) P s"
proof -
  have r': "sc_record r' = (sc_record r)\<lparr>cr_state := cr_state (sc_record r')\<rparr>" "sc_id r' = sc_id r"
    using step(1) by (simp_all add: record_step_def)
  have g: "generation_of r' = generation_of r" by (subst r'(1), simp)
  have "container_claims (disk s) (r'\<lparr>sc_active_operation := None\<rparr>)"
    using r(2) step(2) r'(2) g by (auto simp: record_ok_def intro: container_claims_mono)
  then show ?thesis
    using step(1) g
    by (intro runs_update_record [OF r(1)] record_step_trans_claims)
      (auto intro!: P dest: record_written_self record_writtenD(3,4))
qed

section \<open>Contracts of preparation and completion\<close>

lemma runs_claim_new_operation:
  assumes none: "map_of (operations (disk s)) i = None" and ids: "valid_id i" "valid_id (ct_id target)"
    and r: "live_record (disk s) (ct_id target) = Some r" "record_ok (disk s) (ct_id target) r"
    and k: "\<not> is_extension_kind k" "\<not> is_process_kind k" "\<not> is_creation k"
    and P: "\<And>rec s'. same_env s s' \<Longrightarrow> owns (disk s') i k (ct_id target) rec \<Longrightarrow> P rec s'"
  shows "runs (claim_new_operation i k target r digest name) P s"
proof -
  let ?op = "prepared_operation i k (ct_id target) (generation_of r) None digest"
  have ok: "op_ok (ext s) (disk s) i ?op"
    using ids r k by (intro prepared_operation_ok) (auto simp: record_ok_def)
  show ?thesis
    unfolding claim_new_operation_def
  proof (rule runs_bind, rule runs_prepare_operation)
    fix s1 :: DurableStateStore
    assume env: "same_env s s1" and d: "disk s1 = (disk s)\<lparr>operations := put (so_operation_id ?op) ?op (operations (disk s))\<rparr>"
    have inv: "record_ok (disk s1) (ct_id target) r" if "store_inv (ext s1) (disk s1)"
      using record_okI [OF that] r d by simp
    show "runs (m_bind (claim_active_operation r i (ClaimOperation k) name) (\<lambda>r. m_return (sc_record r))) P s1"
    proof (rule runs_inv, rule runs_bind, rule runs_claim_active_operation [where oper = ?op and c = "ct_id target"])
      fix r' s2
      assume "same_env s1 s2" and g: "claim_granted (disk s1) (ct_id target) r i r' (disk s2)"
      then have "owns (disk s2) i k (ct_id target) (sc_record r')"
        using d by (intro ownsI [OF g, where oper = ?op]) simp_all
      then show "runs (m_return (sc_record r')) P s2"
        using env \<open>same_env s1 s2\<close> by (intro runs_return P) (auto intro: same_env_trans)
    qed (use r d inv in \<open>simp_all add: active_claim_prepared\<close>)
  qed (use none ok k in simp_all)
qed

text \<open>A call that only appends events of an incarnation, and when it succeeds has published these kinds.\<close>

definition publishes :: "'a store_m \<Rightarrow> ContainerTarget \<Rightarrow> RuntimeEventKind set \<Rightarrow> bool" where
  "publishes m target kinds \<longleftrightarrow>
     (\<forall>s. runs m (\<lambda>_ s'. same_env s s' \<and> only_journal (disk s) (disk s')
                        \<and> (\<forall>k \<in> kinds. published (disk s') target k)) s)"

lemma runs_publishes:
  assumes "publishes m target kinds"
    and "\<And>v s'. same_env s s' \<Longrightarrow> only_journal (disk s) (disk s') \<Longrightarrow>
           (\<And>k. k \<in> kinds \<Longrightarrow> published (disk s') target k) \<Longrightarrow> P v s'"
  shows "runs m P s"
  using assms by (auto simp: publishes_def intro: runs_mono)

lemma publishes_container_event:
  "fmlookup attrs ATTR_OPERATION_ID = None \<Longrightarrow> publishes (append_container_event suf target kind attrs) target {kind}"
  unfolding publishes_def by (intro allI runs_append_container_event) simp_all

lemma publishes_operation_event:
  "valid_id oid \<Longrightarrow> suf \<noteq> [] \<Longrightarrow> CHR '':'' \<notin> set suf \<Longrightarrow>
     publishes (append_operation_event oid suf target pid kind attrs) target {kind}"
  unfolding publishes_def by (intro allI runs_append_operation_event) simp_all

lemma only_journal_trans: "only_journal a b \<Longrightarrow> only_journal b c \<Longrightarrow> only_journal a c"
  by (auto simp: only_journal_def intro: store_le_trans)

lemma publishes_bind:
  assumes "publishes m target ks" "\<And>v. publishes (f v) target ls"
  shows "publishes (m_bind m f) target (ks \<union> ls)"
  unfolding publishes_def
proof (intro allI runs_bind runs_publishes [OF assms(1)] runs_publishes [OF assms(2)], goal_cases)
  case (1 s v s1 w s2)
  then show ?case
    by (auto intro: same_env_trans only_journal_trans published_mono [OF only_journalD(7)])
qed

lemma publishes_return: "publishes (m_return v) target {}"
  unfolding publishes_def by (intro allI runs_return) (simp add: same_env_def only_journal_def)

lemma publishes_mono: "publishes m target ks \<Longrightarrow> ls \<subseteq> ks \<Longrightarrow> publishes m target ls"
  unfolding publishes_def by (blast intro: runs_mono)

lemma publishes_if:
  "(c \<Longrightarrow> publishes m target ks) \<Longrightarrow> (\<not> c \<Longrightarrow> publishes n target ks) \<Longrightarrow>
     publishes (if c then m else n) target ks"
  by simp

text \<open>The contract of every \<open>complete_*\<close> method that answers with a container record: the outcome is
  durable, and when this call settled the operation the record is free and its events are published.\<close>

definition record_completed ::
  "OperationId \<Rightarrow> StoredOperationKind \<Rightarrow> (ContainerRecord \<Rightarrow> RuntimeEventKind set) \<Rightarrow> (ContainerRecord \<Rightarrow> bool)
     \<Rightarrow> DurableStateStore \<Rightarrow> ContainerRecord \<Rightarrow> DurableStateStore \<Rightarrow> bool" where
  "record_completed i k evs good s rec s' \<longleftrightarrow>
     (\<exists>oper. map_of (operations (disk s)) i = Some oper
        \<and> settled (disk s') i k (so_container_id oper) (Succeeded rec)
        \<and> (so_outcome oper = Prepared \<longrightarrow>
             (\<forall>e \<in> evs rec. published (disk s') (target_exact (so_container_id oper) (so_generation oper)) e)
             \<and> good rec
             \<and> (\<exists>r. live_record (disk s') (so_container_id oper) = Some r \<and> sc_record r = rec
                    \<and> sc_active_operation r = None)))"

lemma runs_completion:
  assumes op: "map_of (operations (disk s)) i = Some oper" "op_ok (ext s) (disk s) i oper" "so_kind oper = k"
      "so_outcome oper = Prepared" "\<not> is_extension_kind k" "\<not> is_process_kind k"
    and r: "live_record (disk s) (so_container_id oper) = Some r" "record_ok (disk s) (so_container_id oper) r"
    and step: "record_step r r'" "sc_init_io_operations r' = sc_init_io_operations r"
    and ev: "publishes ev (target_exact (so_container_id oper) (so_generation oper)) (evs (sc_record r'))"
    and good: "good (sc_record r')"
  shows "runs (m_bind (m_lift (ensure_active_operation r' i name)) (\<lambda>_.
         m_bind (write_container m (so_container_id oper) (r'\<lparr>sc_active_operation := None\<rparr>)) (\<lambda>_.
         m_bind ev (\<lambda>_.
         m_bind (write_operation m' (oper\<lparr>so_outcome := Succeeded (sc_record r')\<rparr>)) (\<lambda>_.
           m_return (sc_record r')))))) (record_completed i k evs good s) s"
  apply (rule runs_bind, rule runs_ensure_active)
  apply (rule runs_bind, rule runs_release_record [OF r step])
  apply (rule runs_bind, rule runs_publishes [OF ev])
  apply (rule runs_bind, rule runs_settle_released [where oper = oper and i = i])
         apply (simp_all add: op only_journalD)
  subgoal using op by (auto intro!: op_ok_frame [OF op(2)] simp: same_env_def only_journalD)
  subgoal using op by (auto intro!: shape_lifecycle [OF op(2)] simp: same_env_def is_extension_outcome_def)
  subgoal by auto
  subgoal using op good by (auto intro!: runs_return simp: record_completed_def only_journalD)
  done

text \<open>The shared frame of the \<open>complete_*\<close> methods: load, check the kind, replay a settled outcome, load
  the record and fence its generation.\<close>

lemma runs_complete_record:
  assumes "\<And>oper r. map_of (operations (disk s)) i = Some oper \<Longrightarrow> op_ok (ext s) (disk s) i oper \<Longrightarrow>
       so_kind oper = k \<Longrightarrow> so_outcome oper = Prepared \<Longrightarrow>
       live_record (disk s) (so_container_id oper) = Some r \<Longrightarrow> record_ok (disk s) (so_container_id oper) r \<Longrightarrow>
       runs (body oper r) (record_completed i k evs good s) s"
  shows "runs (m_bind (load_operation i) (\<lambda>operation.
     m_bind (m_reject (so_kind operation \<noteq> k) e) (\<lambda>_.
       on_record_outcome name (so_outcome operation) m_return
        (m_bind (load_stored_container (so_container_id operation)) (\<lambda>stored.
         m_bind (m_reject (cr_generation (sc_record stored) \<noteq> so_generation operation) e') (\<lambda>_.
           body operation stored)))))) (record_completed i k evs good s) s"
  apply (rule runs_bind, rule runs_load_operation, rule runs_bind, rule runs_reject)
  apply (rule runs_on_record_outcome)
   apply (rule runs_bind, rule runs_load_stored_container, rule runs_bind, rule runs_reject)
   apply (rule assms; simp)
  apply (rule runs_return)
  apply (auto simp: record_completed_def settled_def)
  done

lemma record_step_refl: "record_ok d i r \<Longrightarrow> record_step r r"
  by (simp add: record_ok_def record_step_def state_step_def lifecycle_step_def)

lemma runs_release_if_owned:
  assumes r: "live_record (disk s) c = Some r" "record_ok (disk s) c r"
    and P: "\<And>s'. same_env s s' \<Longrightarrow> live_record (disk s') c = Some (r\<lparr>sc_active_operation := None\<rparr>) \<Longrightarrow>
       operations (disk s') = operations (disk s) \<Longrightarrow> last_generation (disk s') = last_generation (disk s) \<Longrightarrow> P () s'"
  shows "runs (release_if_owned k c r) P s"
  unfolding release_if_owned_def
proof (intro runs_case_option runs_return runs_release_record [OF r record_step_refl [OF r(2)]])
  assume "sc_active_operation r = None"
  then have "r\<lparr>sc_active_operation := None\<rparr> = r" by simp
  with r show "P () s" by (intro P) (simp_all add: same_env_def)
qed (auto intro: P)

text \<open>A prepared operation whose effect is already durable is settled without the driver.\<close>

lemma runs_finish:
  assumes op: "map_of (operations (disk s)) i = Some oper" "op_ok (ext s) (disk s) i oper" "so_kind oper = k"
      "so_outcome oper = Prepared" "\<not> is_extension_kind k" "\<not> is_process_kind k" "so_container_id oper = c"
    and r: "live_record (disk s) (so_container_id oper) = Some r" "record_ok (disk s) (so_container_id oper) r"
    and ev: "publishes ev target evs"
  shows "runs (m_bind (m_lift (ensure_active_operation r (so_operation_id oper) name)) (\<lambda>_.
      m_bind (release_if_owned k' (so_container_id oper) r) (\<lambda>_.
      m_bind ev (\<lambda>_.
      m_bind (write_operation m (oper\<lparr>so_outcome := Succeeded (sc_record r)\<rparr>)) (\<lambda>_.
        m_return (ReplayedRecord (sc_record r))))))) (record_prepared i k c) s"
  apply (rule runs_bind, rule runs_ensure_active)
  apply (rule runs_bind, rule runs_release_if_owned [OF r])
  apply (rule runs_bind, rule runs_publishes [OF ev])
  apply (rule runs_bind, rule runs_settle_released [where oper = oper and i = i])
         apply (simp_all add: op only_journalD)
  subgoal using op by (auto intro!: op_ok_frame [OF op(2)] simp: same_env_def only_journalD)
  subgoal using op by (auto intro!: shape_lifecycle [OF op(2)] simp: same_env_def is_extension_outcome_def)
  subgoal by (auto simp: op)
  subgoal using op by (auto intro!: runs_return simp: record_prepared_def)
  done

text \<open>A prepared operation whose effect is not yet durable is handed back to its caller under its claim.\<close>

lemma runs_resume:
  assumes op: "map_of (operations (disk s)) i = Some oper" "op_ok (ext s) (disk s) i oper" "so_kind oper = k"
      "so_outcome oper = Prepared" "\<not> is_process_kind k" "so_container_id oper = c"
    and r: "live_record (disk s) (so_container_id oper) = Some r" "record_ok (disk s) (so_container_id oper) r"
      "generation_of r = so_generation oper"
  shows "runs (m_bind (claim_active_operation r i m name) (\<lambda>stored.
      m_return (ResumeRecord (sc_record stored)))) (record_prepared i k c) s"
proof (rule runs_bind, rule runs_claim_active_operation [OF r(1,2) op(1)])
  show "active_claim oper"
    using op by (intro active_claim_prepared lifecycle_process_none [OF op(2)]) simp_all
  fix r' and s' :: DurableStateStore
  assume "claim_granted (disk s) (so_container_id oper) r i r' (disk s')"
  from ownsI [OF this op(1)] show "runs (m_return (ResumeRecord (sc_record r'))) (record_prepared i k c) s'"
    using op r by (intro runs_return) (simp add: record_prepared_def)
qed (use op r in simp_all)

text \<open>The shared frame of the retries: a settled operation answers with its outcome, a prepared one with
  the record it owns.\<close>

lemma runs_retry_record:
  assumes "\<And>r. so_kind oper = k \<Longrightarrow> so_container_id oper = c \<Longrightarrow> so_outcome oper = Prepared \<Longrightarrow>
       live_record (disk s) (so_container_id oper) = Some r \<Longrightarrow> record_ok (disk s) (so_container_id oper) r \<Longrightarrow>
       generation_of r = so_generation oper \<Longrightarrow> runs (body r) (record_prepared i k c) s"
    and "\<And>rec. so_kind oper = k \<Longrightarrow> so_container_id oper = c \<Longrightarrow> so_outcome oper = Succeeded rec \<Longrightarrow>
       runs (replay rec) (record_prepared i k c) s"
  shows "runs (m_bind (m_lift (validate_retry oper k c digest name)) (\<lambda>_.
       on_record_outcome name (so_outcome oper) replay
         (m_bind (load_stored_exact (so_container_id oper) (so_generation oper)) body)))
     (record_prepared i k c) s"
  apply (rule runs_bind, rule runs_validate_retry, rule runs_on_record_outcome)
   apply (rule runs_bind, rule runs_load_stored_exact)
   apply (rule assms(1); simp)
  apply (rule assms(2); simp)
  done

text \<open>The shared frame of a first call.\<close>

lemma runs_prepare_record:
  assumes ids: "valid_id i" "valid_id (ct_id target)"
    and k: "\<not> is_extension_kind k" "\<not> is_process_kind k" "\<not> is_creation k"
    and retry: "\<And>oper. map_of (operations (disk s)) i = Some oper \<Longrightarrow> op_ok (ext s) (disk s) i oper \<Longrightarrow>
       runs (retry oper) (record_prepared i k (ct_id target)) s"
  shows "runs (m_bind (load_operation_if_present i) (\<lambda>existing.
       case existing of
         Some operation \<Rightarrow> retry operation
       | None \<Rightarrow>
           m_bind (validate_deadline ctx name) (\<lambda>_.
           m_bind (load_stored_container (ct_id target)) (\<lambda>stored.
           m_bind (m_lift (validate_requested_generation stored target name)) (\<lambda>_.
           m_bind (m_reject (bad stored) e) (\<lambda>_.
           m_bind (claim_new_operation i k target stored digest name) (\<lambda>record.
             m_return (PreparedRecord record)))))))) (record_prepared i k (ct_id target)) s"
  apply (rule runs_bind, rule runs_load_operation_if_present)
   apply (simp_all add: retry)
  apply (rule runs_bind, rule runs_validate_deadline, rule runs_bind, rule runs_load_stored_container)
  apply (rule runs_bind, rule runs_validate_requested_generation, rule runs_bind, rule runs_reject)
  apply (rule runs_bind, rule runs_claim_new_operation [OF _ ids _ _ k])
     apply (simp_all add: runs_return record_prepared_def)
  done

text \<open>The shared frame of replaying a settled outcome against the live record.\<close>

lemma record_replayed:
  assumes "map_of (operations (disk s)) i = Some oper" "so_kind oper = k" "so_container_id oper = c"
    "so_outcome oper = Succeeded response"
  shows "record_prepared i k c (ReplayedRecord response) s"
  using assms settledI [OF assms(1)] by (simp add: record_prepared_def)

lemma runs_replay_record:
  assumes op: "map_of (operations (disk s)) i = Some oper" "so_kind oper = k" "so_container_id oper = c"
    "so_outcome oper = Succeeded response"
    and "\<And>r. runs (body r) (record_prepared i k c) s"
  shows "runs (m_bind (m_try (load_stored_container (so_container_id oper))) (\<lambda>result.
       case result of
         Inl e \<Rightarrow> if err_code e = NotFound then m_return (ReplayedRecord response) else m_throw e
       | Inr stored \<Rightarrow> body stored)) (record_prepared i k c) s"
  apply (rule runs_bind, rule runs_try [OF load_container_read_only(2)])
   apply (intro runs_rules record_replayed [OF op], simp)
  apply (rule runs_load_stored_container)
  apply (simp add: assms)
  done

end
