(* ===== verification/Create_Store.thy ===== *)
theory Create_Store
  imports Operation_Contracts
begin

text \<open>
  Creating a container: the digest and retry check of \<open>state/create.rs\<close>, the reservation of a
  generation and the idempotent reconstruction of its directory (\<open>state/creation.rs\<close>), completion and
  the replay of finished creates (\<open>state/mod.rs\<close>), and the quarantine of failed creations
  (\<open>state/failure.rs\<close>).
\<close>

section \<open>Operations\<close>

definition op_digest_create_request :: string where
  "op_digest_create_request = ''digest-create-request''"
definition op_prepare_create :: string where "op_prepare_create = ''prepare-create''"
definition op_reconcile_create :: string where "op_reconcile_create = ''reconcile-create''"
definition op_reconcile_succeeded_create :: string where
  "op_reconcile_succeeded_create = ''reconcile-succeeded-create''"
definition op_complete_create :: string where "op_complete_create = ''complete-create''"
definition op_reconcile_failed_create :: string where
  "op_reconcile_failed_create = ''reconcile-failed-create''"
definition op_reconcile_failed_restore :: string where
  "op_reconcile_failed_restore = ''reconcile-failed-restore''"
definition op_reconcile_failed_creation :: string where
  "op_reconcile_failed_creation = ''reconcile-failed-creation''"

definition EV_CREATING :: string where "EV_CREATING = ''creating''"
definition EV_CREATED :: string where "EV_CREATED = ''created''"

definition create_request_digest :: "externals \<Rightarrow> CreateRequest \<Rightarrow> document option \<Rightarrow> error + RequestDigests" where
  "create_request_digest x request inherited_descriptors =
     request_digest x (CreateFingerprint (cq_id request) (cq_bundle request) (cq_isolation request)
       (cq_attachments request) inherited_descriptors) op_digest_create_request"

definition validate_create_retry :: "StoredOperation \<Rightarrow> CreateRequest \<Rightarrow> RequestDigests \<Rightarrow> error + unit" where
  "validate_create_retry operation request digests =
     validate_retry operation KCreate (cq_id request) digests op_prepare_create"

record CreationProfile =
  cf_operation :: string
  cf_store_config :: DurableMutation
  cf_store_container :: DurableMutation

text \<open>\<open>reconcile_prepared_container\<close>: directory, configuration snapshot and record are each created
  when absent and compared with the request when present.\<close>

definition ensure_container_directory :: "ContainerId \<Rightarrow> unit store_m" where
  "ensure_container_directory i =
     m_bind (on_disk (\<lambda>d. map_of (directories d) (Live i))) (\<lambda>present.
       case present of
         Some _ \<Rightarrow> m_return ()
       | None \<Rightarrow> create_container_directory (Live i))"

definition ensure_config_snapshot :: "ContainerId \<Rightarrow> OciBundle \<Rightarrow> CreationProfile \<Rightarrow> unit store_m" where
  "ensure_config_snapshot i bundle profile =
     m_bind (on_disk (\<lambda>d. Option.bind (map_of (directories d) (Live i)) cd_config)) (\<lambda>snapshot.
       case snapshot of
         Some durable_config \<Rightarrow>
           m_reject (durable_config \<noteq> bn_config_json bundle)
             (state_error Conflict (cf_operation profile))
       | None \<Rightarrow>
           atomic_write (cf_store_config profile) (ConfigPath (Live i))
             (ConfigFile (bn_config_json bundle)))"

definition reconcile_prepared_container ::
  "ContainerId \<Rightarrow> OciBundle \<Rightarrow> IsolationClass \<Rightarrow> CreateAttachments \<Rightarrow> DriverKind \<Rightarrow> Generation
     \<Rightarrow> OperationId \<Rightarrow> CreationProfile \<Rightarrow> StoredContainer store_m" where
  "reconcile_prepared_container i bundle isolation attachments driver generation operation_id profile =
     m_bind (external (\<lambda>x. x_attachments_digest x attachments)) (\<lambda>attachments_digest.
     m_bind (external (\<lambda>x. x_network_enforcement x attachments bundle)) (\<lambda>network_enforcement.
     m_bind (ensure_container_directory i) (\<lambda>_.
     m_bind (ensure_config_snapshot i bundle profile) (\<lambda>_.
     m_bind (on_disk (\<lambda>d. Option.bind (map_of (directories d) (Live i)) cd_record)) (\<lambda>present.
       case present of
         Some _ \<Rightarrow>
           m_bind (load_stored_exact i generation) (\<lambda>stored.
           m_bind (m_reject (cr_driver (sc_record stored) \<noteq> driver
                     \<or> cr_isolation (sc_record stored) \<noteq> isolation
                     \<or> cr_guest_session (sc_record stored) \<noteq> ca_guest_session attachments
                     \<or> cr_network_enforcement (sc_record stored) \<noteq> network_enforcement
                     \<or> cr_config_digest (sc_record stored) \<noteq> bn_config_digest bundle
                     \<or> cr_attachments_digest (sc_record stored) \<noteq> Some attachments_digest
                     \<or> sc_attachments stored \<noteq> Some attachments)
                     (state_error Conflict (cf_operation profile))) (\<lambda>_.
             m_return stored))
       | None \<Rightarrow>
           m_bind (m_lift (build_state i bundle StCreating None)) (\<lambda>state.
             (let stored =
                \<lparr>sc_schema_version = CONTAINER_SCHEMA_VERSION, sc_id = i,
                 sc_record = \<lparr>cr_state = state, cr_generation = generation, cr_driver = driver,
                   cr_isolation = isolation, cr_guest_session = ca_guest_session attachments,
                   cr_network_enforcement = network_enforcement,
                   cr_config_digest = bn_config_digest bundle,
                   cr_attachments_digest = Some attachments_digest\<rparr>,
                 sc_attachments = Some attachments, sc_active_operation = Some operation_id,
                 sc_init_io_operations = {}, sc_init_exit_status = None\<rparr>
              in m_bind (write_container (cf_store_container profile) i stored) (\<lambda>_.
                 m_return stored))))))))"

definition create_profile :: CreationProfile where
  "create_profile = \<lparr>cf_operation = op_reconcile_create, cf_store_config = StoreConfig KCreate,
                     cf_store_container = StoreContainer KCreate\<rparr>"

definition reconcile_prepared_create :: "CreateRequest \<Rightarrow> DriverKind \<Rightarrow> Generation \<Rightarrow> StoredContainer store_m" where
  "reconcile_prepared_create request driver generation =
     reconcile_prepared_container (cq_id request) (cq_bundle request)
       (isolation_class (cq_isolation request)) (cq_attachments request) driver generation
       (oc_operation_id (cq_context request)) create_profile"

text \<open>Which prepared owner of a live record leaves a finished create free to follow its process.\<close>

definition create_rebind_kinds :: "ContainerState \<Rightarrow> StoredOperationKind set" where
  "create_rebind_kinds status =
     (case status of
        StCreated \<Rightarrow> {KStart, KAttest}
      | StRunning \<Rightarrow> {KKill, KPause, KResume, KUpdate, KFile, KFilesystem, KCheckpoint, KAttest}
      | _ \<Rightarrow> {})"

definition rebind_succeeded_create ::
  "StoredOperation \<Rightarrow> ContainerRecord \<Rightarrow> StoredContainer \<Rightarrow> RecordOperationPreparation store_m" where
  "rebind_succeeded_create operation response stored =
     (let durable = cr_state (sc_record stored) in
      m_bind (active_allows_rebind stored (create_rebind_kinds (st_status durable))) (\<lambda>allows.
      m_bind (m_reject (\<not> allows \<or> st_status (cr_state response) \<noteq> StCreated)
                (state_error Conflict op_reconcile_succeeded_create)) (\<lambda>_.
      m_bind (m_lift (rebuild_state (cr_state response) (st_status durable) (st_pid durable))) (\<lambda>expected_state.
      m_bind (m_lift (with_pause (is_paused durable) expected_state)) (\<lambda>expected_state.
      m_bind (m_reject (response\<lparr>cr_state := expected_state\<rparr> \<noteq> sc_record stored)
                (state_error Conflict op_reconcile_succeeded_create)) (\<lambda>_.
      m_bind (m_lift (rebuild_state (cr_state response) StCreated (st_pid durable))) (\<lambda>state.
        (let rebound_response = response\<lparr>cr_state := state\<rparr> in
         m_bind (write_operation (CompleteOperation KCreate)
                   (operation\<lparr>so_outcome := Succeeded rebound_response\<rparr>)) (\<lambda>_.
           m_return (ReplayedRecord rebound_response))))))))))"

definition reconcile_succeeded_create ::
  "StoredOperation \<Rightarrow> ContainerRecord \<Rightarrow> RecordOperationPreparation store_m" where
  "reconcile_succeeded_create operation response =
     m_bind (m_try (load_stored_container (so_container_id operation))) (\<lambda>result.
       case result of
         Inl e \<Rightarrow>
           if err_code e = NotFound then m_return (ReplayedRecord response) else m_throw e
       | Inr stored \<Rightarrow>
           if cr_generation (sc_record stored) \<noteq> so_generation operation \<or> sc_record stored = response
           then m_return (ReplayedRecord response)
           else if st_status (cr_state (sc_record stored)) \<notin> {StCreated, StRunning}
           then m_return (ReplayedRecord response)
           else if st_pid (cr_state (sc_record stored)) = st_pid (cr_state response)
           then m_return (ReplayedRecord response)
           else rebind_succeeded_create operation response stored)"

definition failed_tombstone :: "StoredOperation \<Rightarrow> (tombstone \<times> DurableMutation) option" where
  "failed_tombstone operation =
     (case so_kind operation of
        KCreate \<Rightarrow> Some (FailedCreateTombstone (so_operation_id operation), MoveFailedCreateTombstone)
      | KRestore \<Rightarrow> Some (FailedRestoreTombstone (so_operation_id operation), MoveFailedRestoreTombstone)
      | _ \<Rightarrow> None)"

definition reconcile_failed_creation :: "StoredOperation \<Rightarrow> unit store_m" where
  "reconcile_failed_creation operation =
     m_bind (m_reject (\<not> is_creation (so_kind operation))
               (state_error FailedPrecondition op_reconcile_failed_creation)) (\<lambda>_.
     m_bind (m_reject (\<not> (case so_outcome operation of Failed e \<Rightarrow> True | _ \<Rightarrow> False))
               (state_error FailedPrecondition op_reconcile_failed_creation)) (\<lambda>_.
     m_bind (m_lift (ok_or (state_error Internal op_reconcile_failed_creation)
               (failed_tombstone operation))) (\<lambda>(t, mutation).
     m_bind (on_disk (\<lambda>d. map_of (directories d) (Live (so_container_id operation)) \<noteq> None)) (\<lambda>source.
     m_bind (on_disk (\<lambda>d. map_of (directories d) (Quarantined t) \<noteq> None)) (\<lambda>quarantined.
       if source \<and> \<not> quarantined then
         m_bind (load_stored_exact (so_container_id operation) (so_generation operation)) (\<lambda>stored.
         m_bind (m_lift (ensure_active_operation stored (so_operation_id operation)
                   op_reconcile_failed_creation)) (\<lambda>_.
           atomic_move_directory mutation (Live (so_container_id operation)) (Quarantined t)))
       else if source \<and> quarantined then
         m_bind (load_stored_container (so_container_id operation)) (\<lambda>live.
           m_reject (cr_generation (sc_record live) = so_generation operation)
             (state_error Conflict op_reconcile_failed_creation))
       else m_return ())))))"

definition reconcile_failed_create :: "StoredOperation \<Rightarrow> unit store_m" where
  "reconcile_failed_create operation =
     m_bind (m_reject (so_kind operation \<noteq> KCreate)
               (state_error FailedPrecondition op_reconcile_failed_create)) (\<lambda>_.
       reconcile_failed_creation operation)"

definition reconcile_failed_restore :: "StoredOperation \<Rightarrow> unit store_m" where
  "reconcile_failed_restore operation =
     m_bind (m_reject (so_kind operation \<noteq> KRestore)
               (state_error FailedPrecondition op_reconcile_failed_restore)) (\<lambda>_.
       reconcile_failed_creation operation)"

text \<open>The retry of a create whose operation record exists.\<close>

definition retry_create ::
  "CreateRequest \<Rightarrow> DriverKind \<Rightarrow> RequestDigests \<Rightarrow> StoredOperation \<Rightarrow> RecordOperationPreparation store_m" where
  "retry_create request driver digest operation =
     m_bind (m_lift (validate_create_retry operation request digest)) (\<lambda>_.
       case so_outcome operation of
         Prepared \<Rightarrow>
           m_bind (reconcile_prepared_create request driver (so_generation operation)) (\<lambda>stored.
           m_bind (claim_active_operation stored (oc_operation_id (cq_context request))
                     (ClaimOperation KCreate) op_prepare_create) (\<lambda>stored.
           m_bind (append_container_event EV_CREATING
                     (target_exact (cq_id request) (cr_generation (sc_record stored)))
                     ContainerCreating fmempty) (\<lambda>_.
             m_return (ResumeRecord (sc_record stored)))))
       | Succeeded response \<Rightarrow> reconcile_succeeded_create operation response
       | Failed e \<Rightarrow> m_bind (reconcile_failed_create operation) (\<lambda>_. m_throw e)
       | _ \<Rightarrow> m_throw (state_error FailedPrecondition op_prepare_create))"

definition prepare_create_with_inherited_descriptors ::
  "CreateRequest \<Rightarrow> DriverKind \<Rightarrow> document option \<Rightarrow> RecordOperationPreparation store_m" where
  "prepare_create_with_inherited_descriptors request driver inherited_descriptors =
     m_bind (external (\<lambda>x. create_validate x request)) (\<lambda>_.
     m_bind (external (\<lambda>x. create_request_digest x request inherited_descriptors)) (\<lambda>digest.
     m_bind (load_operation_if_present (oc_operation_id (cq_context request))) (\<lambda>existing.
       case existing of
         Some operation \<Rightarrow> retry_create request driver digest operation
       | None \<Rightarrow>
           m_bind (validate_deadline (cq_context request) op_prepare_create) (\<lambda>_.
           m_bind (on_disk (\<lambda>d. map_of (directories d) (Live (cq_id request)))) (\<lambda>present.
           m_bind (m_reject (present \<noteq> None) (state_error AlreadyExists op_prepare_create)) (\<lambda>_.
           m_bind (next_generation (cq_id request)) (\<lambda>generation.
           m_bind (write_operation (PrepareOperation KCreate)
                     (prepared_operation (oc_operation_id (cq_context request)) KCreate (cq_id request)
                        generation None digest)) (\<lambda>_.
           m_bind (reconcile_prepared_create request driver generation) (\<lambda>stored.
           m_bind (append_container_event EV_CREATING
                     (target_exact (cq_id request) (cr_generation (sc_record stored)))
                     ContainerCreating fmempty) (\<lambda>_.
             m_return (PreparedRecord (sc_record stored)))))))))))) "

definition prepare_create :: "CreateRequest \<Rightarrow> DriverKind \<Rightarrow> RecordOperationPreparation store_m" where
  "prepare_create request driver = prepare_create_with_inherited_descriptors request driver None"

definition created_state :: "StoredContainer \<Rightarrow> int \<Rightarrow> error + State" where
  "created_state stored pid =
     r_bind (lift_transition op_complete_create Creating CreateCompleted) (\<lambda>lifecycle.
       rebuild_state (cr_state (sc_record stored)) (container_state lifecycle) (Some pid))"

definition commit_create_state :: "StoredContainer \<Rightarrow> int \<Rightarrow> StoredContainer store_m" where
  "commit_create_state stored pid =
     (case st_status (cr_state (sc_record stored)) of
        StCreating \<Rightarrow>
          m_bind (m_lift (created_state stored pid)) (\<lambda>state.
          m_bind (external (\<lambda>x. x_validate_state x state)) (\<lambda>_.
            m_return (stored\<lparr>sc_record := (sc_record stored)\<lparr>cr_state := state\<rparr>\<rparr>)))
      | StCreated \<Rightarrow>
          m_bind (m_reject (st_pid (cr_state (sc_record stored)) \<noteq> Some pid)
                    (state_error Conflict op_complete_create)) (\<lambda>_. m_return stored)
      | _ \<Rightarrow> m_throw (state_error FailedPrecondition op_complete_create))"

definition complete_create :: "OperationId \<Rightarrow> int \<Rightarrow> ContainerRecord store_m" where
  "complete_create operation_id pid =
     m_bind (m_reject (pid \<le> 0) (state_error InvalidArgument op_complete_create)) (\<lambda>_.
     m_bind (load_operation operation_id) (\<lambda>operation.
     m_bind (m_reject (so_kind operation \<noteq> KCreate)
               (state_error FailedPrecondition op_complete_create)) (\<lambda>_.
       on_record_outcome op_complete_create (so_outcome operation) m_return
        (m_bind (load_stored_container (so_container_id operation)) (\<lambda>stored.
         m_bind (m_reject (cr_generation (sc_record stored) \<noteq> so_generation operation)
                   (generation_conflict op_complete_create)) (\<lambda>_.
         m_bind (commit_create_state stored pid) (\<lambda>stored.
         m_bind (m_lift (ensure_active_operation stored operation_id op_complete_create)) (\<lambda>_.
         m_bind (write_container (CompleteContainer KCreate) (so_container_id operation)
                   (stored\<lparr>sc_active_operation := None\<rparr>)) (\<lambda>_.
         m_bind (append_container_event EV_CREATED
                   (target_exact (so_container_id operation) (so_generation operation))
                   ContainerCreated (fmupd ATTR_PID (int_to_string pid) fmempty)) (\<lambda>_.
         m_bind (write_operation (CompleteOperation KCreate)
                   (operation\<lparr>so_outcome := Succeeded (sc_record stored)\<rparr>)) (\<lambda>_.
           m_return (sc_record stored)))))))))))) "

section \<open>Refinement\<close>

lemma runs_ensure_container_directory:
  assumes "valid_id i"
    and "\<And>s'. same_env s s' \<Longrightarrow> operations (disk s') = operations (disk s) \<Longrightarrow>
           live_record (disk s') = live_record (disk s) \<Longrightarrow> last_generation (disk s') = last_generation (disk s) \<Longrightarrow>
           map_of (directories (disk s')) (Live i) \<noteq> None \<Longrightarrow> P () s'"
  shows "runs (ensure_container_directory i) P s"
  unfolding ensure_container_directory_def create_container_directory_def
proof (intro runs_bind runs_on_disk runs_case_option runs_return runs_modify_disk)
  assume none: "map_of (directories (disk s)) (Live i) = None"
  then show "store_step (ext s) (disk s)
      ((disk s)\<lparr>directories := put (Live i) empty_dir (directories (disk s))\<rparr>)"
    using assms(1) by (rule store_step.MakeDirectory)
  fix s' assume "same_env s s'"
    "disk s' = (disk s)\<lparr>directories := put (Live i) empty_dir (directories (disk s))\<rparr>"
  then show "P () s'"
    using none by (intro assms(2)) (auto simp: live_record_def empty_dir_def fun_eq_iff)
next
  fix c assume "map_of (directories (disk s)) (Live i) = Some c"
  then show "P () s" by (intro assms(2)) (simp_all add: same_env_def)
qed

lemma runs_ensure_config_snapshot:
  assumes dir: "map_of (directories (disk s)) (Live i) \<noteq> None"
    and P: "\<And>s'. same_env s s' \<Longrightarrow> operations (disk s') = operations (disk s) \<Longrightarrow>
           live_record (disk s') = live_record (disk s) \<Longrightarrow> last_generation (disk s') = last_generation (disk s) \<Longrightarrow>
           map_of (directories (disk s')) (Live i) \<noteq> None \<Longrightarrow> P () s'"
  shows "runs (ensure_config_snapshot i bundle profile) P s"
  unfolding ensure_config_snapshot_def
  by (intro runs_rules) (use assms in \<open>auto simp: same_env_def intro!: store_step.WriteConfig\<close>)

lemma runs_new_record:
  assumes "map_of (directories (disk s)) (Live i) \<noteq> None" "live_record (disk s) i = None"
    and "store_inv (ext s) (disk s) \<Longrightarrow> record_ok (disk s) i r" "status_of r = StCreating"
    and "\<And>s'. same_env s s' \<Longrightarrow> record_written (disk s) i r (disk s') \<Longrightarrow> record_ok (disk s') i r \<Longrightarrow> P () s'"
  shows "runs (write_container m i r) P s"
  unfolding write_container_def
  by (rule runs_inv, rule runs_write)
    (use assms in \<open>auto simp: record_written_def intro!: store_step.NewRecord\<close>)

lemma runs_reconcile_prepared_container:
  assumes i: "valid_id i"
    and op: "map_of (operations (disk s)) opid = Some oper" "so_container_id oper = i" "so_generation oper = g"
      "is_creation (so_kind oper)" "active_claim oper"
    and P: "\<And>r s'. same_env s s' \<Longrightarrow> operations (disk s') = operations (disk s) \<Longrightarrow>
       live_record (disk s') i = Some r \<Longrightarrow> record_ok (disk s') i r \<Longrightarrow> generation_of r = g \<Longrightarrow>
       (live_record (disk s) i = None \<Longrightarrow> sc_active_operation r = Some opid) \<Longrightarrow> P r s'"
  shows "runs (reconcile_prepared_container i bundle isolation attachments driver g opid profile) P s"
proof -
  have new: "record_ok d i r" if inv: "store_inv x d"
      and d: "operations d = operations (disk s)"
      and st: "build_state i bundle StCreating None = Inr st"
      and r: "r = \<lparr>sc_schema_version = CONTAINER_SCHEMA_VERSION, sc_id = i,
         sc_record = \<lparr>cr_state = st, cr_generation = g, cr_driver = driver, cr_isolation = isolation,
           cr_guest_session = ca_guest_session attachments, cr_network_enforcement = net,
           cr_config_digest = bn_config_digest bundle, cr_attachments_digest = Some dig\<rparr>,
         sc_attachments = Some attachments, sc_active_operation = Some opid, sc_init_io_operations = {},
         sc_init_exit_status = None\<rparr>" for d x st r net dig
  proof -
    have ok: "op_ok x d opid oper" using op_okI [OF inv] op(1) d by simp
    have "container_claims d r" using op d r by (simp add: container_claims_def claims_op_def)
    moreover have "created d i g" using op d by (auto simp: created_def)
    moreover have "state_ok st" using build_state_sel [OF st] by (simp add: state_ok_def)
    ultimately show ?thesis
      using ok op(2,3) build_state_sel [OF st] r by (simp add: record_ok_def op_ok_def)
  qed
  show ?thesis
    unfolding reconcile_prepared_container_def Let_def
    apply (rule runs_bind, rule runs_external, rule runs_bind, rule runs_external)
    apply (rule runs_bind, rule runs_ensure_container_directory [OF i])
    apply (rule runs_bind, rule runs_ensure_config_snapshot, assumption)
    apply (intro runs_rules runs_new_record)
         apply assumption
        apply (erule live_record_fold)
       apply (rule new; simp)
      apply (simp add: build_state_sel)
    subgoal by (rule P) (auto simp: same_env_def dest: record_written_self)
    subgoal by (rule P) (auto simp: same_env_def)
    done
qed

lemma runs_reconcile_succeeded_create:
  assumes op: "map_of (operations (disk s)) i = Some oper" "op_ok (ext s) (disk s) i oper"
    "so_kind oper = KCreate" "so_container_id oper = c" "so_outcome oper = Succeeded response"
  shows "runs (reconcile_succeeded_create oper response) (record_prepared i KCreate c) s"
  unfolding reconcile_succeeded_create_def
proof (rule runs_replay_record [OF op(1,3-5)])
  fix r show "runs (if cr_generation (sc_record r) \<noteq> so_generation oper \<or> sc_record r = response
           then m_return (ReplayedRecord response)
           else if st_status (cr_state (sc_record r)) \<notin> {StCreated, StRunning}
           then m_return (ReplayedRecord response)
           else if st_pid (cr_state (sc_record r)) = st_pid (cr_state response)
           then m_return (ReplayedRecord response)
           else rebind_succeeded_create oper response r) (record_prepared i KCreate c) s"
    unfolding rebind_succeeded_create_def Let_def
    by (intro runs_rules record_replayed [OF op(1,3-5)] runs_rebind_response [OF op(1,2,5)])
      (auto simp: op record_prepared_def)
qed

lemma failed_tombstone_ok:
  assumes "failed_tombstone oper = Some (t, m)" "is_failed (so_outcome oper)" "so_operation_id oper = i"
  shows "tombstone_ok t oper" "tombstone_operation t = i"
  using assms by (auto simp: failed_tombstone_def split: StoredOperationKind.splits)

lemma runs_reconcile_failed_creation:
  assumes op: "map_of (operations (disk s)) i = Some oper" "op_ok (ext s) (disk s) i oper"
    and P: "\<And>s'. same_env s s' \<Longrightarrow> operations (disk s') = operations (disk s) \<Longrightarrow>
       (\<And>r. live_record (disk s') (so_container_id oper) = Some r \<Longrightarrow> generation_of r \<noteq> so_generation oper) \<Longrightarrow> P () s'"
  shows "runs (reconcile_failed_creation oper) P s"
proof -
  have step: "store_step (ext s) (disk s) (move_dir (Live (so_container_id oper)) (Quarantined t) (disk s))"
    if "live_record (disk s) (so_container_id oper) = Some r" "generation_of r = so_generation oper"
      "sc_active_operation r \<in> {None, Some (so_operation_id oper)}" "failed_tombstone oper = Some (t, m)"
      "\<not> \<not> (case so_outcome oper of Failed e \<Rightarrow> True | _ \<Rightarrow> False)"
      "map_of (directories (disk s)) (Quarantined t) = None" for r t m
  proof -
    have "is_failed (so_outcome oper)" using that(5) by (cases "so_outcome oper") simp_all
    note t = failed_tombstone_ok [OF that(4) this op_ok_id [OF op(2)]]
    show ?thesis
      using that t op op_ok_id [OF op(2)] by (intro store_step.Quarantine [where r = r and oper = oper]) auto
  qed
  show ?thesis
    unfolding reconcile_failed_creation_def
    by (intro runs_rules) (auto intro!: P step dest: live_record_dir)
qed

lemma runs_append_creating:
  assumes own: "owns (disk s) i KCreate c rec"
    and P: "\<And>e s'. same_env s s' \<Longrightarrow> owns (disk s') i KCreate c rec \<Longrightarrow> P e s'"
  shows "runs (append_container_event EV_CREATING target ContainerCreating fmempty) P s"
  by (rule runs_append_container_event)
    (use own in \<open>auto intro!: P owns_frame [OF own] simp: only_journalD\<close>)

lemma runs_retry_create:
  assumes op: "map_of (operations (disk s)) (oc_operation_id (cq_context request)) = Some oper"
    "op_ok (ext s) (disk s) (oc_operation_id (cq_context request)) oper"
  shows "runs (retry_create request driver digest oper)
     (record_prepared (oc_operation_id (cq_context request)) KCreate (cq_id request)) s"
proof -
  let ?i = "oc_operation_id (cq_context request)"
  have resume: "runs (m_bind (reconcile_prepared_create request driver (so_generation oper)) (\<lambda>stored.
           m_bind (claim_active_operation stored ?i (ClaimOperation KCreate) op_prepare_create) (\<lambda>stored.
           m_bind (append_container_event EV_CREATING
                     (target_exact (cq_id request) (cr_generation (sc_record stored)))
                     ContainerCreating fmempty) (\<lambda>_.
             m_return (ResumeRecord (sc_record stored))))))
       (record_prepared ?i KCreate (cq_id request)) s"
    if k: "so_kind oper = KCreate" "so_container_id oper = cq_id request" and prep: "so_outcome oper = Prepared"
  proof -
    have p: "so_process_id oper = None" "valid_id (cq_id request)"
      using op(2) k by (auto simp: op_ok_def is_process_kind_def)
    have cl: "active_claim oper" using prep p by (simp add: active_claim_prepared)
    show ?thesis
      unfolding reconcile_prepared_create_def
      apply (rule runs_bind, rule runs_reconcile_prepared_container [OF p(2) op(1) k(2) refl _ cl])
       apply (simp add: k is_creation_def)
      apply (rule runs_bind, rule runs_claim_active_operation [where oper = oper])
            apply (simp_all add: op k cl)
      apply (rule runs_bind, rule runs_append_creating)
       apply (erule ownsI; simp add: op k prep)
      apply (simp add: runs_return record_prepared_def)
      done
  qed
  have done_: "runs (reconcile_succeeded_create oper rec) (record_prepared ?i KCreate (cq_id request)) s"
    if "so_kind oper = KCreate" "so_container_id oper = cq_id request" "so_outcome oper = Succeeded rec" for rec
    using that op by (intro runs_reconcile_succeeded_create) auto
  show ?thesis
    unfolding retry_create_def validate_create_retry_def
    apply (rule runs_bind, rule runs_validate_retry)
    apply (cases "so_outcome oper"; simp add: runs_throw resume done_)
    apply (rule runs_bind)
    apply (simp add: reconcile_failed_create_def)
    apply (rule runs_bind, rule runs_reject, rule runs_reconcile_failed_creation [OF op], rule runs_throw)
    done
qed

text \<open>Preparing a create refines the specification and leaves the operation owning its record.\<close>

lemma runs_prepare_create:
  assumes ids: "valid_id (oc_operation_id (cq_context request))" "valid_id (cq_id request)"
  shows "runs (prepare_create_with_inherited_descriptors request driver inherited)
     (record_prepared (oc_operation_id (cq_context request)) KCreate (cq_id request)) s"
proof -
  let ?i = "oc_operation_id (cq_context request)" and ?c = "cq_id request"
  have fresh: "runs (m_bind (next_generation ?c) (\<lambda>generation.
       m_bind (write_operation (PrepareOperation KCreate)
                 (prepared_operation ?i KCreate ?c generation None digest)) (\<lambda>_.
       m_bind (reconcile_prepared_create request driver generation) (\<lambda>stored.
       m_bind (append_container_event EV_CREATING (target_exact ?c (cr_generation (sc_record stored)))
                 ContainerCreating fmempty) (\<lambda>_.
         m_return (PreparedRecord (sc_record stored)))))))
     (record_prepared ?i KCreate ?c) s"
    if none: "map_of (operations (disk s)) ?i = None" and dir: "map_of (directories (disk s)) (Live ?c) = None"
    for digest
  proof (rule runs_inv, rule runs_bind, rule runs_next_generation [OF ids(2)])
    fix g and s1 :: DurableStateStore
    assume inv: "store_inv (ext s) (disk s)" and al: "allocated (disk s) ?c g (disk s1)"
    note a = allocatedD [OF al]
    let ?op = "prepared_operation ?i KCreate ?c g None digest"
    show "runs (m_bind (write_operation (PrepareOperation KCreate) ?op) (\<lambda>_.
       m_bind (reconcile_prepared_create request driver g) (\<lambda>stored.
       m_bind (append_container_event EV_CREATING (target_exact ?c (cr_generation (sc_record stored)))
                 ContainerCreating fmempty) (\<lambda>_.
         m_return (PreparedRecord (sc_record stored))))))
     (record_prepared ?i KCreate ?c) s1"
    proof (rule runs_bind, rule runs_prepare_operation)
      show "map_of (operations (disk s1)) (so_operation_id ?op) = None" using none a by simp
      show "op_ok (ext s1) (disk s1) (so_operation_id ?op) ?op"
        using a ids by (auto intro!: prepared_operation_ok simp: is_extension_kind_def is_process_kind_def)
      show "\<not> created (disk s1) (so_container_id ?op) (so_generation ?op)"
        using not_created_above [OF inv a(5)] a(7) by simp
    next
      fix s2 :: DurableStateStore
      assume d2: "disk s2 = (disk s1)\<lparr>operations := put (so_operation_id ?op) ?op (operations (disk s1))\<rparr>"
      then have op: "map_of (operations (disk s2)) ?i = Some ?op" and no: "live_record (disk s2) ?c = None"
        using dir a by (simp_all add: live_record_def)
      show "runs (m_bind (reconcile_prepared_create request driver g) (\<lambda>stored.
       m_bind (append_container_event EV_CREATING (target_exact ?c (cr_generation (sc_record stored)))
                 ContainerCreating fmempty) (\<lambda>_. m_return (PreparedRecord (sc_record stored)))))
     (record_prepared ?i KCreate ?c) s2"
        unfolding reconcile_prepared_create_def
      proof (rule runs_bind, rule runs_reconcile_prepared_container [OF ids(2) op])
        fix r and s3 :: DurableStateStore
        assume "operations (disk s3) = operations (disk s2)" "live_record (disk s3) ?c = Some r"
          "generation_of r = g" "live_record (disk s2) ?c = None \<Longrightarrow> sc_active_operation r = Some ?i"
        then have "owns (disk s3) ?i KCreate ?c (sc_record r)"
          using no op unfolding owns_def by auto
        then show "runs (m_bind (append_container_event EV_CREATING
            (target_exact ?c (cr_generation (sc_record r))) ContainerCreating fmempty)
            (\<lambda>_. m_return (PreparedRecord (sc_record r)))) (record_prepared ?i KCreate ?c) s3"
          by (intro runs_bind runs_append_creating runs_return) (simp_all add: record_prepared_def)
      qed (simp_all add: is_creation_def active_claim_prepared)
    qed simp
  qed
  show ?thesis
    unfolding prepare_create_with_inherited_descriptors_def
    apply (intro runs_bind runs_external)
    apply (rule runs_load_operation_if_present)
     apply (simp_all add: runs_retry_create)
    apply (rule runs_bind, rule runs_validate_deadline, rule runs_bind, rule runs_on_disk, rule runs_bind, rule runs_reject)
    apply (rule fresh; simp)
    done
qed

text \<open>Completion: the record is released, the event is published, then the outcome is settled.\<close>

lemma runs_commit_create_state:
  assumes r: "record_ok (disk s) c r" and pid: "pid > 0"
    and P: "\<And>r'. record_step r r' \<Longrightarrow> sc_active_operation r' = sc_active_operation r \<Longrightarrow>
       sc_init_io_operations r' = sc_init_io_operations r \<Longrightarrow>
       status_of r' = StCreated \<Longrightarrow> st_pid (cr_state (sc_record r')) = Some pid \<Longrightarrow> P r' s"
  shows "runs (commit_create_state r pid) P s"
proof -
  have st: "state_ok (cr_state (sc_record r))" using r by (simp add: record_ok_def)
  have same: "record_step r r" using st by (simp add: record_step_def state_step_def lifecycle_step_def)
  have new: "P (r\<lparr>sc_record := (sc_record r)\<lparr>cr_state := st'\<rparr>\<rparr>) s"
    if "created_state r pid = Inr st'" "status_of r = StCreating" for st'
  proof -
    have b: "rebuild_state (cr_state (sc_record r)) StCreated (Some pid) = Inr st'"
      using that(1) by (simp add: created_state_def lift_transition_def)
    have "state_step (cr_state (sc_record r)) st'"
      using st that(2) pid lifecycle_stepI [of StCreating CreateCompleted StCreated]
      by (intro state_step_rebuild [OF b]) auto
    then show ?thesis
      using rebuild_state_sel [OF b] by (intro P record_step_state) simp_all
  qed
  show ?thesis
    unfolding commit_create_state_def
    apply (cases "status_of r"; simp add: runs_throw)
     apply (intro runs_rules new; simp)
    apply (intro runs_rules P same; simp)
    done
qed

lemma runs_complete_create:
  "runs (complete_create i pid) (record_completed i KCreate (\<lambda>_. {ContainerCreated})
     (\<lambda>rec. st_status (cr_state rec) = StCreated \<and> st_pid (cr_state rec) = Some pid) s) s"
  unfolding complete_create_def
proof (rule runs_bind, rule runs_reject, rule runs_complete_record, rule runs_bind, goal_cases)
  case (1 oper r)
  then show ?case
    by (intro runs_commit_create_state [of _ "so_container_id oper"] runs_completion publishes_container_event)
      (auto simp: ATTR_PID_def ATTR_OPERATION_ID_def)
qed

end
