(* ===== verification/Process_Store.thy ===== *)
theory Process_Store
  imports Operation_Contracts "HOL-Library.List_Lexorder" "HOL-Library.Char_ord"
begin

text \<open>
  Processes inside a container: exec, signal and wait (\<open>state/process.rs\<close>), standard input and terminal
  size (\<open>state/process_io.rs\<close>), and the replay and recovery of exec processes
  (\<open>state/process_recovery.rs\<close>).  The init process is owned through the container record, every other
  process through its own record.
\<close>

section \<open>Names\<close>

definition op_load_process_state :: string where "op_load_process_state = ''load-process-state''"
definition op_prepare_exec :: string where "op_prepare_exec = ''prepare-exec''"
definition op_digest_exec_request :: string where "op_digest_exec_request = ''digest-exec-request''"
definition op_reconcile_exec :: string where "op_reconcile_exec = ''reconcile-exec''"
definition op_reconcile_succeeded_exec :: string where
  "op_reconcile_succeeded_exec = ''reconcile-succeeded-exec''"
definition op_complete_exec :: string where "op_complete_exec = ''complete-exec''"
definition op_append_exec_events :: string where "op_append_exec_events = ''append-exec-events''"
definition op_digest_signal_process_request :: string where
  "op_digest_signal_process_request = ''digest-signal-process-request''"
definition op_prepare_signal_process :: string where
  "op_prepare_signal_process = ''prepare-signal-process''"
definition op_claim_signal_process :: string where "op_claim_signal_process = ''claim-signal-process''"
definition op_complete_signal_process :: string where
  "op_complete_signal_process = ''complete-signal-process''"
definition op_prepare_wait_process :: string where "op_prepare_wait_process = ''prepare-wait-process''"
definition op_complete_process_wait :: string where
  "op_complete_process_wait = ''complete-process-wait''"
definition op_fail_process_operation :: string where
  "op_fail_process_operation = ''fail-process-operation''"
definition op_observe_recreated_exec_processes :: string where
  "op_observe_recreated_exec_processes = ''observe-recreated-exec-processes''"

definition EV_PROCESS_CREATED :: string where "EV_PROCESS_CREATED = ''created''"
definition EV_PROCESS_STARTED :: string where "EV_PROCESS_STARTED = ''started''"
definition EV_PROCESS_EXITED :: string where "EV_PROCESS_EXITED = ''exited''"
definition EV_CONTAINER_STOPPED :: string where "EV_CONTAINER_STOPPED = ''stopped''"
definition ATTR_TERMINAL :: string where "ATTR_TERMINAL = ''terminal''"
definition ATTR_EXIT_CODE :: string where "ATTR_EXIT_CODE = ''exit-code''"
definition ATTR_SIGNAL :: string where "ATTR_SIGNAL = ''signal''"
definition ATTR_OOM_KILLED :: string where "ATTR_OOM_KILLED = ''oom-killed''"

text \<open>\<open>to_string\<close> of booleans.\<close>

definition bool_to_string :: "bool \<Rightarrow> string" where
  "bool_to_string b = (if b then ''true'' else ''false'')"

section \<open>Targets and claims\<close>

definition exact_process_target :: "StoredContainer \<Rightarrow> ProcessId \<Rightarrow> ProcessTarget" where
  "exact_process_target container process_id =
     \<lparr>pt_container = target_exact (sc_id container) (cr_generation (sc_record container)),
      pt_process_id = process_id\<rparr>"

definition ensure_container_unclaimed :: "StoredContainer \<Rightarrow> string \<Rightarrow> error + unit" where
  "ensure_container_unclaimed container operation =
     r_reject (sc_active_operation container \<noteq> None) (retryable True (state_error Conflict operation))"

definition validate_process_retry ::
  "StoredOperation \<Rightarrow> StoredOperationKind \<Rightarrow> ContainerId \<Rightarrow> ProcessId \<Rightarrow> RequestDigests \<Rightarrow> string
     \<Rightarrow> error + unit" where
  "validate_process_retry stored kind container_id process_id digest operation =
     r_bind (validate_retry stored kind container_id digest operation) (\<lambda>_.
       r_reject (so_process_id stored \<noteq> Some process_id) (state_error FailedPrecondition operation))"

definition required_operation_process_id :: "StoredOperation \<Rightarrow> string \<Rightarrow> error + ProcessId" where
  "required_operation_process_id operation operation_name =
     ok_or (state_error FailedPrecondition operation_name) (so_process_id operation)"

definition validate_process_response :: "ProcessRecord \<Rightarrow> StoredOperation \<Rightarrow> string \<Rightarrow> error + unit" where
  "validate_process_response response operation operation_name =
     r_bind (required_operation_process_id operation operation_name) (\<lambda>process_id.
       r_reject (pt_container (pr_target response)
                   \<noteq> target_exact (so_container_id operation) (so_generation operation)
                 \<or> pt_process_id (pr_target response) \<noteq> process_id
                 \<or> pr_pid response = None \<or> pr_pid response = Some 0)
         (state_error FailedPrecondition operation_name))"

definition ensure_active_process_operation :: "StoredProcess \<Rightarrow> OperationId \<Rightarrow> string \<Rightarrow> error + unit" where
  "ensure_active_process_operation process operation_id operation =
     (case sp_active_operation process of
        Some active \<Rightarrow>
          if active = operation_id then Inr () else Inl (state_error Conflict operation)
      | None \<Rightarrow> Inr ())"

definition ensure_active_init_io_operation :: "StoredContainer \<Rightarrow> OperationId \<Rightarrow> string \<Rightarrow> error + unit" where
  "ensure_active_init_io_operation container operation_id operation =
     (if operation_id \<in> sc_init_io_operations container then Inr ()
      else if sc_active_operation container = Some operation_id then Inr ()
      else Inl (state_error Conflict operation))"

definition ensure_active_process_io_operation :: "StoredProcess \<Rightarrow> OperationId \<Rightarrow> string \<Rightarrow> error + unit" where
  "ensure_active_process_io_operation process operation_id operation =
     (if operation_id \<in> sp_active_io_operations process \<or> sp_active_operation process = Some operation_id
      then Inr () else Inl (state_error Conflict operation))"

definition exit_status_attributes :: "ExitStatus \<Rightarrow> (string, string) fmap" where
  "exit_status_attributes status =
     (let attributes = (case es_exit_code status of
                          None \<Rightarrow> fmempty
                        | Some exit_code \<Rightarrow> fmupd ATTR_EXIT_CODE (int_to_string exit_code) fmempty);
          attributes = (case es_signal status of
                          None \<Rightarrow> attributes
                        | Some signal \<Rightarrow> fmupd ATTR_SIGNAL (int_to_string signal) attributes)
      in fmupd ATTR_OOM_KILLED (bool_to_string (es_oom_killed status)) attributes)"

section \<open>Process records\<close>

text \<open>\<open>write_json\<close> below \<open>process_path\<close> of the record's own target.\<close>

definition write_process :: "DurableMutation \<Rightarrow> StoredProcess \<Rightarrow> unit store_m" where
  "write_process mutation process =
     atomic_write mutation
       (ProcessPath (Live (ct_id (pt_container (pr_target (sp_record process)))))
          (pt_process_id (pr_target (sp_record process)))) (ProcessFile process)"

definition load_stored_process_from_path :: "ProcessTarget \<Rightarrow> directory \<Rightarrow> StoredProcess store_m" where
  "load_stored_process_from_path target directory =
     m_bind (m_lift (ok_or (state_error InvalidArgument op_load_process_state)
               (ct_generation (pt_container target)))) (\<lambda>generation.
     m_bind (on_disk (\<lambda>d. Option.bind (Option.bind (map_of (directories d) directory) cd_processes)
                           (\<lambda>ps. map_of ps (pt_process_id target)))) (\<lambda>file.
     m_bind (m_lift (ok_or missing_file file)) (\<lambda>process.
     m_bind (m_reject (sp_schema_version process \<noteq> PROCESS_SCHEMA_VERSION
                       \<or> pr_target (sp_record process) \<noteq> target
                       \<or> ct_generation (pt_container (pr_target (sp_record process))) \<noteq> Some generation
                       \<or> pr_pid (sp_record process) = Some 0)
               (state_error FailedPrecondition op_load_process_state)) (\<lambda>_.
     m_bind (m_lift (case sp_exit_status process of
                       None \<Rightarrow> Inr ()
                     | Some exit \<Rightarrow> exit_status_validate exit)) (\<lambda>_.
       m_return process)))))"

definition load_stored_process :: "ProcessTarget \<Rightarrow> StoredProcess store_m" where
  "load_stored_process target =
     m_bind (m_lift (ok_or (state_error InvalidArgument op_load_process_state)
               (ct_generation (pt_container target)))) (\<lambda>_.
     m_bind (on_disk (\<lambda>d. process_table d (ct_id (pt_container target)))) (\<lambda>directory.
     m_bind (m_reject (directory = None) (state_error NotFound op_load_process_state)) (\<lambda>_.
     m_bind (on_disk (\<lambda>d. process_record d (ct_id (pt_container target)) (pt_process_id target))) (\<lambda>file.
     m_bind (m_reject (file = None) (state_error NotFound op_load_process_state)) (\<lambda>_.
       load_stored_process_from_path target (Live (ct_id (pt_container target))))))))"

definition ensure_process_directory :: "ContainerId \<Rightarrow> unit store_m" where
  "ensure_process_directory i =
     m_bind (on_disk (\<lambda>d. process_table d i)) (\<lambda>present.
       case present of
         Some _ \<Rightarrow> m_return ()
       | None \<Rightarrow> create_process_directory (Live i))"

text \<open>What \<open>read_directory\<close> lists: the committed records and the left-over transaction files.\<close>

definition process_entries :: "ContainerId \<Rightarrow> DurableStateStore \<Rightarrow> string list" where
  "process_entries i s =
     (case process_table (disk s) i of None \<Rightarrow> [] | Some ps \<Rightarrow> map (\<lambda>(p, _). json_name p) ps)
     @ concat (map (\<lambda>path. case path of
                             ProcessPath k p \<Rightarrow> if k = Live i then [transaction_name (json_name p)] else []
                           | _ \<Rightarrow> []) (temps s))"

definition parse_process_file_name :: "string \<Rightarrow> string \<Rightarrow> error + ProcessId" where
  "parse_process_file_name operation file_name =
     r_bind (ok_or (state_error FailedPrecondition operation) (strip_suffix_str ''.json'' file_name)) (\<lambda>value.
       map_err (\<lambda>_. state_error FailedPrecondition operation) (validate_identifier value))"

definition ensure_no_active_process_operations :: "StoredContainer \<Rightarrow> string \<Rightarrow> unit store_m" where
  "ensure_no_active_process_operations container operation =
     (let conflict = retryable True (state_error Conflict operation) in
      m_bind (m_reject (sc_init_io_operations container \<noteq> {}) conflict) (\<lambda>_.
      m_bind (case sc_active_operation container of
                None \<Rightarrow> m_return ()
              | Some operation_id \<Rightarrow>
                  m_bind (load_operation operation_id) (\<lambda>operation_record.
                    m_reject (is_process_io_kind (so_kind operation_record)) conflict)) (\<lambda>_.
      m_bind (on_disk (\<lambda>d. process_table d (sc_id container))) (\<lambda>directory.
        case directory of
          None \<Rightarrow> m_return ()
        | Some _ \<Rightarrow>
            m_bind (m_gets (process_entries (sc_id container))) (\<lambda>file_names.
              m_foreach file_names (\<lambda>file_name.
                m_bind (m_lift (parse_process_file_name operation file_name)) (\<lambda>process_id.
                m_bind (load_stored_process (exact_process_target container process_id)) (\<lambda>process.
                  m_reject (sp_active_operation process \<noteq> None \<or> sp_active_io_operations process \<noteq> {})
                    conflict))))))))"

definition migrate_legacy_process_io_claim ::
  "StoredProcess \<Rightarrow> (OperationId option \<times> StoredProcess) store_m" where
  "migrate_legacy_process_io_claim process =
     (let target = pr_target (sp_record process) in
      case sp_active_operation process of
        None \<Rightarrow> m_return (None, process)
      | Some operation_id \<Rightarrow>
          m_bind (load_operation operation_id) (\<lambda>operation.
            if \<not> is_process_io_kind (so_kind operation) then m_return (None, process)
            else
              m_bind (m_lift (ok_or (state_error FailedPrecondition op_migrate_claim)
                        (ct_generation (pt_container target)))) (\<lambda>generation.
              m_bind (m_lift (validate_legacy_io_operation operation (ct_id (pt_container target)) generation
                        (is_init (pt_process_id target)))) (\<lambda>_.
              m_bind (m_reject (so_process_id operation \<noteq> Some (pt_process_id target))
                        (state_error FailedPrecondition op_migrate_claim)) (\<lambda>_.
                m_return (Some operation_id,
                  process\<lparr>sp_active_operation := None,
                          sp_active_io_operations :=
                            insert operation_id (sp_active_io_operations process)\<rparr>))))))"

definition claim_active_process_operation ::
  "StoredProcess \<Rightarrow> OperationId \<Rightarrow> DurableMutation \<Rightarrow> string \<Rightarrow> StoredProcess store_m" where
  "claim_active_process_operation process operation_id mutation operation =
     (if sp_active_operation process = Some operation_id then m_return process
      else
        m_bind (case sp_active_operation process of
                  None \<Rightarrow> m_return process
                | Some active \<Rightarrow>
                    m_bind (migrate_legacy_process_io_claim process) (\<lambda>(migrated, process').
                    m_bind (m_reject (migrated = None) (state_error Conflict operation)) (\<lambda>_.
                      m_return process'))) (\<lambda>unclaimed.
        (let claimed_process = unclaimed\<lparr>sp_active_operation := Some operation_id\<rparr> in
         m_bind (write_process mutation claimed_process) (\<lambda>_. m_return claimed_process))))"

definition release_process_operation_claim ::
  "StoredOperation \<Rightarrow> OperationId \<Rightarrow> DurableMutation \<Rightarrow> string \<Rightarrow> unit store_m" where
  "release_process_operation_claim operation operation_id mutation operation_name =
     m_bind (load_stored_exact (so_container_id operation) (so_generation operation)) (\<lambda>container.
     m_bind (m_lift (required_operation_process_id operation operation_name)) (\<lambda>process_id.
     (let target = exact_process_target container process_id in
      if is_init (pt_process_id target) then
        m_bind (m_lift (ensure_active_init_io_operation container operation_id operation_name)) (\<lambda>_.
        (let removed = operation_id \<in> sc_init_io_operations container;
             owned = sc_active_operation container = Some operation_id in
         if removed \<or> owned then
           write_container mutation (sc_id container)
             (container\<lparr>sc_init_io_operations := sc_init_io_operations container - {operation_id},
                        sc_active_operation := (if owned then None else sc_active_operation container)\<rparr>)
         else m_return ()))
      else
        m_bind (load_stored_process target) (\<lambda>process.
        m_bind (m_lift (ensure_active_process_io_operation process operation_id operation_name)) (\<lambda>_.
        (let removed = operation_id \<in> sp_active_io_operations process;
             owned = sp_active_operation process = Some operation_id in
         if removed \<or> owned then
           write_process mutation
             (process\<lparr>sp_active_io_operations := sp_active_io_operations process - {operation_id},
                      sp_active_operation := (if owned then None else sp_active_operation process)\<rparr>)
         else m_return ()))))))"

definition release_failed_process_operation :: "StoredOperation \<Rightarrow> DurableMutation \<Rightarrow> unit store_m" where
  "release_failed_process_operation operation mutation =
     release_process_operation_claim operation (so_operation_id operation) mutation
       op_fail_process_operation"

definition resolve_process_target :: "ProcessTarget \<Rightarrow> string \<Rightarrow> ProcessTarget store_m" where
  "resolve_process_target requested operation =
     m_bind (load_stored_container (ct_id (pt_container requested))) (\<lambda>container.
     m_bind (m_lift (validate_requested_generation container (pt_container requested) operation)) (\<lambda>_.
     (let target = exact_process_target container (pt_process_id requested) in
      if is_init (pt_process_id target) then
        m_bind (m_reject (st_status (cr_state (sc_record container)) = StCreating)
                  (state_error FailedPrecondition operation)) (\<lambda>_. m_return target)
      else
        m_bind (load_stored_process target) (\<lambda>process.
        m_bind (m_reject (pr_pid (sp_record process) = None)
                  (state_error FailedPrecondition operation)) (\<lambda>_. m_return target)))))"

section \<open>Exec\<close>

definition append_exec_events :: "ProcessRecord \<Rightarrow> unit store_m" where
  "append_exec_events process =
     m_bind (m_lift (ok_or (state_error FailedPrecondition op_append_exec_events) (pr_pid process))) (\<lambda>pid.
     m_bind (m_reject (pid = 0) (state_error FailedPrecondition op_append_exec_events)) (\<lambda>_.
     (let attributes = fmupd ATTR_TERMINAL (bool_to_string (pr_terminal process))
                         (fmupd ATTR_PID (print_nat (unat pid)) fmempty);
          target = pr_target process in
      m_bind (append_process_event EV_PROCESS_CREATED (pt_container target) (pt_process_id target)
                ProcessCreatedEvent attributes) (\<lambda>_.
      m_bind (append_process_event EV_PROCESS_STARTED (pt_container target) (pt_process_id target)
                ProcessStartedEvent attributes) (\<lambda>_.
        m_return ())))))"

definition reconcile_prepared_exec :: "ExecRequest \<Rightarrow> StoredOperation \<Rightarrow> StoredProcess store_m" where
  "reconcile_prepared_exec request operation =
     m_bind (load_stored_exact (so_container_id operation) (so_generation operation)) (\<lambda>container.
     m_bind (m_lift (ensure_container_unclaimed container op_reconcile_exec)) (\<lambda>_.
     m_bind (m_lift (required_operation_process_id operation op_reconcile_exec)) (\<lambda>process_id.
     (let target = exact_process_target container process_id in
      m_bind (ensure_process_directory (sc_id container)) (\<lambda>_.
      m_bind (m_gets (\<lambda>s. x_process_terminal (ext s) (xq_process request))) (\<lambda>terminal.
      (let terminal = (case terminal of None \<Rightarrow> False | Some t \<Rightarrow> t) in
       m_bind (on_disk (\<lambda>d. process_record d (sc_id container) process_id)) (\<lambda>present.
         case present of
           Some _ \<Rightarrow>
             m_bind (load_stored_process target) (\<lambda>process.
             m_bind (m_reject (pr_terminal (sp_record process) \<noteq> terminal)
                       (state_error Conflict op_reconcile_exec)) (\<lambda>_.
               m_return process))
         | None \<Rightarrow>
             (let process =
                \<lparr>sp_schema_version = PROCESS_SCHEMA_VERSION,
                 sp_record = \<lparr>pr_target = target, pr_pid = None, pr_terminal = terminal\<rparr>,
                 sp_active_operation = Some (so_operation_id operation),
                 sp_active_io_operations = {}, sp_exit_status = None\<rparr>
              in m_bind (write_process StoreExecutingProcess process) (\<lambda>_. m_return process))))))))))"

definition reconcile_succeeded_exec ::
  "StoredOperation \<Rightarrow> ProcessRecord \<Rightarrow> ProcessOperationPreparation store_m" where
  "reconcile_succeeded_exec operation response =
     m_bind (m_lift (validate_process_response response operation op_reconcile_succeeded_exec)) (\<lambda>_.
     m_bind (m_try (load_stored_container (so_container_id operation))) (\<lambda>result.
       case result of
         Inl e \<Rightarrow>
           if err_code e = NotFound then m_return (ReplayedProcess response) else m_throw e
       | Inr container \<Rightarrow>
           if cr_generation (sc_record container) \<noteq> so_generation operation
           then m_return (ReplayedProcess response)
           else
             m_bind (m_lift (required_operation_process_id operation op_reconcile_succeeded_exec)) (\<lambda>process_id.
             m_bind (load_stored_process (exact_process_target container process_id)) (\<lambda>process.
               if sp_record process = response then m_return (ReplayedProcess response)
               else
                 m_bind (m_reject (st_status (cr_state (sc_record container)) \<noteq> StRunning
                                   \<or> sp_exit_status process \<noteq> None
                                   \<or> pr_target (sp_record process) \<noteq> pr_target response
                                   \<or> pr_terminal (sp_record process) \<noteq> pr_terminal response
                                   \<or> pr_pid (sp_record process) = None)
                           (state_error Conflict op_reconcile_succeeded_exec)) (\<lambda>_.
                 m_bind (write_operation (ReconcileOperation KExec)
                           (operation\<lparr>so_outcome := SucceededProcess (sp_record process)\<rparr>)) (\<lambda>_.
                   m_return (ReplayedProcess (sp_record process))))))))"

text \<open>A prepared exec whose process already has its PID is finished without the driver.\<close>

definition finish_exec :: "StoredOperation \<Rightarrow> StoredProcess \<Rightarrow> ProcessOperationPreparation store_m" where
  "finish_exec operation process =
     m_bind (m_lift (ensure_active_process_operation process (so_operation_id operation)
               op_prepare_exec)) (\<lambda>_.
     m_bind (case sp_active_operation process of
               None \<Rightarrow> m_return ()
             | Some _ \<Rightarrow> write_process (ReconcileProcess KExec) (process\<lparr>sp_active_operation := None\<rparr>)) (\<lambda>_.
     m_bind (append_exec_events (sp_record process)) (\<lambda>_.
     m_bind (write_operation (ReconcileOperation KExec)
               (operation\<lparr>so_outcome := SucceededProcess (sp_record process)\<rparr>)) (\<lambda>_.
       m_return (ReplayedProcess (sp_record process))))))"

definition retry_exec ::
  "ExecRequest \<Rightarrow> RequestDigests \<Rightarrow> StoredOperation \<Rightarrow> ProcessOperationPreparation store_m" where
  "retry_exec request digest operation =
     m_bind (m_lift (validate_process_retry operation KExec (ct_id (xq_container request))
               (xq_process_id request) digest op_prepare_exec)) (\<lambda>_.
       on_process_outcome op_prepare_exec (so_outcome operation)
         (reconcile_succeeded_exec operation)
         (m_bind (reconcile_prepared_exec request operation) (\<lambda>process.
            if pr_pid (sp_record process) \<noteq> None then finish_exec operation process
            else
              m_bind (claim_active_process_operation process (oc_operation_id (xq_context request))
                        (ClaimOperation KExec) op_prepare_exec) (\<lambda>process.
                m_return (ResumeProcess (sp_record process))))))"

definition prepare_exec :: "ExecRequest \<Rightarrow> ProcessOperationPreparation store_m" where
  "prepare_exec request =
     m_bind (external (\<lambda>x. exec_validate x request)) (\<lambda>_.
     m_bind (external (\<lambda>x. request_digest x (ExecFingerprint (xq_container request) (xq_process_id request)
               (xq_process request) (xq_io request)) op_digest_exec_request)) (\<lambda>digest.
     m_bind (load_operation_if_present (oc_operation_id (xq_context request))) (\<lambda>existing.
       case existing of
         Some operation \<Rightarrow> retry_exec request digest operation
       | None \<Rightarrow>
           m_bind (validate_deadline (xq_context request) op_prepare_exec) (\<lambda>_.
           m_bind (load_stored_container (ct_id (xq_container request))) (\<lambda>container.
           m_bind (m_lift (validate_requested_generation container (xq_container request) op_prepare_exec)) (\<lambda>_.
           m_bind (m_lift (ensure_container_unclaimed container op_prepare_exec)) (\<lambda>_.
           m_bind (m_reject (st_status (cr_state (sc_record container)) \<noteq> StRunning)
                     (state_error FailedPrecondition op_prepare_exec)) (\<lambda>_.
           m_bind (m_reject (is_paused (cr_state (sc_record container)))
                     (state_error FailedPrecondition op_prepare_exec)) (\<lambda>_.
           m_bind (ensure_process_directory (sc_id container)) (\<lambda>_.
           m_bind (on_disk (\<lambda>d. process_record d (sc_id container) (xq_process_id request))) (\<lambda>present.
           m_bind (m_reject (present \<noteq> None) (state_error AlreadyExists op_prepare_exec)) (\<lambda>_.
           (let operation = prepared_operation (oc_operation_id (xq_context request)) KExec (sc_id container)
                  (cr_generation (sc_record container)) (Some (xq_process_id request)) digest in
            m_bind (write_operation (PrepareOperation KExec) operation) (\<lambda>_.
            m_bind (reconcile_prepared_exec request operation) (\<lambda>process.
              m_return (PreparedProcess (sp_record process)))))))))))))))))"

text \<open>The PID of a completion is an \<open>i32\<close>.\<close>

definition complete_exec :: "OperationId \<Rightarrow> int \<Rightarrow> bool \<Rightarrow> ProcessRecord store_m" where
  "complete_exec operation_id pid terminal =
     m_bind (m_reject (pid < 0) (state_error InvalidArgument op_complete_exec)) (\<lambda>_.
     (let pid = (word_of_int pid :: u32) in
      m_bind (m_reject (pid = 0) (state_error InvalidArgument op_complete_exec)) (\<lambda>_.
      m_bind (load_operation operation_id) (\<lambda>operation.
      m_bind (m_reject (so_kind operation \<noteq> KExec) (state_error FailedPrecondition op_complete_exec)) (\<lambda>_.
        on_process_outcome op_complete_exec (so_outcome operation) m_return
         (m_bind (load_stored_exact (so_container_id operation) (so_generation operation)) (\<lambda>container.
          m_bind (m_lift (required_operation_process_id operation op_complete_exec)) (\<lambda>process_id.
          m_bind (load_stored_process (exact_process_target container process_id)) (\<lambda>process.
          m_bind (m_lift (ensure_active_process_operation process operation_id op_complete_exec)) (\<lambda>_.
          m_bind (m_reject (pr_terminal (sp_record process) \<noteq> terminal)
                    (state_error Conflict op_complete_exec)) (\<lambda>_.
          m_bind (m_reject (case pr_pid (sp_record process) of None \<Rightarrow> False | Some existing \<Rightarrow> existing \<noteq> pid)
                    (state_error Conflict op_complete_exec)) (\<lambda>_.
          (let process = process\<lparr>sp_record := (sp_record process)\<lparr>pr_pid := Some pid\<rparr>,
                                 sp_active_operation := None\<rparr> in
           m_bind (write_process (CompleteRecord KExec) process) (\<lambda>_.
           m_bind (append_exec_events (sp_record process)) (\<lambda>_.
           m_bind (write_operation (CompleteOperation KExec)
                     (operation\<lparr>so_outcome := SucceededProcess (sp_record process)\<rparr>)) (\<lambda>_.
             m_return (sp_record process)))))))))))))))))"

section \<open>Signal\<close>

definition validate_signal_target :: "StoredContainer \<Rightarrow> ProcessTarget \<Rightarrow> unit store_m" where
  "validate_signal_target container target =
     m_bind (m_reject (st_status (cr_state (sc_record container)) \<notin> {StCreated, StRunning})
               (state_error FailedPrecondition op_prepare_signal_process)) (\<lambda>_.
       if is_init (pt_process_id target) then m_return ()
       else
         m_bind (load_stored_process target) (\<lambda>process.
         m_bind (m_reject (pr_pid (sp_record process) = None)
                   (state_error FailedPrecondition op_prepare_signal_process)) (\<lambda>_.
           m_reject (sp_exit_status process \<noteq> None)
             (state_error FailedPrecondition op_prepare_signal_process))))"

definition claim_signal_process :: "StoredOperation \<Rightarrow> OperationId \<Rightarrow> ProcessTarget store_m" where
  "claim_signal_process operation operation_id =
     m_bind (load_stored_exact (so_container_id operation) (so_generation operation)) (\<lambda>container.
     m_bind (m_lift (required_operation_process_id operation op_claim_signal_process)) (\<lambda>process_id.
     (let target = exact_process_target container process_id in
      if is_init (pt_process_id target) then
        m_bind (claim_active_operation container operation_id (ClaimOperation KSignalProcess)
                  op_claim_signal_process) (\<lambda>_. m_return target)
      else
        m_bind (m_lift (ensure_container_unclaimed container op_claim_signal_process)) (\<lambda>_.
        m_bind (load_stored_process target) (\<lambda>process.
        m_bind (claim_active_process_operation process operation_id (ClaimOperation KSignalProcess)
                  op_claim_signal_process) (\<lambda>_. m_return target))))))"

definition prepare_signal_process :: "SignalProcessRequest \<Rightarrow> SignalProcessPreparation store_m" where
  "prepare_signal_process request =
     (let operation_id = oc_operation_id (sq_context request); requested = sq_process request in
      m_bind (external (\<lambda>x. request_digest x (SignalProcessFingerprint requested (sq_signal request))
                op_digest_signal_process_request)) (\<lambda>digest.
      m_bind (load_operation_if_present operation_id) (\<lambda>existing.
        case existing of
          Some operation \<Rightarrow>
            m_bind (m_lift (validate_process_retry operation KSignalProcess (ct_id (pt_container requested))
                      (pt_process_id requested) digest op_prepare_signal_process)) (\<lambda>_.
              on_empty_outcome op_prepare_signal_process (so_outcome operation)
                (m_return SignalReplayed)
                (m_bind (claim_signal_process operation operation_id) (\<lambda>target.
                   m_return (SignalResume target))))
        | None \<Rightarrow>
            m_bind (validate_deadline (sq_context request) op_prepare_signal_process) (\<lambda>_.
            m_bind (load_stored_container (ct_id (pt_container requested))) (\<lambda>container.
            m_bind (m_lift (validate_requested_generation container (pt_container requested)
                      op_prepare_signal_process)) (\<lambda>_.
            m_bind (m_lift (ensure_container_unclaimed container op_prepare_signal_process)) (\<lambda>_.
            (let target = exact_process_target container (pt_process_id requested);
                 operation = prepared_operation operation_id KSignalProcess (sc_id container)
                   (cr_generation (sc_record container)) (Some (pt_process_id target)) digest in
             m_bind (validate_signal_target container target) (\<lambda>_.
             m_bind (write_operation (PrepareOperation KSignalProcess) operation) (\<lambda>_.
             m_bind (claim_signal_process operation operation_id) (\<lambda>target.
               m_return (SignalPrepared target))))))))))))"

definition complete_signal_process :: "OperationId \<Rightarrow> unit store_m" where
  "complete_signal_process operation_id =
     m_bind (load_operation operation_id) (\<lambda>operation.
     m_bind (m_reject (so_kind operation \<noteq> KSignalProcess)
               (state_error FailedPrecondition op_complete_signal_process)) (\<lambda>_.
       on_empty_outcome op_complete_signal_process (so_outcome operation) (m_return ())
         (m_bind (release_process_operation_claim operation operation_id (CompleteRecord KSignalProcess)
                    op_complete_signal_process) (\<lambda>_.
            write_operation (CompleteOperation KSignalProcess) (operation\<lparr>so_outcome := SucceededEmpty\<rparr>)))))"

section \<open>Wait\<close>

record WaitProcessRequest =
  wp_process :: ProcessTarget
  wp_timeout_ms :: "u64 option"

definition prepare_wait_process :: "WaitProcessRequest \<Rightarrow> ProcessWaitPreparation store_m" where
  "prepare_wait_process request =
     (let requested = wp_process request in
      m_bind (load_stored_container (ct_id (pt_container requested))) (\<lambda>container.
      m_bind (m_lift (validate_requested_generation container (pt_container requested)
                op_prepare_wait_process)) (\<lambda>_.
      (let target = exact_process_target container (pt_process_id requested) in
       if is_init (pt_process_id target) then
         (case sc_init_exit_status container of
            Some status \<Rightarrow> m_return (WaitReplayed status)
          | None \<Rightarrow>
              m_bind (m_reject (st_status (cr_state (sc_record container)) = StCreating)
                        (state_error FailedPrecondition op_prepare_wait_process)) (\<lambda>_.
                m_return (WaitPrepared target)))
       else
         m_bind (load_stored_process target) (\<lambda>process.
           case sp_exit_status process of
             Some status \<Rightarrow> m_return (WaitReplayed status)
           | None \<Rightarrow>
               m_bind (m_reject (pr_pid (sp_record process) = None)
                         (state_error FailedPrecondition op_prepare_wait_process)) (\<lambda>_.
                 m_return (WaitPrepared target)))))))"

text \<open>A recorded exit status is replayed when it agrees and is a conflict otherwise.\<close>

definition replay_exit_status :: "ExitStatus \<Rightarrow> ExitStatus \<Rightarrow> ExitStatus store_m" where
  "replay_exit_status existing status =
     (if existing = status then m_return existing
      else m_throw (state_error Conflict op_complete_process_wait))"

definition complete_init_wait :: "StoredContainer \<Rightarrow> ProcessTarget \<Rightarrow> ExitStatus \<Rightarrow> ExitStatus store_m" where
  "complete_init_wait container target status =
     (case sc_init_exit_status container of
        Some existing \<Rightarrow> replay_exit_status existing status
      | None \<Rightarrow>
          m_bind (case st_status (cr_state (sc_record container)) of
                    StCreating \<Rightarrow> m_throw (state_error FailedPrecondition op_complete_process_wait)
                  | StStopped \<Rightarrow> m_return (False, container)
                  | _ \<Rightarrow>
                      m_bind (m_lift (rebuild_state (cr_state (sc_record container)) StStopped None)) (\<lambda>state.
                      m_bind (external (\<lambda>x. x_validate_state x state)) (\<lambda>_.
                        m_return (True, container\<lparr>sc_record := (sc_record container)\<lparr>cr_state := state\<rparr>\<rparr>))))
            (\<lambda>(stopped_now, container).
          m_bind (append_process_event EV_PROCESS_EXITED (pt_container target) (pt_process_id target)
                    ProcessExitedEvent (exit_status_attributes status)) (\<lambda>_.
          m_bind (if stopped_now
                  then m_bind (append_container_event EV_CONTAINER_STOPPED (pt_container target)
                         ContainerStopped fmempty) (\<lambda>_. m_return ())
                  else m_return ()) (\<lambda>_.
          m_bind (write_container CacheInitWait (sc_id container)
                    (container\<lparr>sc_init_exit_status := Some status\<rparr>)) (\<lambda>_.
            m_return status)))))"

definition complete_process_wait :: "ProcessTarget \<Rightarrow> ExitStatus \<Rightarrow> ExitStatus store_m" where
  "complete_process_wait target status =
     m_bind (m_lift (exit_status_validate status)) (\<lambda>_.
     m_bind (m_lift (ok_or (state_error InvalidArgument op_complete_process_wait)
               (ct_generation (pt_container target)))) (\<lambda>generation.
     m_bind (load_stored_exact (ct_id (pt_container target)) generation) (\<lambda>container.
       if is_init (pt_process_id target) then complete_init_wait container target status
       else
         m_bind (load_stored_process target) (\<lambda>process.
           case sp_exit_status process of
             Some existing \<Rightarrow> replay_exit_status existing status
           | None \<Rightarrow>
               m_bind (append_process_event EV_PROCESS_EXITED (pt_container target) (pt_process_id target)
                         ProcessExitedEvent (exit_status_attributes status)) (\<lambda>_.
               m_bind (write_process CacheProcessWait (process\<lparr>sp_exit_status := Some status\<rparr>)) (\<lambda>_.
                 m_return status))))))"

section \<open>Process I/O\<close>

record ProcessIoOperation =
  pf_kind :: StoredOperationKind
  pf_name :: string
  pf_prepare :: DurableMutation
  pf_claim :: DurableMutation
  pf_complete_record :: DurableMutation
  pf_complete_operation :: DurableMutation

definition WRITE_STDIN :: ProcessIoOperation where
  "WRITE_STDIN = \<lparr>pf_kind = KWriteStdin, pf_name = ''write-stdin'', pf_prepare = PrepareOperation KWriteStdin,
     pf_claim = ClaimOperation KWriteStdin, pf_complete_record = CompleteRecord KWriteStdin,
     pf_complete_operation = CompleteOperation KWriteStdin\<rparr>"

definition CLOSE_STDIN :: ProcessIoOperation where
  "CLOSE_STDIN = \<lparr>pf_kind = KCloseStdin, pf_name = ''close-stdin'', pf_prepare = PrepareOperation KCloseStdin,
     pf_claim = ClaimOperation KCloseStdin, pf_complete_record = CompleteRecord KCloseStdin,
     pf_complete_operation = CompleteOperation KCloseStdin\<rparr>"

definition RESIZE :: ProcessIoOperation where
  "RESIZE = \<lparr>pf_kind = KResize, pf_name = ''resize'', pf_prepare = PrepareOperation KResize,
     pf_claim = ClaimOperation KResize, pf_complete_record = CompleteRecord KResize,
     pf_complete_operation = CompleteOperation KResize\<rparr>"

definition ensure_init_io_lifecycle_compatible :: "StoredContainer \<Rightarrow> string \<Rightarrow> unit store_m" where
  "ensure_init_io_lifecycle_compatible container operation_name =
     (case sc_active_operation container of
        None \<Rightarrow> m_return ()
      | Some active_id \<Rightarrow>
          m_bind (load_operation active_id) (\<lambda>active.
            m_reject (so_kind active \<in> {KDelete, KCheckpoint})
              (retryable True (state_error Conflict operation_name))))"

definition ensure_process_io_lifecycle_compatible :: "StoredContainer \<Rightarrow> string \<Rightarrow> unit store_m" where
  "ensure_process_io_lifecycle_compatible container operation_name =
     ensure_init_io_lifecycle_compatible container operation_name"

definition validate_process_io_target :: "StoredContainer \<Rightarrow> ProcessTarget \<Rightarrow> string \<Rightarrow> unit store_m" where
  "validate_process_io_target container target operation =
     (if is_init (pt_process_id target) then
        m_reject (st_status (cr_state (sc_record container)) = StCreating)
          (state_error FailedPrecondition operation)
      else
        m_bind (load_stored_process target) (\<lambda>process.
          m_reject (pr_pid (sp_record process) = None) (state_error FailedPrecondition operation)))"

definition claim_init_io_operation ::
  "StoredContainer \<Rightarrow> StoredOperation \<Rightarrow> ProcessIoOperation \<Rightarrow> unit store_m" where
  "claim_init_io_operation container operation profile =
     (if so_operation_id operation \<in> sc_init_io_operations container then m_return ()
      else
        (let container = (if sc_active_operation container = Some (so_operation_id operation)
                          then container\<lparr>sc_active_operation := None\<rparr> else container) in
         write_container (pf_claim profile) (sc_id container)
           (container\<lparr>sc_init_io_operations :=
                       insert (so_operation_id operation) (sc_init_io_operations container)\<rparr>)))"

text \<open>The free function \<open>claim_process_io_operation\<close> on a loaded process record.\<close>

definition claim_process_record_io ::
  "StoredProcess \<Rightarrow> StoredOperation \<Rightarrow> ProcessIoOperation \<Rightarrow> unit store_m" where
  "claim_process_record_io process operation profile =
     (if so_operation_id operation \<in> sp_active_io_operations process then m_return ()
      else
        (let process = (if sp_active_operation process = Some (so_operation_id operation)
                        then process\<lparr>sp_active_operation := None\<rparr> else process) in
         write_process (pf_claim profile)
           (process\<lparr>sp_active_io_operations :=
                     insert (so_operation_id operation) (sp_active_io_operations process)\<rparr>)))"

definition claim_process_io_operation :: "StoredOperation \<Rightarrow> ProcessIoOperation \<Rightarrow> ProcessTarget store_m" where
  "claim_process_io_operation operation profile =
     m_bind (load_stored_exact (so_container_id operation) (so_generation operation)) (\<lambda>container.
     m_bind (m_lift (required_operation_process_id operation (pf_name profile))) (\<lambda>process_id.
     (let target = exact_process_target container process_id in
      m_bind (if is_init (pt_process_id target) then
                m_bind (ensure_init_io_lifecycle_compatible container (pf_name profile)) (\<lambda>_.
                  claim_init_io_operation container operation profile)
              else
                m_bind (ensure_process_io_lifecycle_compatible container (pf_name profile)) (\<lambda>_.
                m_bind (load_stored_process target) (\<lambda>process.
                  claim_process_record_io process operation profile))) (\<lambda>_.
        m_return target))))"

definition prepare_process_io_operation ::
  "OperationContext \<Rightarrow> ProcessTarget \<Rightarrow> RequestDigests \<Rightarrow> ProcessIoOperation \<Rightarrow> ProcessIoPreparation store_m" where
  "prepare_process_io_operation context requested digest profile =
     m_bind (load_operation_if_present (oc_operation_id context)) (\<lambda>existing.
       case existing of
         Some operation \<Rightarrow>
           m_bind (m_lift (validate_process_retry operation (pf_kind profile) (ct_id (pt_container requested))
                     (pt_process_id requested) digest (pf_name profile))) (\<lambda>_.
             on_empty_outcome (pf_name profile) (so_outcome operation) (m_return IoReplayed)
               (m_bind (claim_process_io_operation operation profile) (\<lambda>target.
                  m_return (IoResume target))))
       | None \<Rightarrow>
           m_bind (validate_deadline context (pf_name profile)) (\<lambda>_.
           m_bind (load_stored_container (ct_id (pt_container requested))) (\<lambda>container.
           m_bind (m_lift (validate_requested_generation container (pt_container requested)
                     (pf_name profile))) (\<lambda>_.
           (let target = exact_process_target container (pt_process_id requested);
                operation = prepared_operation (oc_operation_id context) (pf_kind profile) (sc_id container)
                  (cr_generation (sc_record container)) (Some (pt_process_id target)) digest in
            m_bind (if is_init (pt_process_id target)
                    then ensure_init_io_lifecycle_compatible container (pf_name profile)
                    else ensure_process_io_lifecycle_compatible container (pf_name profile)) (\<lambda>_.
            m_bind (validate_process_io_target container target (pf_name profile)) (\<lambda>_.
            m_bind (write_operation (pf_prepare profile) operation) (\<lambda>_.
            m_bind (claim_process_io_operation operation profile) (\<lambda>target.
              m_return (IoPrepared target))))))))))"

definition complete_process_io_operation :: "OperationId \<Rightarrow> ProcessIoOperation \<Rightarrow> unit store_m" where
  "complete_process_io_operation operation_id profile =
     m_bind (load_operation operation_id) (\<lambda>operation.
     m_bind (m_reject (so_kind operation \<noteq> pf_kind profile)
               (state_error FailedPrecondition (pf_name profile))) (\<lambda>_.
       on_empty_outcome (pf_name profile) (so_outcome operation) (m_return ())
         (m_bind (release_process_operation_claim operation operation_id (pf_complete_record profile)
                    (pf_name profile)) (\<lambda>_.
            write_operation (pf_complete_operation profile) (operation\<lparr>so_outcome := SucceededEmpty\<rparr>)))))"

definition op_digest_write_stdin_request :: string where
  "op_digest_write_stdin_request = ''digest-write-stdin-request''"
definition op_digest_close_stdin_request :: string where
  "op_digest_close_stdin_request = ''digest-close-stdin-request''"
definition op_digest_resize_request :: string where
  "op_digest_resize_request = ''digest-resize-request''"

definition prepare_write_stdin :: "WriteStdinRequest \<Rightarrow> ProcessIoPreparation store_m" where
  "prepare_write_stdin request =
     m_bind (m_lift (write_stdin_validate request)) (\<lambda>_.
     m_bind (external (\<lambda>x. request_digest x (WriteStdinFingerprint (wq_process request) (wq_data request))
               op_digest_write_stdin_request)) (\<lambda>digest.
       prepare_process_io_operation (wq_context request) (wq_process request) digest WRITE_STDIN))"

definition prepare_close_stdin :: "CloseStdinRequest \<Rightarrow> ProcessIoPreparation store_m" where
  "prepare_close_stdin request =
     m_bind (external (\<lambda>x. request_digest x (ProcessTargetFingerprint (clq_process request))
               op_digest_close_stdin_request)) (\<lambda>digest.
       prepare_process_io_operation (clq_context request) (clq_process request) digest CLOSE_STDIN)"

definition prepare_resize :: "ResizeRequest \<Rightarrow> ProcessIoPreparation store_m" where
  "prepare_resize request =
     m_bind (m_lift (resize_validate request)) (\<lambda>_.
     m_bind (external (\<lambda>x. request_digest x (ResizeFingerprint (rz_process request)
               (ts_width (rz_size request)) (ts_height (rz_size request)))
               op_digest_resize_request)) (\<lambda>digest.
       prepare_process_io_operation (rz_context request) (rz_process request) digest RESIZE))"

definition complete_write_stdin :: "OperationId \<Rightarrow> unit store_m" where
  "complete_write_stdin operation_id = complete_process_io_operation operation_id WRITE_STDIN"

definition complete_close_stdin :: "OperationId \<Rightarrow> unit store_m" where
  "complete_close_stdin operation_id = complete_process_io_operation operation_id CLOSE_STDIN"

definition complete_resize :: "OperationId \<Rightarrow> unit store_m" where
  "complete_resize operation_id = complete_process_io_operation operation_id RESIZE"

section \<open>Recovery of exec processes\<close>

text \<open>\<open>BTreeMap::insert\<close> and \<open>BTreeSet::insert\<close> report duplicates.\<close>

fun collect_observed ::
  "ContainerTarget \<Rightarrow> u32 \<Rightarrow> ProcessRecord list \<Rightarrow> (ProcessId \<times> ProcessRecord) list \<Rightarrow> u32 list
     \<Rightarrow> error + (ProcessId \<times> ProcessRecord) list" where
  "collect_observed container_target init_pid [] by_id pids = Inr by_id"
| "collect_observed container_target init_pid (process # observed) by_id pids =
     (let conflict = state_error Conflict op_observe_recreated_exec_processes in
      r_bind (r_reject (pt_container (pr_target process) \<noteq> container_target
                        \<or> is_init (pt_process_id (pr_target process))
                        \<or> pr_pid process = None \<or> pr_pid process = Some 0
                        \<or> pr_pid process = Some init_pid) conflict) (\<lambda>_.
      r_bind (ok_or conflict (pr_pid process)) (\<lambda>pid.
      r_bind (r_reject (pid \<in> set pids
                        \<or> map_of by_id (pt_process_id (pr_target process)) \<noteq> None) conflict) (\<lambda>_.
        collect_observed container_target init_pid observed
          (put (pt_process_id (pr_target process)) process by_id) (pid # pids)))))"

definition process_transaction_stem :: "string \<Rightarrow> string option" where
  "process_transaction_stem file_name =
     (case file_name of
        [] \<Rightarrow> None
      | c # value \<Rightarrow> if c = CHR ''.'' then strip_suffix_str ''.json.next'' value else None)"

definition collect_durable ::
  "StoredContainer \<Rightarrow> string \<Rightarrow> (ProcessId \<times> StoredProcess) list \<Rightarrow> (ProcessId \<times> StoredProcess) list store_m" where
  "collect_durable container file_name durable_by_id =
     (case process_transaction_stem file_name of
        Some process_id \<Rightarrow>
          m_bind (m_lift (map_err (\<lambda>_. state_error FailedPrecondition op_observe_recreated_exec_processes)
                    (validate_identifier process_id))) (\<lambda>_. m_return durable_by_id)
      | None \<Rightarrow>
          m_bind (m_lift (parse_process_file_name op_observe_recreated_exec_processes file_name)) (\<lambda>process_id.
          m_bind (load_stored_process (exact_process_target container process_id)) (\<lambda>process.
            m_return (if pr_pid (sp_record process) \<noteq> None \<and> sp_exit_status process = None
                      then put process_id process durable_by_id else durable_by_id))))"

definition rebind_observed ::
  "(ProcessId \<times> StoredProcess) list \<Rightarrow> ProcessId \<times> ProcessRecord \<Rightarrow> unit store_m" where
  "rebind_observed durable_by_id entry =
     (case entry of (process_id, observed) \<Rightarrow>
        m_bind (m_lift (ok_or (state_error Internal op_observe_recreated_exec_processes)
                  (map_of durable_by_id process_id))) (\<lambda>durable.
        m_bind (m_reject (pr_terminal (sp_record durable) \<noteq> pr_terminal observed)
                  (state_error Conflict op_observe_recreated_exec_processes)) (\<lambda>_.
          if pr_pid (sp_record durable) \<noteq> pr_pid observed
          then write_process (ReconcileProcess KExec)
                 (durable\<lparr>sp_record := (sp_record durable)\<lparr>pr_pid := pr_pid observed\<rparr>\<rparr>)
          else m_return ())))"

definition observe_recreated_exec_processes :: "ContainerTarget \<Rightarrow> ProcessRecord list \<Rightarrow> unit store_m" where
  "observe_recreated_exec_processes container_target observed =
     (let conflict = state_error Conflict op_observe_recreated_exec_processes in
      m_bind (m_lift (ok_or (state_error InvalidArgument op_observe_recreated_exec_processes)
                (ct_generation container_target))) (\<lambda>generation.
      m_bind (load_stored_exact (ct_id container_target) generation) (\<lambda>container.
      m_bind (m_reject (st_status (cr_state (sc_record container)) \<noteq> StRunning
                        \<or> is_paused (cr_state (sc_record container))) conflict) (\<lambda>_.
      m_bind (m_lift (ok_or conflict (case st_pid (cr_state (sc_record container)) of
                                        None \<Rightarrow> None
                                      | Some pid \<Rightarrow> if pid < 0 then None else Some (word_of_int pid :: u32)))) (\<lambda>init_pid.
      m_bind (m_lift (collect_observed container_target init_pid observed [] [])) (\<lambda>observed_by_id.
      m_bind (on_disk (\<lambda>d. process_table d (sc_id container))) (\<lambda>directory.
      m_bind (case directory of
                None \<Rightarrow> m_return []
              | Some _ \<Rightarrow>
                  m_bind (m_gets (process_entries (sc_id container))) (\<lambda>file_names.
                    m_fold file_names (collect_durable container) [])) (\<lambda>durable_by_id.
      m_bind (m_reject (set (map fst durable_by_id) \<noteq> set (map fst observed_by_id)) conflict) (\<lambda>_.
        m_foreach (sort_key fst observed_by_id) (rebind_observed durable_by_id))))))))))"

end
