(* ===== verification/Process_Contracts.thy ===== *)
theory Process_Contracts
  imports Process_Store
begin

text \<open>
  What the process operations guarantee: every one refines the store specification; a prepared exec,
  signal or I/O operation owns the process it is aimed at, completion settles the operation and frees
  the process, and a wait leaves the exit status durable.
\<close>

section \<open>Loading and writing process records\<close>

lemma exact_process_target_sel [simp]:
  "pt_container (exact_process_target r p) = target_exact (sc_id r) (generation_of r)"
  "pt_process_id (exact_process_target r p) = p"
  by (simp_all add: exact_process_target_def)

text \<open>The process is recorded for the live incarnation of its container.\<close>

definition has_process :: "disk \<Rightarrow> ContainerId \<Rightarrow> Generation \<Rightarrow> ProcessId \<Rightarrow> StoredProcess \<Rightarrow> bool" where
  "has_process d c g p pr \<longleftrightarrow> process_record d c p = Some pr \<and> process_ok d c g p pr
     \<and> (\<exists>r. live_record d c = Some r \<and> generation_of r = g)"

lemma has_processI:
  assumes "store_inv x d" "process_record d c p = Some pr"
  shows "\<exists>r. live_record d c = Some r \<and> has_process d c (generation_of r) p pr"
proof -
  obtain ps where ps: "process_table d c = Some ps" "map_of ps p = Some pr"
    using assms(2) by (auto simp: process_record_def bind_eq_Some_conv)
  then show ?thesis
    using inv_processesD(2) [OF store_invD(6) [OF assms(1)] ps(1)] assms(2)
    by (auto simp: has_process_def)
qed

lemma has_process_target: "has_process d c g p pr \<Longrightarrow> pr_target (sp_record pr) = process_target c g p"
  by (simp add: has_process_def process_ok_def)

lemma process_target_sel [simp]:
  "pt_container (process_target c g p) = target_exact c g" "pt_process_id (process_target c g p) = p"
  by (simp_all add: process_target_def)

lemma load_stored_process_read_only [read_only_intros]:
  "read_only (load_stored_process_from_path target k)" "read_only (load_stored_process target)"
  by (auto simp: load_stored_process_from_path_def load_stored_process_def split: option.split
      intro!: read_only_intros)

lemma runs_load_stored_process [runs_rules]:
  assumes "\<And>g pr. ct_generation (pt_container target) = Some g \<Longrightarrow>
     has_process (disk s) (ct_id (pt_container target)) g (pt_process_id target) pr \<Longrightarrow> P pr s"
  shows "runs (load_stored_process target) P s"
  unfolding load_stored_process_def load_stored_process_from_path_def
proof (rule runs_inv, intro runs_rules)
  fix g pr
  assume inv: "store_inv (ext s) (disk s)" and g: "ok_or (state_error InvalidArgument op_load_process_state)
      (ct_generation (pt_container target)) = Inr g"
    and pr: "ok_or missing_file (Option.bind (Option.bind (map_of (directories (disk s))
        (Live (ct_id (pt_container target)))) cd_processes) (\<lambda>ps. map_of ps (pt_process_id target))) = Inr pr"
    and t: "\<not> (sp_schema_version pr \<noteq> PROCESS_SCHEMA_VERSION \<or> pr_target (sp_record pr) \<noteq> target
       \<or> ct_generation (pt_container (pr_target (sp_record pr))) \<noteq> Some g \<or> pr_pid (sp_record pr) = Some 0)"
  have "process_record (disk s) (ct_id (pt_container target)) (pt_process_id target) = Some pr"
    using pr by (simp add: process_record_def process_table_def)
  from has_processI [OF inv this] obtain r where
    r: "has_process (disk s) (ct_id (pt_container target)) (generation_of r) (pt_process_id target) pr" by blast
  from t g has_process_target [OF r] have "ct_generation (pt_container target) = Some (generation_of r)" by auto
  with r assms show "P pr s" by blast
qed

text \<open>What a written process record leaves alone.\<close>

definition process_written :: "disk \<Rightarrow> ContainerId \<Rightarrow> ProcessId \<Rightarrow> StoredProcess \<Rightarrow> disk \<Rightarrow> bool" where
  "process_written d c p pr d' \<longleftrightarrow>
     process_record d' = (process_record d)(c := (process_record d c)(p \<mapsto> pr))
     \<and> live_record d' = live_record d \<and> operations d' = operations d \<and> last_generation d' = last_generation d"

lemma process_writtenI:
  assumes "process_table d c = Some ps"
  shows "process_written d c p pr
    (update_dir (Live c) (\<lambda>x. x\<lparr>cd_processes := map_option (put p pr) (cd_processes x)\<rparr>) d)"
  using assms by (auto simp: process_written_def process_record_def process_table_put fun_eq_iff)

lemma process_writtenD:
  assumes "process_written d c p pr d'"
  shows "process_record d' c p = Some pr" "live_record d' = live_record d" "operations d' = operations d"
    "last_generation d' = last_generation d" "q \<noteq> p \<Longrightarrow> process_record d' c q = process_record d c q"
  using assms by (simp_all add: process_written_def)

lemma runs_update_process:
  assumes pr: "has_process (disk s) c g p pr"
    and step: "process_step pr pr'" "process_claims (disk s) c g p pr'"
    and P: "\<And>s'. same_env s s' \<Longrightarrow> process_written (disk s) c p pr' (disk s') \<Longrightarrow> P () s'"
  shows "runs (write_process m pr') P s"
proof -
  obtain r ps where r: "live_record (disk s) c = Some r" "generation_of r = g"
    and ps: "process_table (disk s) c = Some ps" "map_of ps p = Some pr"
    using pr by (auto simp: has_process_def process_record_def bind_eq_Some_conv)
  have t: "pr_target (sp_record pr') = process_target c g p"
    using has_process_target [OF pr] step(1) by (simp add: process_step_def)
  show ?thesis
    unfolding write_process_def t
  proof (rule runs_write, simp_all)
    show "store_step (ext s) (disk s)
        (update_dir (Live c) (\<lambda>x. x\<lparr>cd_processes := map_option (put p pr') (cd_processes x)\<rparr>) (disk s))"
      using r ps step by (intro store_step.UpdateProcess) auto
    fix s' assume "same_env s s'"
      "disk s' = update_dir (Live c) (\<lambda>x. x\<lparr>cd_processes := map_option (put p pr') (cd_processes x)\<rparr>) (disk s)"
    then show "P () s'" using process_writtenI [OF ps(1)] by (intro P) simp_all
  qed
qed

lemma runs_new_process:
  assumes r: "live_record (disk s) c = Some r" "process_table (disk s) c \<noteq> None" "process_record (disk s) c p = None"
    and ok: "store_inv (ext s) (disk s) \<Longrightarrow> process_ok (disk s) c (generation_of r) p pr"
    and t: "pr_target (sp_record pr) = process_target c (generation_of r) p"
    and P: "\<And>s'. same_env s s' \<Longrightarrow> process_written (disk s) c p pr (disk s') \<Longrightarrow> P () s'"
  shows "runs (write_process m pr) P s"
proof -
  obtain ps where ps: "process_table (disk s) c = Some ps" "map_of ps p = None"
    using r by (auto simp: process_record_def)
  show ?thesis
    unfolding write_process_def t
  proof (rule runs_write, simp_all)
    assume "store_inv (ext s) (disk s)"
    then show "store_step (ext s) (disk s)
        (update_dir (Live c) (\<lambda>x. x\<lparr>cd_processes := map_option (put p pr) (cd_processes x)\<rparr>) (disk s))"
      using r ps ok by (intro store_step.NewProcess) auto
  next
    fix s' assume "same_env s s'"
      "disk s' = update_dir (Live c) (\<lambda>x. x\<lparr>cd_processes := map_option (put p pr) (cd_processes x)\<rparr>) (disk s)"
    then show "P () s'" using process_writtenI [OF ps(1)] by (intro P) simp_all
  qed
qed

lemma runs_ensure_process_directory:
  assumes r: "live_record (disk s) c = Some r"
    and P: "\<And>s'. same_env s s' \<Longrightarrow> operations (disk s') = operations (disk s) \<Longrightarrow>
       live_record (disk s') = live_record (disk s) \<Longrightarrow> last_generation (disk s') = last_generation (disk s) \<Longrightarrow>
       process_table (disk s') c \<noteq> None \<Longrightarrow> process_record (disk s') = process_record (disk s) \<Longrightarrow> P () s'"
  shows "runs (ensure_process_directory c) P s"
  unfolding ensure_process_directory_def create_process_directory_def
proof (intro runs_rules runs_modify_disk)
  assume none: "process_table (disk s) c = None"
  show "store_step (ext s) (disk s) (update_dir (Live c) (\<lambda>c. c\<lparr>cd_processes := Some []\<rparr>) (disk s))"
    by (rule store_step.MakeProcesses [OF r none])
  fix s' assume "same_env s s'" "disk s' = update_dir (Live c) (\<lambda>c. c\<lparr>cd_processes := Some []\<rparr>) (disk s)"
  then show "P () s'"
    using none live_record_dir [OF r]
    by (intro P) (auto simp: process_record_def process_table_create fun_eq_iff)
next
  fix ps assume "process_table (disk s) c = Some ps"
  then show "P () s" by (intro P) simp_all
qed

section \<open>Ownership of processes\<close>

lemma unclaimed_exec:
  assumes inv: "store_inv x d" and op: "map_of (operations d) i = Some oper" "so_process_id oper = Some p" "\<not> is_init p"
    and pr: "\<And>pr. process_record d (so_container_id oper) p = Some pr \<Longrightarrow> i \<notin> process_owners pr"
  shows "unclaimed d i"
proof (rule unclaimed_process [OF inv op(1,2)], intro conjI)
  fix r assume r: "live_record d (so_container_id oper) = Some r"
  have "container_claims d r" using record_okI [OF inv r] by (simp add: record_ok_def)
  then show "sc_active_operation r \<noteq> Some i"
    using op by (auto simp: container_claims_def claims_op_def active_claim_def)
qed (use op pr in \<open>auto simp: process_record_def\<close>)

lemma unclaimed_init:
  assumes inv: "store_inv x d" and op: "map_of (operations d) i = Some oper" "so_process_id oper = Some p" "is_init p"
    and r: "\<And>r. live_record d (so_container_id oper) = Some r \<Longrightarrow>
          sc_active_operation r \<noteq> Some i \<and> i \<notin> sc_init_io_operations r"
  shows "unclaimed d i"
proof (rule unclaimed_process [OF inv op(1,2)], intro conjI allI impI)
  fix ps pr assume "process_table d (so_container_id oper) = Some ps" "map_of ps p = Some pr"
  then have "process_record d (so_container_id oper) p = Some pr" by (simp add: process_record_def)
  from has_processI [OF inv this] op(3) show "i \<notin> process_owners pr"
    by (auto simp: has_process_def process_ok_def)
qed (use r in auto)

lemma process_step_claims [simp]:
  assumes "has_process d c g p pr"
  shows "process_step pr (pr\<lparr>sp_active_operation := a, sp_active_io_operations := ios\<rparr>)"
    "process_step pr (pr\<lparr>sp_active_io_operations := ios, sp_active_operation := a\<rparr>)"
    "process_step pr (pr\<lparr>sp_active_operation := a\<rparr>)" "process_step pr (pr\<lparr>sp_active_io_operations := ios\<rparr>)"
  using assms by (simp_all add: process_step_def has_process_def process_ok_def)

lemma process_claims_mono:
  assumes "process_claims d c g p pr" "sp_active_operation pr' \<in> {None, sp_active_operation pr}"
    "sp_active_io_operations pr' \<subseteq> sp_active_io_operations pr"
  shows "process_claims d c g p pr'"
  using assms unfolding process_claims_def process_owners_def by auto

lemma has_process_claims: "has_process d c g p pr \<Longrightarrow> process_claims d c g p pr"
  by (simp add: has_process_def process_ok_def)

text \<open>The operation owns the process it is about.\<close>

definition process_owned :: "disk \<Rightarrow> OperationId \<Rightarrow> ContainerId \<Rightarrow> ProcessId \<Rightarrow> bool" where
  "process_owned d i c p \<longleftrightarrow>
     (if is_init p then \<exists>r. live_record d c = Some r
        \<and> (sc_active_operation r = Some i \<or> i \<in> sc_init_io_operations r)
      else \<exists>pr. process_record d c p = Some pr \<and> i \<in> process_owners pr)"

lemma unclaimed_not_owned:
  assumes "store_inv x d" "map_of (operations d) i = Some oper" "so_process_id oper = Some p"
    "\<not> process_owned d i (so_container_id oper) p"
  shows "unclaimed d i"
  using assms unclaimed_exec [OF assms(1-3)] unclaimed_init [OF assms(1-3)]
  by (cases "is_init p") (auto simp: process_owned_def)

lemma runs_ensure_container_unclaimed [runs_rules]:
  "(sc_active_operation r = None \<Longrightarrow> P () s) \<Longrightarrow> runs (m_lift (ensure_container_unclaimed r name)) P s"
  by (intro runs_lift) (auto simp: ensure_container_unclaimed_def)

lemma runs_required_operation_process_id [runs_rules]:
  "(\<And>p. so_process_id oper = Some p \<Longrightarrow> P p s) \<Longrightarrow> runs (m_lift (required_operation_process_id oper name)) P s"
  by (intro runs_lift) (auto simp: required_operation_process_id_def)

lemma runs_validate_process_retry [runs_rules]:
  "(so_kind oper = k \<Longrightarrow> so_container_id oper = c \<Longrightarrow> so_process_id oper = Some p \<Longrightarrow> P () s) \<Longrightarrow>
     runs (m_lift (validate_process_retry oper k c p digests name)) P s"
  by (intro runs_lift) (auto simp: validate_process_retry_def validate_retry_def r_bind_Inr_iff)

lemma runs_ensure_active_process [runs_rules]:
  "(sp_active_operation pr \<in> {None, Some i} \<Longrightarrow> P () s) \<Longrightarrow>
     runs (m_lift (ensure_active_process_operation pr i name)) P s"
  by (intro runs_lift) (auto simp: ensure_active_process_operation_def split: option.splits if_splits)

lemma runs_settle_process:
  assumes op: "map_of (operations (disk s)) i = Some oper" "op_ok (ext s) (disk s) i oper"
    "so_outcome oper = Prepared" "so_process_id oper = Some p" "\<not> is_extension_kind (so_kind oper)"
    and out: "out \<noteq> Prepared" "\<not> is_extension_outcome out"
    and free: "\<not> process_owned (disk s) i (so_container_id oper) p"
    and P: "\<And>s'. same_env s s' \<Longrightarrow> settled (disk s') i (so_kind oper) (so_container_id oper) out \<Longrightarrow>
       disk s' = (disk s)\<lparr>operations := put i (oper\<lparr>so_outcome := out\<rparr>) (operations (disk s))\<rparr> \<Longrightarrow> P () s'"
  shows "runs (write_operation m (oper\<lparr>so_outcome := out\<rparr>)) P s"
proof (rule runs_settle [OF op(1-3) out(1) shape_lifecycle [OF op(2,5) out(2)]])
  assume "store_inv (ext s) (disk s)"
  then show "unclaimed (disk s) i \<or> is_creation (so_kind oper) \<and> is_failed out"
    using unclaimed_not_owned op(1,4) free by blast
next
  fix s' assume "same_env s s'"
    "disk s' = (disk s)\<lparr>operations := put i (oper\<lparr>so_outcome := out\<rparr>) (operations (disk s))\<rparr>"
  then show "P () s'" using settled_put by (intro P) simp_all
qed

text \<open>Releasing a claim frees the process from the operation and changes nothing else.\<close>

lemma runs_release_process_operation_claim:
  assumes op: "so_process_id oper = Some p"
    and P: "\<And>s'. same_env s s' \<Longrightarrow> operations (disk s') = operations (disk s) \<Longrightarrow>
       last_generation (disk s') = last_generation (disk s) \<Longrightarrow>
       \<not> process_owned (disk s') i (so_container_id oper) p \<Longrightarrow> P () s'"
  shows "runs (release_process_operation_claim oper i m name) P s"
proof -
  let ?c = "so_container_id oper"
  have init: "runs (write_container m (sc_id r) (r\<lparr>sc_init_io_operations := sc_init_io_operations r - {i},
        sc_active_operation := (if sc_active_operation r = Some i then None else sc_active_operation r)\<rparr>)) P s"
    (is "runs (write_container m (sc_id r) ?u) P s")
    if r: "live_record (disk s) ?c = Some r" "record_ok (disk s) ?c r" and p: "is_init p" for r
  proof -
    have st: "state_ok (cr_state (sc_record r))" "sc_id r = ?c" "container_claims (disk s) r"
      using r(2) by (simp_all add: record_ok_def)
    have step: "record_step r ?u"
      by (rule record_step_trans_claims) (simp add: st(1))
    have cl: "container_claims (disk s) ?u"
      by (rule container_claims_mono [OF st(3)]) auto
    show ?thesis
    proof (rule runs_update_record [OF _ step cl])
      show "live_record (disk s) (sc_id r) = Some r" by (simp add: st(2) r(1))
      fix s' assume "same_env s s'" and w: "record_written (disk s) (sc_id r) ?u (disk s')"
      then show "P () s'"
        using p st(2) by (intro P) (auto simp: record_writtenD [OF w] process_owned_def)
    qed
  qed
  have exec: "runs (write_process m (pr\<lparr>sp_active_io_operations := sp_active_io_operations pr - {i},
        sp_active_operation := (if sp_active_operation pr = Some i then None else sp_active_operation pr)\<rparr>)) P s"
    if pr: "has_process (disk s) ?c g p pr" and p: "\<not> is_init p" for pr g
  proof (rule runs_update_process [OF pr])
    show "process_claims (disk s) ?c g p (pr\<lparr>sp_active_io_operations := sp_active_io_operations pr - {i},
        sp_active_operation := (if sp_active_operation pr = Some i then None else sp_active_operation pr)\<rparr>)"
      by (rule process_claims_mono [OF has_process_claims [OF pr]]) auto
    fix s' assume "same_env s s'" and w: "process_written (disk s) ?c p (pr\<lparr>sp_active_io_operations := sp_active_io_operations pr - {i},
        sp_active_operation := (if sp_active_operation pr = Some i then None else sp_active_operation pr)\<rparr>) (disk s')"
    then show "P () s'"
      using p by (intro P) (auto simp: process_writtenD [OF w] process_owned_def process_owners_def split: if_splits)
  qed (rule process_step_claims [OF pr])
  show ?thesis
    unfolding release_process_operation_claim_def Let_def
  proof (rule runs_bind, rule runs_load_stored_exact, rule runs_bind, rule runs_required_operation_process_id,
      rule runs_if, goal_cases)
    case (1 r q)
    with op have p: "is_init p" "q = p" by simp_all
    show ?case
      by (rule runs_bind, rule runs_lift, intro runs_if runs_return init [OF 1(1,2) p(1)])
        (auto simp: ensure_active_init_io_operation_def)
  next
    case (2 r q)
    with op have p: "\<not> is_init p" "q = p" and id: "sc_id r = ?c" by (simp_all add: record_ok_def)
    show ?case
    proof (rule runs_bind, rule runs_load_stored_process)
      fix g pr assume "has_process (disk s) (ct_id (pt_container (exact_process_target r q))) g
          (pt_process_id (exact_process_target r q)) pr"
      then have pr: "has_process (disk s) ?c g p pr" using p id by simp
      show "runs (m_bind (m_lift (ensure_active_process_io_operation pr i name)) (\<lambda>_.
          if i \<in> sp_active_io_operations pr \<or> sp_active_operation pr = Some i
          then write_process m (pr\<lparr>sp_active_io_operations := sp_active_io_operations pr - {i},
             sp_active_operation := (if sp_active_operation pr = Some i then None else sp_active_operation pr)\<rparr>)
          else m_return ())) P s"
        by (rule runs_bind, rule runs_lift, intro runs_if runs_return exec [OF pr p(1)])
          (auto simp: ensure_active_process_io_operation_def)
    qed
  qed
qed

lemma runs_migrate_legacy_process_io_claim [runs_rules]:
  assumes pr: "has_process (disk s) c g p pr"
    and none: "P (None, pr) s"
    and some: "\<And>j ios. sp_active_operation pr = Some j \<Longrightarrow>
       process_claims (disk s) c g p (pr\<lparr>sp_active_operation := None, sp_active_io_operations := ios\<rparr>) \<Longrightarrow>
       P (Some j, pr\<lparr>sp_active_operation := None, sp_active_io_operations := ios\<rparr>) s"
  shows "runs (migrate_legacy_process_io_claim pr) P s"
  unfolding migrate_legacy_process_io_claim_def Let_def
proof (intro runs_rules none some)
  fix j oper v h
  assume j: "sp_active_operation pr = Some j" and op: "map_of (operations (disk s)) j = Some oper"
    and k: "\<not> \<not> is_process_io_kind (so_kind oper)"
    and "ok_or (state_error FailedPrecondition op_migrate_claim) (ct_generation (pt_container (pr_target (sp_record pr)))) = Inr h"
    "validate_legacy_io_operation oper (ct_id (pt_container (pr_target (sp_record pr)))) h
       (is_init (pt_process_id (pr_target (sp_record pr)))) = Inr v"
    "\<not> so_process_id oper \<noteq> Some (pt_process_id (pr_target (sp_record pr)))"
  then have "claims_op (disk s) j c g (process_claim p)" "claims_op (disk s) j c g (\<lambda>oper. is_process_io_kind (so_kind oper))"
    using has_process_target [OF pr]
    by (auto simp: validate_legacy_io_operation_def Let_def claims_op_def process_claim_def split: option.splits)
  with has_process_claims [OF pr]
  show "process_claims (disk s) c g p (pr\<lparr>sp_active_operation := None,
      sp_active_io_operations := insert j (sp_active_io_operations pr)\<rparr>)"
    by (simp add: process_claims_def process_owners_def)
qed

lemma runs_claim_active_process_operation:
  assumes pr: "has_process (disk s) c g p pr"
    and op: "map_of (operations (disk s)) i = Some oper" "so_container_id oper = c" "so_generation oper = g"
      "so_process_id oper = Some p" "so_outcome oper = Prepared"
    and P: "\<And>pr' s'. same_env s s' \<Longrightarrow> process_record (disk s') c p = Some pr' \<Longrightarrow>
       sp_active_operation pr' = Some i \<Longrightarrow> sp_record pr' = sp_record pr \<Longrightarrow>
       operations (disk s') = operations (disk s) \<Longrightarrow> P pr' s'"
  shows "runs (claim_active_process_operation pr i m name) P s"
proof -
  have wr: "runs (write_process m (u\<lparr>sp_active_operation := Some i\<rparr>))
      (\<lambda>_. runs (m_return (u\<lparr>sp_active_operation := Some i\<rparr>)) P) s"
    if u: "u = pr\<lparr>sp_active_operation := None, sp_active_io_operations := ios\<rparr>"
      and cl: "process_claims (disk s) c g p u" for u ios
  proof (rule runs_update_process [OF pr])
    show "process_step pr (u\<lparr>sp_active_operation := Some i\<rparr>)"
      using process_step_claims(2) [OF pr] u by simp
    show "process_claims (disk s) c g p (u\<lparr>sp_active_operation := Some i\<rparr>)"
      using cl op u by (auto simp: process_claims_def process_owners_def claims_op_def process_claim_def)
    fix s' assume "same_env s s'" and w: "process_written (disk s) c p (u\<lparr>sp_active_operation := Some i\<rparr>) (disk s')"
    then show "runs (m_return (u\<lparr>sp_active_operation := Some i\<rparr>)) P s'"
      using u by (intro runs_return P) (simp_all add: process_writtenD [OF w])
  qed
  show ?thesis
    unfolding claim_active_process_operation_def Let_def
  proof (rule runs_if)
    assume "sp_active_operation pr = Some i"
    then show "runs (m_return pr) P s"
      using pr by (intro runs_return P) (simp_all add: has_process_def)
  next
    show "runs (m_bind (case sp_active_operation pr of None \<Rightarrow> m_return pr
           | Some active \<Rightarrow> m_bind (migrate_legacy_process_io_claim pr) (\<lambda>(migrated, process').
               m_bind (m_reject (migrated = None) (state_error Conflict name)) (\<lambda>_. m_return process')))
         (\<lambda>u. m_bind (write_process m (u\<lparr>sp_active_operation := Some i\<rparr>))
               (\<lambda>_. m_return (u\<lparr>sp_active_operation := Some i\<rparr>)))) P s"
      apply (intro runs_bind runs_case_option runs_return runs_migrate_legacy_process_io_claim [OF pr] runs_case_prod
          runs_reject)
      subgoal by (rule wr [of pr "sp_active_io_operations pr", OF _ has_process_claims [OF pr]]) simp
      subgoal by simp
      subgoal by (rule wr) auto
      done
  qed
qed

section \<open>Contracts\<close>

definition prepared_for :: "disk \<Rightarrow> OperationId \<Rightarrow> StoredOperationKind \<Rightarrow> ContainerId \<Rightarrow> ProcessId \<Rightarrow> bool" where
  "prepared_for d i k c p \<longleftrightarrow> (\<exists>oper. map_of (operations d) i = Some oper \<and> so_kind oper = k
     \<and> so_container_id oper = c \<and> so_process_id oper = Some p \<and> so_outcome oper = Prepared)"

lemma prepared_forI:
  "map_of (operations d) i = Some oper \<Longrightarrow> so_kind oper = k \<Longrightarrow> so_container_id oper = c \<Longrightarrow>
     so_process_id oper = Some p \<Longrightarrow> so_outcome oper = Prepared \<Longrightarrow> prepared_for d i k c p"
  by (simp add: prepared_for_def)

text \<open>A prepared exec owns the process record it hands to the driver.\<close>

definition exec_prepared ::
  "OperationId \<Rightarrow> ContainerId \<Rightarrow> ProcessId \<Rightarrow> ProcessOperationPreparation \<Rightarrow> DurableStateStore \<Rightarrow> bool" where
  "exec_prepared i c p v s \<longleftrightarrow>
     (let owned = (\<lambda>rec. prepared_for (disk s) i KExec c p \<and> (\<exists>pr. process_record (disk s) c p = Some pr
                          \<and> sp_record pr = rec \<and> sp_active_operation pr = Some i)) in
      case v of
        PreparedProcess rec \<Rightarrow> owned rec
      | ResumeProcess rec \<Rightarrow> owned rec
      | ReplayedProcess rec \<Rightarrow> settled (disk s) i KExec c (SucceededProcess rec))"

text \<open>A prepared signal or I/O operation owns the process it is aimed at.\<close>

definition target_prepared ::
  "OperationId \<Rightarrow> StoredOperationKind \<Rightarrow> ContainerId \<Rightarrow> ProcessId \<Rightarrow> ProcessTarget \<Rightarrow> DurableStateStore \<Rightarrow> bool" where
  "target_prepared i k c p t s \<longleftrightarrow> prepared_for (disk s) i k c p \<and> process_owned (disk s) i c p
     \<and> pt_process_id t = p \<and> (\<exists>g. pt_container t = target_exact c g)"

definition signal_prepared ::
  "OperationId \<Rightarrow> ContainerId \<Rightarrow> ProcessId \<Rightarrow> SignalProcessPreparation \<Rightarrow> DurableStateStore \<Rightarrow> bool" where
  "signal_prepared i c p v s \<longleftrightarrow>
     (case v of
        SignalPrepared t \<Rightarrow> target_prepared i KSignalProcess c p t s
      | SignalResume t \<Rightarrow> target_prepared i KSignalProcess c p t s
      | SignalReplayed \<Rightarrow> settled (disk s) i KSignalProcess c SucceededEmpty)"

definition io_prepared ::
  "OperationId \<Rightarrow> StoredOperationKind \<Rightarrow> ContainerId \<Rightarrow> ProcessId \<Rightarrow> ProcessIoPreparation \<Rightarrow> DurableStateStore \<Rightarrow> bool" where
  "io_prepared i k c p v s \<longleftrightarrow>
     (case v of
        IoPrepared t \<Rightarrow> target_prepared i k c p t s
      | IoResume t \<Rightarrow> target_prepared i k c p t s
      | IoReplayed \<Rightarrow> settled (disk s) i k c SucceededEmpty)"

definition process_completed ::
  "OperationId \<Rightarrow> StoredOperationKind \<Rightarrow> DurableStateStore \<Rightarrow> unit \<Rightarrow> DurableStateStore \<Rightarrow> bool" where
  "process_completed i k s v s' \<longleftrightarrow>
     (\<exists>oper p. map_of (operations (disk s)) i = Some oper \<and> so_process_id oper = Some p
        \<and> settled (disk s') i k (so_container_id oper) SucceededEmpty
        \<and> (so_outcome oper = Prepared \<longrightarrow> \<not> process_owned (disk s') i (so_container_id oper) p))"

lemma process_owned_frame [simp]: "process_owned (d\<lparr>operations := ops\<rparr>) = process_owned d"
  by (simp add: process_owned_def process_record_def fun_eq_iff)

lemma process_kind_id: "op_ok x d i oper \<Longrightarrow> is_process_kind (so_kind oper) \<Longrightarrow> \<exists>p. so_process_id oper = Some p"
  by (auto simp: op_ok_def)

lemma runs_complete_process:
  assumes k: "is_process_kind k" "\<not> is_extension_kind k"
  shows "runs (m_bind (load_operation i) (\<lambda>operation.
     m_bind (m_reject (so_kind operation \<noteq> k) e) (\<lambda>_.
       on_empty_outcome name (so_outcome operation) (m_return ())
         (m_bind (release_process_operation_claim operation i m name) (\<lambda>_.
            write_operation m' (operation\<lparr>so_outcome := SucceededEmpty\<rparr>)))))) (process_completed i k s) s"
proof (rule runs_bind, rule runs_load_operation, rule runs_bind, rule runs_reject, goal_cases)
  case (1 oper)
  then obtain p where p: "so_process_id oper = Some p" using process_kind_id k by blast
  show ?case
  proof (rule runs_on_empty_outcome)
    assume "so_outcome oper = SucceededEmpty"
    then show "runs (m_return ()) (process_completed i k s) s"
      using 1 p by (intro runs_return) (auto simp: process_completed_def settled_def)
  next
    assume prep: "so_outcome oper = Prepared"
    show "runs (m_bind (release_process_operation_claim oper i m name) (\<lambda>_.
            write_operation m' (oper\<lparr>so_outcome := SucceededEmpty\<rparr>))) (process_completed i k s) s"
    proof (rule runs_bind, rule runs_release_process_operation_claim [OF p])
      fix s1 :: DurableStateStore
      assume env: "same_env s s1" and ops: "operations (disk s1) = operations (disk s)"
        and lg: "last_generation (disk s1) = last_generation (disk s)"
        and free: "\<not> process_owned (disk s1) i (so_container_id oper) p"
      have "op_ok (ext s1) (disk s1) i oper"
        using 1 env op_ok_frame [OF _ lg] by (simp add: same_env_def)
      with 1 p prep free ops k
      show "runs (write_operation m' (oper\<lparr>so_outcome := SucceededEmpty\<rparr>)) (process_completed i k s) s1"
        by (intro runs_settle_process) (auto simp: process_completed_def is_extension_outcome_def)
    qed
  qed
qed

lemma runs_complete_signal_process: "runs (complete_signal_process i) (process_completed i KSignalProcess s) s"
  unfolding complete_signal_process_def by (rule runs_complete_process) simp_all

lemma runs_complete_process_io_operation:
  "is_process_kind (pf_kind profile) \<Longrightarrow> \<not> is_extension_kind (pf_kind profile) \<Longrightarrow>
     runs (complete_process_io_operation i profile) (process_completed i (pf_kind profile) s) s"
  unfolding complete_process_io_operation_def by (rule runs_complete_process)

section \<open>Exec\<close>

lemma publishes_process_event:
  "fmlookup attrs ATTR_OPERATION_ID = None \<Longrightarrow>
     publishes (append_process_event suf target pid kind attrs) target {kind}"
  unfolding publishes_def by (intro allI runs_append_process_event) simp_all

lemma publishes_append_exec_events:
  "publishes (append_exec_events rec) (pt_container (pr_target rec)) {ProcessCreatedEvent, ProcessStartedEvent}"
proof -
  let ?t = "pt_container (pr_target rec)"
  let ?attrs = "\<lambda>pid. fmupd ATTR_TERMINAL (bool_to_string (pr_terminal rec)) (fmupd ATTR_PID (print_nat (unat (pid :: u32))) fmempty)"
  have a: "fmlookup (?attrs pid) ATTR_OPERATION_ID = None" for pid
    by (simp add: ATTR_TERMINAL_def ATTR_PID_def ATTR_OPERATION_ID_def)
  have "publishes (m_bind (append_process_event EV_PROCESS_CREATED ?t (pt_process_id (pr_target rec))
             ProcessCreatedEvent (?attrs pid)) (\<lambda>_.
      m_bind (append_process_event EV_PROCESS_STARTED ?t (pt_process_id (pr_target rec))
                ProcessStartedEvent (?attrs pid)) (\<lambda>_. m_return ()))) ?t
      ({ProcessCreatedEvent} \<union> ({ProcessStartedEvent} \<union> {}))" for pid
    by (intro publishes_bind publishes_process_event publishes_return a)
  then show ?thesis
    unfolding append_exec_events_def Let_def publishes_def
    by (intro allI runs_bind [OF runs_lift] runs_bind [OF runs_reject]) (simp add: insert_commute)
qed

lemma exec_not_io:
  assumes "has_process d c g p pr" "map_of (operations d) i = Some oper" "so_kind oper = KExec"
  shows "i \<notin> sp_active_io_operations pr"
  using has_process_claims [OF assms(1)] assms(2,3)
  by (auto simp: process_claims_def claims_op_def is_process_io_kind_def)

lemma process_record_cong: "directories d' = directories d \<Longrightarrow> process_record d' = process_record d"
  by (simp add: process_record_def process_table_def fun_eq_iff)

lemma process_owned_cong:
  assumes "directories d' = directories d"
  shows "process_owned d' = process_owned d"
  using process_record_cong [OF assms] assms by (simp add: process_owned_def live_record_def fun_eq_iff)

lemma runs_exec_settle:
  assumes op: "map_of (operations (disk s)) i = Some oper" "op_ok (ext s) (disk s) i oper" "so_kind oper = KExec"
      "so_outcome oper = Prepared" "so_process_id oper = Some p"
    and free: "\<not> process_owned (disk s) i (so_container_id oper) p"
    and t: "pt_container (pr_target rec) = target"
    and P: "\<And>s'. same_env s s' \<Longrightarrow> settled (disk s') i KExec (so_container_id oper) (SucceededProcess rec) \<Longrightarrow>
       published (disk s') target ProcessCreatedEvent \<Longrightarrow> published (disk s') target ProcessStartedEvent \<Longrightarrow>
       process_record (disk s') = process_record (disk s) \<Longrightarrow> P v s'"
  shows "runs (m_bind (append_exec_events rec) (\<lambda>_.
     m_bind (write_operation m (oper\<lparr>so_outcome := SucceededProcess rec\<rparr>)) (\<lambda>_. m_return v))) P s"
proof (rule runs_bind, rule runs_publishes [OF publishes_append_exec_events], unfold t)
  fix u s1
  assume env: "same_env s s1" and j: "only_journal (disk s) (disk s1)"
    and pub: "\<And>k. k \<in> {ProcessCreatedEvent, ProcessStartedEvent} \<Longrightarrow> published (disk s1) target k"
  note j = only_journalD [OF j]
  have ok: "op_ok (ext s1) (disk s1) i oper"
    using op(2) env op_ok_frame [OF _ j(3)] by (simp add: same_env_def)
  show "runs (m_bind (write_operation m (oper\<lparr>so_outcome := SucceededProcess rec\<rparr>)) (\<lambda>_. m_return v)) P s1"
  proof (rule runs_bind, rule runs_settle_process [OF _ ok op(4,5)])
    fix s2 assume e2: "same_env s1 s2" and se: "settled (disk s2) i (so_kind oper) (so_container_id oper) (SucceededProcess rec)"
      and d2: "disk s2 = (disk s1)\<lparr>operations := put i (oper\<lparr>so_outcome := SucceededProcess rec\<rparr>) (operations (disk s1))\<rparr>"
    show "runs (m_return v) P s2"
      using se d2 pub op(3) process_record_cong [of "disk s2" "disk s"] j(6)
      by (intro runs_return P same_env_trans [OF env e2]) simp_all
  qed (use op free j process_owned_cong [OF j(6)] in \<open>simp_all add: is_extension_outcome_def\<close>)
qed

lemma runs_reconcile_prepared_exec:
  assumes op: "map_of (operations (disk s)) i = Some oper" "op_ok (ext s) (disk s) i oper" "so_kind oper = KExec"
      "so_outcome oper = Prepared" "so_process_id oper = Some p" "\<not> is_init p"
    and P: "\<And>pr s'. same_env s s' \<Longrightarrow> operations (disk s') = operations (disk s) \<Longrightarrow>
       last_generation (disk s') = last_generation (disk s) \<Longrightarrow>
       has_process (disk s') (so_container_id oper) (so_generation oper) p pr \<Longrightarrow>
       (process_record (disk s) (so_container_id oper) p = None \<Longrightarrow> sp_active_operation pr = Some i) \<Longrightarrow> P pr s'"
  shows "runs (reconcile_prepared_exec request oper) P s"
proof -
  let ?c = "so_container_id oper" and ?g = "so_generation oper"
  let ?new = "\<lambda>t. \<lparr>sp_schema_version = PROCESS_SCHEMA_VERSION,
     sp_record = \<lparr>pr_target = process_target ?c ?g p, pr_pid = None, pr_terminal = t\<rparr>,
     sp_active_operation = Some (so_operation_id oper), sp_active_io_operations = {}, sp_exit_status = None\<rparr>"
  have new: "process_ok d ?c ?g p (?new t)" if "operations d = operations (disk s)" for d t
    using that op op_ok_id [OF op(2)]
    by (auto simp: process_ok_def executed_def process_claims_def process_owners_def claims_op_def process_claim_def)
  show ?thesis
    unfolding reconcile_prepared_exec_def Let_def
  proof (rule runs_bind, rule runs_load_stored_exact, rule runs_bind, rule runs_ensure_container_unclaimed,
      rule runs_bind, rule runs_required_operation_process_id, goal_cases)
    case (1 r q)
    then have q: "q = p" and id: "sc_id r = ?c" and t: "exact_process_target r p = process_target ?c ?g p"
      using op(5) by (auto simp: record_ok_def exact_process_target_def process_target_def)
    show ?case
      unfolding id q t
    proof (rule runs_bind, rule runs_ensure_process_directory [OF 1(1)], rule runs_bind, rule runs_gets,
        rule runs_bind, rule runs_on_disk, rule runs_case_option)
      fix s1
      assume s1: "same_env s s1" "operations (disk s1) = operations (disk s)" "live_record (disk s1) = live_record (disk s)"
        "last_generation (disk s1) = last_generation (disk s)" "process_table (disk s1) ?c \<noteq> None"
        "process_record (disk s1) = process_record (disk s)"
      show "runs (m_bind (write_process StoreExecutingProcess (?new b)) (\<lambda>_. m_return (?new b))) P s1"
        if none: "process_record (disk s1) ?c p = None" for b
      proof (rule runs_bind, rule runs_new_process [where c = ?c and p = p and r = r])
        fix s2 assume e2: "same_env s1 s2" and w: "process_written (disk s1) ?c p (?new b) (disk s2)"
        note w = process_writtenD [OF w]
        have "has_process (disk s2) ?c ?g p (?new b)"
          using new [of "disk s2"] w s1 1(1,3) by (simp add: has_process_def)
        then show "runs (m_return (?new b)) P s2"
          using w s1 op_ok_id [OF op(2)] by (intro runs_return P same_env_trans [OF s1(1) e2]) simp_all
      qed (use 1 s1 none new in simp_all)
      show "runs (m_bind (load_stored_process (process_target ?c ?g p)) (\<lambda>pr.
             m_bind (m_reject (pr_terminal (sp_record pr) \<noteq> b) e) (\<lambda>_. m_return pr))) P s1"
        if "process_record (disk s1) ?c p = Some y" for y b e
      proof (rule runs_bind, rule runs_load_stored_process, rule runs_bind, rule runs_reject, rule runs_return)
        fix g pr
        assume "ct_generation (pt_container (process_target ?c ?g p)) = Some g"
          "has_process (disk s1) (ct_id (pt_container (process_target ?c ?g p))) g (pt_process_id (process_target ?c ?g p)) pr"
        with that s1 show "P pr s1" by (intro P) simp_all
      qed
    qed
  qed
qed

lemma released_not_owned:
  assumes "process_record d c p = Some pr" "sp_active_operation pr = None" "i \<notin> sp_active_io_operations pr" "\<not> is_init p"
  shows "\<not> process_owned d i c p"
  using assms by (simp add: process_owned_def process_owners_def)

lemma has_process_not_init: "has_process d c g p pr \<Longrightarrow> \<not> is_init p"
  by (simp add: has_process_def process_ok_def)

lemma runs_finish_exec:
  assumes op: "map_of (operations (disk s)) i = Some oper" "op_ok (ext s) (disk s) i oper" "so_kind oper = KExec"
      "so_outcome oper = Prepared" "so_process_id oper = Some p" "so_container_id oper = c"
    and pr: "has_process (disk s) c g p pr"
  shows "runs (finish_exec oper pr) (exec_prepared i c p) s"
proof -
  note io = exec_not_io [OF pr op(1,3)] and p = has_process_not_init [OF pr] and t = has_process_target [OF pr]
  have fin: "runs (m_bind (append_exec_events (sp_record pr)) (\<lambda>_.
      m_bind (write_operation (ReconcileOperation KExec) (oper\<lparr>so_outcome := SucceededProcess (sp_record pr)\<rparr>)) (\<lambda>_.
        m_return (ReplayedProcess (sp_record pr))))) (exec_prepared i c p) s1"
    if "operations (disk s1) = operations (disk s)" "op_ok (ext s1) (disk s1) i oper" "\<not> process_owned (disk s1) i c p" for s1
    by (rule runs_exec_settle [OF _ that(2) op(3-5)]) (use that op in \<open>auto simp: exec_prepared_def\<close>)
  show ?thesis
    unfolding finish_exec_def
  proof (rule runs_bind, rule runs_ensure_active_process, rule runs_bind, rule runs_case_option, goal_cases)
    case 1
    then have "\<not> process_owned (disk s) i c p"
      using pr io p by (intro released_not_owned) (simp_all add: has_process_def)
    then show ?case by (intro runs_return fin op(2)) simp_all
  next
    case (2 j)
    show ?case
    proof (rule runs_update_process [OF pr])
      show "process_claims (disk s) c g p (pr\<lparr>sp_active_operation := None\<rparr>)"
        by (rule process_claims_mono [OF has_process_claims [OF pr]]) auto
      fix s1 assume env: "same_env s s1" and w: "process_written (disk s) c p (pr\<lparr>sp_active_operation := None\<rparr>) (disk s1)"
      note w = process_writtenD [OF w]
      have "op_ok (ext s1) (disk s1) i oper" using op_ok_frame [OF op(2) w(4)] env by (simp add: same_env_def)
      then show "runs (m_bind (append_exec_events (sp_record pr)) (\<lambda>_.
          m_bind (write_operation (ReconcileOperation KExec) (oper\<lparr>so_outcome := SucceededProcess (sp_record pr)\<rparr>)) (\<lambda>_.
          m_return (ReplayedProcess (sp_record pr))))) (exec_prepared i c p) s1"
        using w io p by (intro fin released_not_owned [OF w(1)]) simp_all
    qed (simp add: process_step_claims [OF pr])
  qed
qed

lemma runs_reconcile_succeeded_exec:
  assumes op: "map_of (operations (disk s)) i = Some oper" "op_ok (ext s) (disk s) i oper" "so_kind oper = KExec"
      "so_container_id oper = c" "so_outcome oper = SucceededProcess response"
  shows "runs (reconcile_succeeded_exec oper response) (exec_prepared i c p) s"
proof -
  have now: "exec_prepared i c p (ReplayedProcess response) s"
    using op settledI [OF op(1)] by (simp add: exec_prepared_def)
  have rebind: "runs (write_operation m (oper\<lparr>so_outcome := SucceededProcess rec\<rparr>))
      (\<lambda>_. runs (m_return (ReplayedProcess rec)) (exec_prepared i c p)) s"
    if "pr_target rec = pr_target response" "pr_terminal rec = pr_terminal response" for m rec
  proof (rule runs_rebind [OF op(1,2)])
    show "validate_stored_operation_shape (ext s) (oper\<lparr>so_outcome := SucceededProcess rec\<rparr>) = Inr ()"
      by (rule shape_lifecycle [OF op(2)]) (simp_all add: op is_extension_outcome_def)
  qed (use that op in \<open>auto intro!: runs_return simp: exec_prepared_def settled_def\<close>)
  show ?thesis
    unfolding reconcile_succeeded_exec_def
    apply (rule runs_bind, rule runs_lift, rule runs_bind, rule runs_try [OF load_container_read_only(2)])
     apply (intro runs_rules now, simp)
    apply (rule runs_load_stored_container)
    apply (intro runs_case_sum runs_if runs_return now; simp)
    apply (rule runs_bind, rule runs_required_operation_process_id, rule runs_bind, rule runs_load_stored_process)
    apply (intro runs_if runs_return now runs_bind [OF runs_reject] runs_bind [OF rebind]; simp)
    done
qed

lemma runs_retry_exec:
  assumes op: "map_of (operations (disk s)) i = Some oper" "op_ok (ext s) (disk s) i oper"
    and i: "oc_operation_id (xq_context request) = i" and init: "\<not> is_init (xq_process_id request)"
  shows "runs (retry_exec request digest oper) (exec_prepared i (ct_id (xq_container request)) (xq_process_id request)) s"
  unfolding retry_exec_def i
proof (rule runs_bind, rule runs_validate_process_retry, rule runs_on_process_outcome, goal_cases)
  case 1
  note k = 1(1) and c = 1(2) and p = 1(3) and prep = 1(4)
  show ?case
  proof (rule runs_bind, rule runs_reconcile_prepared_exec [OF op k prep p init])
    fix pr s1
    assume env: "same_env s s1" and ops: "operations (disk s1) = operations (disk s)"
      and lg: "last_generation (disk s1) = last_generation (disk s)"
      and pr: "has_process (disk s1) (so_container_id oper) (so_generation oper) (xq_process_id request) pr"
    have op1: "map_of (operations (disk s1)) i = Some oper" "op_ok (ext s1) (disk s1) i oper"
      using op ops op_ok_frame [OF op(2) lg] env by (simp_all add: same_env_def)
    show "runs (if pr_pid (sp_record pr) \<noteq> None then finish_exec oper pr
         else m_bind (claim_active_process_operation pr i (ClaimOperation KExec) op_prepare_exec)
               (\<lambda>process. m_return (ResumeProcess (sp_record process))))
       (exec_prepared i (ct_id (xq_container request)) (xq_process_id request)) s1"
    proof (rule runs_if)
      show "runs (finish_exec oper pr) (exec_prepared i (ct_id (xq_container request)) (xq_process_id request)) s1"
        using pr c by (intro runs_finish_exec [OF op1 k prep p c]) simp
    next
      show "runs (m_bind (claim_active_process_operation pr i (ClaimOperation KExec) op_prepare_exec)
               (\<lambda>process. m_return (ResumeProcess (sp_record process))))
         (exec_prepared i (ct_id (xq_container request)) (xq_process_id request)) s1"
        by (rule runs_bind, rule runs_claim_active_process_operation [OF pr op1(1)])
          (use k c p prep op1 in \<open>auto intro!: runs_return prepared_forI simp: exec_prepared_def\<close>)
    qed
  qed
next
  case (2 response)
  then show ?case using op by (intro runs_reconcile_succeeded_exec)
qed

lemma runs_prepare_exec:
  assumes ids: "valid_id (oc_operation_id (xq_context request))" "valid_id (ct_id (xq_container request))"
  shows "runs (prepare_exec request) (exec_prepared (oc_operation_id (xq_context request))
     (ct_id (xq_container request)) (xq_process_id request)) s"
  unfolding prepare_exec_def Let_def
proof (rule runs_bind, rule runs_external, rule runs_bind, rule runs_external, rule runs_bind,
    rule runs_load_operation_if_present, goal_cases)
  case (1 u digest)
  let ?i = "oc_operation_id (xq_context request)" and ?c = "ct_id (xq_container request)" and ?p = "xq_process_id request"
  have init: "\<not> is_init ?p" using 1(1) by (auto simp: exec_validate_def r_bind_Inr_iff)
  have fresh: "runs (m_bind (write_operation (PrepareOperation KExec) (prepared_operation ?i KExec (sc_id r) (generation_of r) (Some ?p) digest))
      (\<lambda>_. m_bind (reconcile_prepared_exec request (prepared_operation ?i KExec (sc_id r) (generation_of r) (Some ?p) digest))
      (\<lambda>process. m_return (PreparedProcess (sp_record process))))) (exec_prepared ?i ?c ?p) s1"
    if r: "live_record (disk s1) ?c = Some r" "record_ok (disk s1) ?c r"
      and none: "map_of (operations (disk s1)) ?i = None" "process_record (disk s1) (sc_id r) ?p = None" for r s1
  proof -
    let ?op = "prepared_operation ?i KExec (sc_id r) (generation_of r) (Some ?p) digest"
    have id: "sc_id r = ?c" using r by (simp add: record_ok_def)
    have ok: "op_ok (ext s1) (disk s1) ?i ?op"
      using ids r by (intro prepared_operation_ok) (auto simp: record_ok_def)
    show ?thesis
    proof (rule runs_bind, rule runs_prepare_operation)
      fix s2 assume env: "same_env s1 s2"
        and d2: "disk s2 = (disk s1)\<lparr>operations := put (so_operation_id ?op) ?op (operations (disk s1))\<rparr>"
      have op2: "map_of (operations (disk s2)) ?i = Some ?op" "op_ok (ext s2) (disk s2) ?i ?op"
        using d2 ok env op_ok_frame [OF ok, of "disk s2"] by (simp_all add: same_env_def)
      show "runs (m_bind (reconcile_prepared_exec request ?op) (\<lambda>process. m_return (PreparedProcess (sp_record process))))
         (exec_prepared ?i ?c ?p) s2"
      proof (rule runs_bind, rule runs_reconcile_prepared_exec [OF op2 _ _ _ init], simp_all add: id)
        fix pr and s3 :: DurableStateStore
        assume "operations (disk s3) = operations (disk s2)" "has_process (disk s3) ?c (generation_of r) ?p pr"
          "process_record (disk s2) ?c ?p = None \<Longrightarrow> sp_active_operation pr = Some ?i"
        then show "runs (m_return (PreparedProcess (sp_record pr))) (exec_prepared ?i ?c ?p) s3"
          using op2(1) none id d2
          by (intro runs_return) (auto simp: exec_prepared_def has_process_def process_record_def intro!: prepared_forI)
      qed
    qed (use none ok in \<open>simp_all add: is_creation_def\<close>)
  qed
  show ?case
    apply simp
    apply (rule runs_bind, rule runs_validate_deadline, rule runs_bind, rule runs_load_stored_container)
    apply (rule runs_bind, rule runs_validate_requested_generation, rule runs_bind, rule runs_ensure_container_unclaimed)
    apply (rule runs_bind, rule runs_reject, rule runs_bind, rule runs_reject)
    apply (rule runs_bind, rule runs_ensure_process_directory)
     apply (simp add: record_ok_def)
    apply (rule runs_bind, rule runs_on_disk, rule runs_bind, rule runs_reject)
    apply (rule runs_inv, rule fresh)
       apply (simp_all add: 1(3) record_okI)
    done
next
  case (2 u digest oper)
  then have "\<not> is_init (xq_process_id request)" by (auto simp: exec_validate_def r_bind_Inr_iff)
  with 2 show ?case by (simp add: runs_retry_exec)
qed

definition exec_completed :: "OperationId \<Rightarrow> int \<Rightarrow> DurableStateStore \<Rightarrow> ProcessRecord \<Rightarrow> DurableStateStore \<Rightarrow> bool" where
  "exec_completed i pid s rec s' \<longleftrightarrow>
     (\<exists>oper. map_of (operations (disk s)) i = Some oper
        \<and> settled (disk s') i KExec (so_container_id oper) (SucceededProcess rec)
        \<and> (so_outcome oper = Prepared \<longrightarrow>
             (\<forall>k \<in> {ProcessCreatedEvent, ProcessStartedEvent}.
                published (disk s') (target_exact (so_container_id oper) (so_generation oper)) k)
             \<and> pr_pid rec = Some (word_of_int pid)
             \<and> (\<exists>p pr. so_process_id oper = Some p \<and> process_record (disk s') (so_container_id oper) p = Some pr
                    \<and> sp_record pr = rec \<and> i \<notin> process_owners pr)))"

lemma runs_complete_exec: "runs (complete_exec i pid terminal) (exec_completed i pid s) s"
  unfolding complete_exec_def Let_def
proof (rule runs_bind, rule runs_reject, rule runs_bind, rule runs_reject, rule runs_bind, rule runs_load_operation,
    rule runs_bind, rule runs_reject, rule runs_on_process_outcome, goal_cases)
  case (1 oper)
  then have pid: "word_of_int pid \<noteq> (0 :: u32)" and op: "map_of (operations (disk s)) i = Some oper"
    "op_ok (ext s) (disk s) i oper" "so_kind oper = KExec" "so_outcome oper = Prepared" by simp_all
  let ?c = "so_container_id oper" and ?g = "so_generation oper"
  have fin: "runs (m_bind (write_process (CompleteRecord KExec) pr') (\<lambda>_.
           m_bind (append_exec_events (sp_record pr')) (\<lambda>_.
           m_bind (write_operation (CompleteOperation KExec) (oper\<lparr>so_outcome := SucceededProcess (sp_record pr')\<rparr>)) (\<lambda>_.
             m_return (sp_record pr'))))) (exec_completed i pid s) s"
    if pr: "has_process (disk s) ?c ?g p pr" and p: "so_process_id oper = Some p"
      and pr': "pr' = pr\<lparr>sp_record := (sp_record pr)\<lparr>pr_pid := Some (word_of_int pid)\<rparr>, sp_active_operation := None\<rparr>"
    for p pr pr'
  proof (rule runs_bind, rule runs_update_process [OF pr])
    show "process_step pr pr'" using pr pid pr' by (auto simp: process_step_def has_process_def process_ok_def)
    show "process_claims (disk s) ?c ?g p pr'"
      using pr' by (intro process_claims_mono [OF has_process_claims [OF pr]]) auto
    fix s1 assume env: "same_env s s1" and w: "process_written (disk s) ?c p pr' (disk s1)"
    note w = process_writtenD [OF w]
    have free: "i \<notin> process_owners pr'"
      using exec_not_io [OF pr op(1,3)] pr' by (simp add: process_owners_def)
    show "runs (m_bind (append_exec_events (sp_record pr')) (\<lambda>_.
           m_bind (write_operation (CompleteOperation KExec) (oper\<lparr>so_outcome := SucceededProcess (sp_record pr')\<rparr>)) (\<lambda>_.
             m_return (sp_record pr')))) (exec_completed i pid s) s1"
    proof (rule runs_exec_settle [OF _ _ op(3,4) p])
      show "op_ok (ext s1) (disk s1) i oper" using op_ok_frame [OF op(2) w(4)] env by (simp add: same_env_def)
      show "pt_container (pr_target (sp_record pr')) = target_exact ?c ?g"
        using has_process_target [OF pr] pr' by simp
    qed (use op w free p pr' has_process_not_init [OF pr] in
        \<open>auto simp: exec_completed_def process_owned_def\<close>)
  qed
  show ?case
  proof (rule runs_bind, rule runs_load_stored_exact, rule runs_bind, rule runs_required_operation_process_id,
      rule runs_bind, rule runs_load_stored_process, rule runs_bind, rule runs_ensure_active_process,
      rule runs_bind, rule runs_reject, rule runs_bind, rule runs_reject, goal_cases)
    case (1 r p g pr)
    then have "sc_id r = ?c" by (simp add: record_ok_def)
    with 1 show ?case by (intro fin [where p = p and pr = pr]) simp_all
  qed
next
  case (2 oper response)
  then show ?case by (intro runs_return) (auto simp: exec_completed_def settled_def)
qed

section \<open>Signals and process I/O\<close>

text \<open>Both claim protocols leave the operation owning its process.\<close>

definition claim_contract :: "(StoredOperation \<Rightarrow> ProcessTarget store_m) \<Rightarrow> StoredOperationKind \<Rightarrow> bool" where
  "claim_contract claim k \<longleftrightarrow> (\<forall>s i oper p. map_of (operations (disk s)) i = Some oper \<longrightarrow>
     op_ok (ext s) (disk s) i oper \<longrightarrow> so_kind oper = k \<longrightarrow> so_outcome oper = Prepared \<longrightarrow> so_process_id oper = Some p \<longrightarrow>
     runs (claim oper) (\<lambda>t. target_prepared i k (so_container_id oper) p t) s)"

lemma claim_contractD:
  "claim_contract claim k \<Longrightarrow> map_of (operations (disk s)) i = Some oper \<Longrightarrow> op_ok (ext s) (disk s) i oper \<Longrightarrow>
     so_kind oper = k \<Longrightarrow> so_outcome oper = Prepared \<Longrightarrow> so_process_id oper = Some p \<Longrightarrow>
     runs (claim oper) (\<lambda>t. target_prepared i k (so_container_id oper) p t) s"
  by (auto simp: claim_contract_def)

lemma target_preparedI:
  assumes "map_of (operations (disk s)) i = Some oper" "so_kind oper = k" "so_outcome oper = Prepared"
    "so_process_id oper = Some p" "so_container_id oper = c" "process_owned (disk s) i c p" "sc_id r = c"
  shows "target_prepared i k c p (exact_process_target r p) s"
  using assms by (auto simp: target_prepared_def intro: prepared_forI)

lemma claim_signal_process_contract: "claim_contract (\<lambda>oper. claim_signal_process oper (so_operation_id oper)) KSignalProcess"
  unfolding claim_contract_def
proof (intro allI impI)
  fix s :: DurableStateStore and i oper p
  assume op: "map_of (operations (disk s)) i = Some oper" "op_ok (ext s) (disk s) i oper" "so_kind oper = KSignalProcess"
    "so_outcome oper = Prepared" "so_process_id oper = Some p"
  let ?c = "so_container_id oper"
  show "runs (claim_signal_process oper (so_operation_id oper)) (\<lambda>t. target_prepared i KSignalProcess ?c p t) s"
    unfolding claim_signal_process_def Let_def op_ok_id [OF op(2)]
  proof (rule runs_bind, rule runs_load_stored_exact, rule runs_bind, rule runs_required_operation_process_id,
      rule runs_if, goal_cases)
    case (1 r q)
    then have q: "q = p" "is_init p" and id: "sc_id r = ?c" using op(5) by (auto simp: record_ok_def)
    have cl: "active_claim oper" using op q by (simp add: active_claim_def)
    show ?case
    proof (rule runs_bind, rule runs_claim_active_operation [OF 1(1,2) op(1) refl 1(3) [symmetric] cl], rule runs_return)
      fix r' and s' :: DurableStateStore assume g: "claim_granted (disk s) ?c r i r' (disk s')"
      note g = claim_grantedD [OF g]
      show "target_prepared i KSignalProcess ?c p (exact_process_target r q) s'"
        unfolding q(1) by (rule target_preparedI) (use op g q id in \<open>simp_all add: process_owned_def\<close>)
    qed
  next
    case (2 r q)
    then have q: "q = p" "\<not> is_init p" and id: "sc_id r = ?c" using op(5) by (auto simp: record_ok_def)
    show ?case
      unfolding q(1)
    proof (rule runs_bind, rule runs_ensure_container_unclaimed, rule runs_bind, rule runs_load_stored_process, goal_cases)
      case (1 g pr)
      then have pr: "has_process (disk s) ?c (so_generation oper) p pr" using id 2(3) by simp
      show ?case
        by (rule runs_bind, rule runs_claim_active_process_operation [OF pr op(1) refl refl op(5,4)],
            rule runs_return, rule target_preparedI)
          (use op q id in \<open>simp_all add: process_owned_def process_owners_def\<close>)
    qed
  qed
qed

lemma io_compatible_read_only [read_only_intros]:
  "read_only (ensure_init_io_lifecycle_compatible r name)" "read_only (ensure_process_io_lifecycle_compatible r name)"
  by (auto simp: ensure_init_io_lifecycle_compatible_def ensure_process_io_lifecycle_compatible_def
      intro!: read_only_intros split: option.split)

lemma runs_io_compatible [runs_rules]:
  "P () s \<Longrightarrow> runs (ensure_init_io_lifecycle_compatible r name) P s"
  "P () s \<Longrightarrow> runs (ensure_process_io_lifecycle_compatible r name) P s"
  by (rule runs_read_only [OF io_compatible_read_only(1)], simp)
    (rule runs_read_only [OF io_compatible_read_only(2)], simp)

lemma runs_claim_init_io_operation:
  assumes r: "live_record (disk s) c = Some r" "record_ok (disk s) c r"
    and op: "map_of (operations (disk s)) i = Some oper" "so_operation_id oper = i" "so_container_id oper = c"
      "so_generation oper = generation_of r" "so_process_id oper = Some p" "is_init p" "so_outcome oper = Prepared"
      "is_process_io_kind (so_kind oper)"
    and P: "\<And>s'. operations (disk s') = operations (disk s) \<Longrightarrow> process_owned (disk s') i c p \<Longrightarrow> P () s'"
  shows "runs (claim_init_io_operation r oper profile) P s"
proof -
  have st: "state_ok (cr_state (sc_record r))" "sc_id r = c" "container_claims (disk s) r"
    using r(2) by (simp_all add: record_ok_def)
  have pi: "p = INIT_PROCESS_ID" using op(6) by (simp add: is_init_def)
  have wr: "runs (write_container (pf_claim profile) (sc_id u) (u\<lparr>sc_init_io_operations := insert i (sc_init_io_operations u)\<rparr>)) P s"
    if u: "u = r\<lparr>sc_active_operation := a\<rparr>" "a \<in> {None, sc_active_operation r}" for u a
  proof (rule runs_update_record)
    show "live_record (disk s) (sc_id u) = Some r" using u st r by simp
    show "record_step r (u\<lparr>sc_init_io_operations := insert i (sc_init_io_operations u)\<rparr>)"
      unfolding u(1) using record_step_claims(3) [OF st(1)] by simp
    show "container_claims (disk s) (u\<lparr>sc_init_io_operations := insert i (sc_init_io_operations u)\<rparr>)"
      using st op u pi by (auto simp: container_claims_def claims_op_def init_io_claim_def process_claim_def)
    fix s' assume "same_env s s'"
      and w: "record_written (disk s) (sc_id u) (u\<lparr>sc_init_io_operations := insert i (sc_init_io_operations u)\<rparr>) (disk s')"
    then show "P () s'"
      using u st op(6) by (intro P) (auto simp: record_writtenD [OF w] process_owned_def)
  qed
  show ?thesis
    unfolding claim_init_io_operation_def Let_def op(2)
  proof (rule runs_if)
    assume "i \<in> sc_init_io_operations r"
    then show "runs (m_return ()) P s" using r op(6) by (intro runs_return P) (auto simp: process_owned_def)
  next
    show "runs (write_container (pf_claim profile)
        (sc_id (if sc_active_operation r = Some i then r\<lparr>sc_active_operation := None\<rparr> else r))
        ((if sc_active_operation r = Some i then r\<lparr>sc_active_operation := None\<rparr> else r)\<lparr>sc_init_io_operations :=
           insert i (sc_init_io_operations (if sc_active_operation r = Some i then r\<lparr>sc_active_operation := None\<rparr> else r))\<rparr>)) P s"
      by (rule wr [where a = "if sc_active_operation r = Some i then None else sc_active_operation r"]) auto
  qed
qed

lemma runs_claim_process_record_io:
  assumes pr: "has_process (disk s) c g p pr"
    and op: "map_of (operations (disk s)) i = Some oper" "so_operation_id oper = i" "so_container_id oper = c"
      "so_generation oper = g" "so_process_id oper = Some p" "so_outcome oper = Prepared" "is_process_io_kind (so_kind oper)"
    and P: "\<And>s'. operations (disk s') = operations (disk s) \<Longrightarrow> process_owned (disk s') i c p \<Longrightarrow> P () s'"
  shows "runs (claim_process_record_io pr oper profile) P s"
proof -
  note p = has_process_not_init [OF pr]
  have wr: "runs (write_process (pf_claim profile) (u\<lparr>sp_active_io_operations := insert i (sp_active_io_operations u)\<rparr>)) P s"
    if u: "u = pr\<lparr>sp_active_operation := a\<rparr>" "a \<in> {None, sp_active_operation pr}" for u a
  proof (rule runs_update_process [OF pr])
    show "process_step pr (u\<lparr>sp_active_io_operations := insert i (sp_active_io_operations u)\<rparr>)"
      unfolding u(1) using process_step_claims(1) [OF pr] by simp
    show "process_claims (disk s) c g p (u\<lparr>sp_active_io_operations := insert i (sp_active_io_operations u)\<rparr>)"
      using has_process_claims [OF pr] op u
      by (auto simp: process_claims_def process_owners_def claims_op_def process_claim_def)
    fix s' assume "same_env s s'"
      and w: "process_written (disk s) c p (u\<lparr>sp_active_io_operations := insert i (sp_active_io_operations u)\<rparr>) (disk s')"
    then show "P () s'"
      using p by (intro P) (auto simp: process_writtenD [OF w] process_owned_def process_owners_def)
  qed
  show ?thesis
    unfolding claim_process_record_io_def Let_def op(2)
  proof (rule runs_if)
    assume "i \<in> sp_active_io_operations pr"
    then show "runs (m_return ()) P s"
      using pr p by (intro runs_return P) (auto simp: process_owned_def process_owners_def has_process_def)
  next
    show "runs (write_process (pf_claim profile)
        ((if sp_active_operation pr = Some i then pr\<lparr>sp_active_operation := None\<rparr> else pr)\<lparr>sp_active_io_operations :=
           insert i (sp_active_io_operations (if sp_active_operation pr = Some i then pr\<lparr>sp_active_operation := None\<rparr> else pr))\<rparr>)) P s"
      by (rule wr [where a = "if sp_active_operation pr = Some i then None else sp_active_operation pr"]) auto
  qed
qed

lemma claim_process_io_operation_contract:
  assumes k: "is_process_io_kind (pf_kind profile)"
  shows "claim_contract (\<lambda>oper. claim_process_io_operation oper profile) (pf_kind profile)"
  unfolding claim_contract_def
proof (intro allI impI)
  fix s :: DurableStateStore and i oper p
  assume op: "map_of (operations (disk s)) i = Some oper" "op_ok (ext s) (disk s) i oper" "so_kind oper = pf_kind profile"
    "so_outcome oper = Prepared" "so_process_id oper = Some p"
  let ?c = "so_container_id oper"
  note oid = op_ok_id [OF op(2)]
  show "runs (claim_process_io_operation oper profile) (\<lambda>t. target_prepared i (pf_kind profile) ?c p t) s"
    unfolding claim_process_io_operation_def Let_def
  proof (rule runs_bind, rule runs_load_stored_exact, rule runs_bind, rule runs_required_operation_process_id,
      rule runs_bind, rule runs_if, goal_cases)
    case (1 r q)
    then have q: "q = p" "is_init p" and id: "sc_id r = ?c" using op(5) by (auto simp: record_ok_def)
    show ?case
      unfolding q(1)
      by (rule runs_bind, rule runs_io_compatible,
          rule runs_claim_init_io_operation [OF 1(1,2) op(1) oid refl _ op(5) q(2) op(4)],
          use 1 in simp, use op k in simp, rule runs_return, rule target_preparedI) (use op id in simp_all)
  next
    case (2 r q)
    then have q: "q = p" "\<not> is_init p" and id: "sc_id r = ?c" using op(5) by (auto simp: record_ok_def)
    show ?case
      unfolding q(1)
    proof (rule runs_bind, rule runs_io_compatible, rule runs_bind, rule runs_load_stored_process, goal_cases)
      case (1 g pr)
      then have pr: "has_process (disk s) ?c (so_generation oper) p pr" using id 2(3) by simp
      show ?case
        by (rule runs_claim_process_record_io [OF pr op(1) oid refl refl op(5,4)], use op k in simp,
            rule runs_return, rule target_preparedI) (use op id in simp_all)
    qed
  qed
qed

text \<open>The retry and the first call share the claim.\<close>

lemma runs_claim_prepared:
  assumes "claim_contract claim k" "map_of (operations (disk s)) i = None"
    and oper: "oper = prepared_operation i k c g (Some p) digest"
    and ok: "op_ok (ext s) (disk s) i oper" and k: "\<not> is_creation k"
    and P: "\<And>t s'. target_prepared i k c p t s' \<Longrightarrow> P t s'"
  shows "runs (m_bind (write_operation m oper) (\<lambda>_. claim oper)) P s"
proof (rule runs_bind, rule runs_prepare_operation)
  fix s1 assume env: "same_env s s1"
    and d1: "disk s1 = (disk s)\<lparr>operations := put (so_operation_id oper) oper (operations (disk s))\<rparr>"
  have "op_ok (ext s1) (disk s1) i oper" using ok d1 env op_ok_frame [OF ok, of "disk s1"] by (simp add: same_env_def)
  then have "runs (claim oper) (\<lambda>t. target_prepared i k (so_container_id oper) p t) s1"
    using d1 oper by (intro claim_contractD [OF assms(1)]) simp_all
  then show "runs (claim oper) P s1" using P oper by (auto intro: runs_mono)
qed (use assms in simp_all)

lemma m_bind_assoc: "m_bind (m_bind m f) g = m_bind m (\<lambda>x. m_bind (f x) g)"
  by (auto simp: m_bind_def fun_eq_iff split: prod.splits sum.splits)

lemma validate_signal_target_read_only [read_only_intros]: "read_only (validate_signal_target r t)"
  by (auto simp: validate_signal_target_def intro!: read_only_intros)

lemma validate_process_io_target_read_only [read_only_intros]: "read_only (validate_process_io_target r t name)"
  by (auto simp: validate_process_io_target_def intro!: read_only_intros)

lemma runs_prepare_signal_process:
  assumes ids: "valid_id (oc_operation_id (sq_context request))" "valid_id (ct_id (pt_container (sq_process request)))"
  shows "runs (prepare_signal_process request) (signal_prepared (oc_operation_id (sq_context request))
     (ct_id (pt_container (sq_process request))) (pt_process_id (sq_process request))) s"
  unfolding prepare_signal_process_def Let_def
proof (rule runs_bind, rule runs_external, rule runs_bind, rule runs_load_operation_if_present, goal_cases)
  case (1 digest)
  let ?i = "oc_operation_id (sq_context request)" and ?c = "ct_id (pt_container (sq_process request))"
    and ?p = "pt_process_id (sq_process request)"
  have fresh: "runs (m_bind (write_operation (PrepareOperation KSignalProcess)
         (prepared_operation ?i KSignalProcess (sc_id r) (generation_of r) (Some ?p) digest)) (\<lambda>_.
       m_bind (claim_signal_process (prepared_operation ?i KSignalProcess (sc_id r) (generation_of r) (Some ?p) digest) ?i)
         (\<lambda>target. m_return (SignalPrepared target)))) (signal_prepared ?i ?c ?p) s"
    if r: "live_record (disk s) ?c = Some r" "record_ok (disk s) ?c r" for r
  proof -
    let ?op = "prepared_operation ?i KSignalProcess (sc_id r) (generation_of r) (Some ?p) digest"
    have id: "sc_id r = ?c" using r by (simp add: record_ok_def)
    have ok: "op_ok (ext s) (disk s) ?i ?op" using ids r by (intro prepared_operation_ok) (auto simp: record_ok_def)
    have "runs (m_bind (write_operation (PrepareOperation KSignalProcess) ?op) (\<lambda>_. claim_signal_process ?op (so_operation_id ?op)))
       (\<lambda>t. runs (m_return (SignalPrepared t)) (signal_prepared ?i ?c ?p)) s"
      by (rule runs_claim_prepared [OF claim_signal_process_contract 1(2) refl ok])
        (auto simp: is_creation_def id intro!: runs_return simp: signal_prepared_def)
    from runs_bind [OF this] show ?thesis by (simp add: m_bind_assoc)
  qed
  show ?case
    apply simp
    apply (rule runs_bind, rule runs_validate_deadline, rule runs_bind, rule runs_load_stored_container)
    apply (rule runs_bind, rule runs_validate_requested_generation, rule runs_bind, rule runs_ensure_container_unclaimed)
    apply (rule runs_bind, rule runs_read_only [OF validate_signal_target_read_only])
    apply (rule fresh; simp)
    done
next
  case (2 digest oper)
  have oid: "so_operation_id oper = oc_operation_id (sq_context request)" using op_ok_id [OF 2(3)] .
  show ?case
    apply simp
    apply (rule runs_bind, rule runs_validate_process_retry, rule runs_on_empty_outcome)
     apply (rule runs_bind, rule runs_mono [OF claim_contractD [OF claim_signal_process_contract 2(2,3), unfolded oid]])
         apply (simp_all add: runs_return signal_prepared_def)
    apply (use settledI [OF 2(2)] in \<open>auto intro!: runs_return simp: signal_prepared_def\<close>)
    done
qed

lemma runs_prepare_process_io_operation:
  assumes ids: "valid_id (oc_operation_id ctx)" "valid_id (ct_id (pt_container requested))"
    and k: "is_process_io_kind (pf_kind profile)"
  shows "runs (prepare_process_io_operation ctx requested digest profile)
     (io_prepared (oc_operation_id ctx) (pf_kind profile) (ct_id (pt_container requested)) (pt_process_id requested)) s"
  unfolding prepare_process_io_operation_def Let_def
proof (rule runs_bind, rule runs_load_operation_if_present, goal_cases)
  case 1
  let ?i = "oc_operation_id ctx" and ?c = "ct_id (pt_container requested)" and ?p = "pt_process_id requested"
  have kinds: "\<not> is_extension_kind (pf_kind profile)" "is_process_kind (pf_kind profile)" "\<not> is_creation (pf_kind profile)"
    using k by (auto simp: is_process_io_kind_def is_creation_def)
  have fresh: "runs (m_bind (write_operation (pf_prepare profile)
         (prepared_operation ?i (pf_kind profile) (sc_id r) (generation_of r) (Some ?p) digest)) (\<lambda>_.
       m_bind (claim_process_io_operation (prepared_operation ?i (pf_kind profile) (sc_id r) (generation_of r) (Some ?p) digest) profile)
         (\<lambda>target. m_return (IoPrepared target)))) (io_prepared ?i (pf_kind profile) ?c ?p) s"
    if r: "live_record (disk s) ?c = Some r" "record_ok (disk s) ?c r" for r
  proof -
    let ?op = "prepared_operation ?i (pf_kind profile) (sc_id r) (generation_of r) (Some ?p) digest"
    have id: "sc_id r = ?c" using r by (simp add: record_ok_def)
    have ok: "op_ok (ext s) (disk s) ?i ?op" using ids r kinds by (intro prepared_operation_ok) (auto simp: record_ok_def)
    have "runs (m_bind (write_operation (pf_prepare profile) ?op) (\<lambda>_. claim_process_io_operation ?op profile))
       (\<lambda>t. runs (m_return (IoPrepared t)) (io_prepared ?i (pf_kind profile) ?c ?p)) s"
      by (rule runs_claim_prepared [OF claim_process_io_operation_contract [OF k] 1 refl ok])
        (auto simp: kinds id intro!: runs_return simp: io_prepared_def)
    from runs_bind [OF this] show ?thesis by (simp add: m_bind_assoc)
  qed
  show ?case
    apply simp
    apply (rule runs_bind, rule runs_validate_deadline, rule runs_bind, rule runs_load_stored_container)
    apply (rule runs_bind, rule runs_validate_requested_generation)
    apply (rule runs_bind, intro runs_if runs_io_compatible)
     apply (rule runs_bind, rule runs_read_only [OF validate_process_io_target_read_only], rule fresh; simp)+
    done
next
  case (2 oper)
  show ?case
    apply simp
    apply (rule runs_bind, rule runs_validate_process_retry, rule runs_on_empty_outcome)
     apply (rule runs_bind, rule runs_mono [OF claim_contractD [OF claim_process_io_operation_contract [OF k] 2(1,2)]])
         apply (simp_all add: runs_return io_prepared_def)
    apply (use settledI [OF 2(1)] in \<open>auto intro!: runs_return simp: io_prepared_def\<close>)
    done
qed

section \<open>Wait\<close>

definition exit_recorded :: "disk \<Rightarrow> ProcessTarget \<Rightarrow> ExitStatus \<Rightarrow> bool" where
  "exit_recorded d t status \<longleftrightarrow>
     (if is_init (pt_process_id t)
      then \<exists>r. live_record d (ct_id (pt_container t)) = Some r \<and> sc_init_exit_status r = Some status
      else \<exists>pr. process_record d (ct_id (pt_container t)) (pt_process_id t) = Some pr \<and> sp_exit_status pr = Some status)"

lemma exit_attributes_plain: "fmlookup (exit_status_attributes status) ATTR_OPERATION_ID = None"
  by (simp add: exit_status_attributes_def Let_def ATTR_EXIT_CODE_def ATTR_SIGNAL_def ATTR_OOM_KILLED_def
      ATTR_OPERATION_ID_def split: option.split)

lemma runs_complete_init_wait:
  assumes r: "live_record (disk s) (ct_id (pt_container t)) = Some r" "record_ok (disk s) (ct_id (pt_container t)) r"
    and init: "is_init (pt_process_id t)"
  shows "runs (complete_init_wait r t status) (\<lambda>v s'. v = status \<and> exit_recorded (disk s') t status) s"
proof -
  let ?c = "ct_id (pt_container t)"
  have st: "state_ok (cr_state (sc_record r))" "sc_id r = ?c" "container_claims (disk s) r"
    using r(2) by (simp_all add: record_ok_def)
  have fin: "runs (m_bind (append_process_event EV_PROCESS_EXITED (pt_container t) (pt_process_id t)
                    ProcessExitedEvent (exit_status_attributes status)) (\<lambda>_.
          m_bind (if b then m_bind (append_container_event EV_CONTAINER_STOPPED (pt_container t)
                         ContainerStopped fmempty) (\<lambda>_. m_return ())
                  else m_return ()) (\<lambda>_.
          m_bind (write_container CacheInitWait (sc_id u) (u\<lparr>sc_init_exit_status := Some status\<rparr>)) (\<lambda>_.
            m_return status)))) (\<lambda>v s'. v = status \<and> exit_recorded (disk s') t status) s"
    if none: "sc_init_exit_status r = None" and u: "record_step r u" "sc_id u = sc_id r"
      "container_claims (disk s) u" for u b
  proof -
    have wr: "runs (m_bind (write_container CacheInitWait (sc_id u) (u\<lparr>sc_init_exit_status := Some status\<rparr>))
        (\<lambda>_. m_return status)) (\<lambda>v s'. v = status \<and> exit_recorded (disk s') t status) s1"
      if s1: "live_record (disk s1) = live_record (disk s)" "operations (disk s1) = operations (disk s)" for s1
    proof (rule runs_bind, rule runs_update_record [where r = r])
      show "live_record (disk s1) (sc_id u) = Some r" using s1 u st r by simp
      show "record_step r (u\<lparr>sc_init_exit_status := Some status\<rparr>)" using u none by (simp add: record_step_def)
      show "container_claims (disk s1) (u\<lparr>sc_init_exit_status := Some status\<rparr>)"
        using u(3) claims_cong(1) [OF s1(2)] by (simp add: container_claims_def)
      fix s2 :: DurableStateStore assume w: "record_written (disk s1) (sc_id u) (u\<lparr>sc_init_exit_status := Some status\<rparr>) (disk s2)"
      show "runs (m_return status) (\<lambda>v s'. v = status \<and> exit_recorded (disk s') t status) s2"
        using init u st by (intro runs_return) (simp add: exit_recorded_def record_writtenD [OF w])
    qed
    show ?thesis
      apply (rule runs_bind, rule runs_append_process_event [OF exit_attributes_plain])
      apply (rule runs_bind, intro runs_if runs_bind [OF runs_append_container_event] runs_return)
        apply (simp_all add: wr only_journalD)
      done
  qed
  have stop: "record_step r (r\<lparr>sc_record := (sc_record r)\<lparr>cr_state := st'\<rparr>\<rparr>)"
    if "status_of r \<in> {StCreated, StRunning}" "rebuild_state (cr_state (sc_record r)) StStopped None = Inr st'" for st'
    using that st lifecycle_stepI [of StCreated ProcessExited StStopped] lifecycle_stepI [of StRunning ProcessExited StStopped]
    by (intro record_step_state state_step_rebuild [OF that(2)]) auto
  show ?thesis
    unfolding complete_init_wait_def replay_exit_status_def
    apply (cases "sc_init_exit_status r")
     apply (cases "status_of r")
        apply (simp_all add: runs_throw)
    subgoal by (rule runs_bind, rule runs_throw)
    subgoal by (rule runs_bind, rule runs_bind, rule runs_lift, rule runs_bind, rule runs_external, rule runs_return,
          simp only: prod.case, rule fin) (use st stop in \<open>auto intro: container_claims_mono\<close>)
    subgoal by (rule runs_bind, rule runs_bind, rule runs_lift, rule runs_bind, rule runs_external, rule runs_return,
          simp only: prod.case, rule fin) (use st stop in \<open>auto intro: container_claims_mono\<close>)
    subgoal using fin [of r False] st record_step_refl [OF r(2)] by simp
    subgoal using r init by (intro impI runs_return) (auto simp: exit_recorded_def)
    done
qed

lemma runs_complete_process_wait:
  "runs (complete_process_wait t status) (\<lambda>v s'. v = status \<and> exit_recorded (disk s') t status) s"
  unfolding complete_process_wait_def
proof (rule runs_bind, rule runs_lift, rule runs_bind, rule runs_lift, rule runs_bind, rule runs_load_stored_exact,
    rule runs_if, goal_cases)
  case (1 u g r)
  then show ?case by (intro runs_complete_init_wait)
next
  case (2 u g r)
  let ?c = "ct_id (pt_container t)" and ?p = "pt_process_id t"
  show ?case
  proof (rule runs_bind, rule runs_load_stored_process, goal_cases)
    case (1 h pr)
    note pr = 1(2)
    have wr: "runs (m_bind (write_process CacheProcessWait (pr\<lparr>sp_exit_status := Some status\<rparr>)) (\<lambda>_. m_return status))
        (\<lambda>v s'. v = status \<and> exit_recorded (disk s') t status) s1"
      if none: "sp_exit_status pr = None" and s1: "live_record (disk s1) = live_record (disk s)"
        "operations (disk s1) = operations (disk s)" "process_record (disk s1) = process_record (disk s)" for s1
    proof (rule runs_bind, rule runs_update_process)
      show "has_process (disk s1) ?c h ?p pr"
        using pr s1 claims_cong [OF s1(2)] by (simp add: has_process_def process_ok_def)
      show "process_step pr (pr\<lparr>sp_exit_status := Some status\<rparr>)"
        using pr none 2(1) by (auto simp: process_step_def has_process_def process_ok_def)
      show "process_claims (disk s1) ?c h ?p (pr\<lparr>sp_exit_status := Some status\<rparr>)"
        using has_process_claims [OF pr] claims_cong(2) [OF s1(2)] by (simp add: process_claims_def process_owners_def)
      fix s2 :: DurableStateStore assume w: "process_written (disk s1) ?c ?p (pr\<lparr>sp_exit_status := Some status\<rparr>) (disk s2)"
      show "runs (m_return status) (\<lambda>v s'. v = status \<and> exit_recorded (disk s') t status) s2"
        using has_process_not_init [OF pr] by (intro runs_return) (simp add: exit_recorded_def process_writtenD [OF w])
    qed
    show ?case
    proof (rule runs_case_option)
      assume none: "sp_exit_status pr = None"
      show "runs (m_bind (append_process_event EV_PROCESS_EXITED (pt_container t) ?p ProcessExitedEvent
             (exit_status_attributes status)) (\<lambda>_.
           m_bind (write_process CacheProcessWait (pr\<lparr>sp_exit_status := Some status\<rparr>)) (\<lambda>_. m_return status)))
         (\<lambda>v s'. v = status \<and> exit_recorded (disk s') t status) s"
        by (rule runs_bind, rule runs_append_process_event [OF exit_attributes_plain], rule wr [OF none])
          (simp_all add: only_journalD process_record_cong [OF only_journalD(6)])
    next
      fix e assume "sp_exit_status pr = Some e"
      then show "runs (replay_exit_status e status) (\<lambda>v s'. v = status \<and> exit_recorded (disk s') t status) s"
        unfolding replay_exit_status_def using pr has_process_not_init [OF pr]
        by (intro runs_rules) (auto simp: exit_recorded_def has_process_def)
    qed
  qed
qed

section \<open>Recovery\<close>

lemma collect_observed_ok:
  assumes "collect_observed t init observed by_id pids = Inr res" "distinct_keys by_id"
    "\<And>p rec. (p, rec) \<in> set by_id \<Longrightarrow> pr_pid rec \<noteq> None \<and> pr_pid rec \<noteq> Some 0"
  shows "distinct_keys res \<and> (\<forall>p rec. (p, rec) \<in> set res \<longrightarrow> pr_pid rec \<noteq> None \<and> pr_pid rec \<noteq> Some 0)"
  using assms
proof (induction observed arbitrary: by_id pids)
  case (Cons a observed)
  let ?by = "put (pt_process_id (pr_target a)) a by_id"
  have a: "pr_pid a \<noteq> None" "pr_pid a \<noteq> Some 0"
    and rec: "\<exists>pids'. collect_observed t init observed ?by pids' = Inr res"
    using Cons.prems(1) by (auto simp: Let_def r_bind_Inr_iff)
  then obtain pids' where "collect_observed t init observed ?by pids' = Inr res" by blast
  moreover have "pr_pid rec \<noteq> None \<and> pr_pid rec \<noteq> Some 0" if "(p, rec) \<in> set ?by" for p rec
  proof -
    have "map_of ?by p = Some rec"
      using that distinct_keys_put [OF Cons.prems(2)] by (simp add: distinct_keys_lookup)
    then show ?thesis
      using a Cons.prems(2,3) by (auto split: if_splits simp: distinct_keys_lookup [symmetric])
  qed
  ultimately show ?case using Cons.IH Cons.prems(2) by blast
qed simp

lemma collect_durable_read_only [read_only_intros]: "read_only (collect_durable r name acc)"
  by (auto simp: collect_durable_def intro!: read_only_intros split: option.split)

lemma runs_fold_reads:
  assumes "I acc" "\<And>y acc. I acc \<Longrightarrow> runs (f y acc) (\<lambda>acc' s'. s' = s \<and> I acc') s"
    and "\<And>acc. I acc \<Longrightarrow> P acc s"
  shows "runs (m_fold ys f acc) P s"
  using assms(1)
proof (induction ys arbitrary: acc)
  case Nil
  then show ?case using assms(3) by (simp add: runs_return)
next
  case (Cons y ys)
  show ?case
    unfolding m_fold.simps
    by (rule runs_bind, rule runs_mono [OF assms(2) [OF Cons.prems]]) (use Cons.IH in auto)
qed

lemma runs_collect_durable:
  assumes acc: "\<forall>p pr. map_of acc p = Some pr \<longrightarrow> has_process (disk s) (sc_id r) (generation_of r) p pr"
  shows "runs (collect_durable r name acc) (\<lambda>acc' s'. s' = s
     \<and> (\<forall>p pr. map_of acc' p = Some pr \<longrightarrow> has_process (disk s) (sc_id r) (generation_of r) p pr)) s"
  unfolding collect_durable_def
  by (intro runs_rules) (use acc in \<open>auto split: if_splits\<close>)

lemma has_process_written:
  assumes "process_written d c p pr' d'" "has_process d c g q pr" "q \<noteq> p"
  shows "has_process d' c g q pr"
  using assms(2,3) process_writtenD [OF assms(1)] claims_cong [of d' d]
  by (simp add: has_process_def process_ok_def)

lemma runs_rebind_observed:
  assumes "distinct (map fst ys)" "\<And>p pr. p \<in> fst ` set ys \<Longrightarrow> map_of durable p = Some pr \<Longrightarrow> has_process (disk s) c g p pr"
    and "\<And>p rec. (p, rec) \<in> set ys \<Longrightarrow> pr_pid rec \<noteq> None \<and> pr_pid rec \<noteq> Some 0"
  shows "runs (m_foreach ys (rebind_observed durable)) (\<lambda>_ _. True) s"
  using assms
proof (induction ys arbitrary: s)
  case Nil
  then show ?case by (simp add: runs_return)
next
  case (Cons y ys)
  obtain p rec where y: "y = (p, rec)" by (cases y)
  have pid: "pr_pid rec \<noteq> None" "pr_pid rec \<noteq> Some 0" using Cons.prems(3) y by auto
  have rest: "runs (m_foreach ys (rebind_observed durable)) (\<lambda>_ _. True) s'"
    if "\<And>q pr. q \<in> fst ` set ys \<Longrightarrow> map_of durable q = Some pr \<Longrightarrow> has_process (disk s') c g q pr" for s'
    using Cons.prems(1,3) that by (intro Cons.IH) auto
  have same: "runs (m_foreach ys (rebind_observed durable)) (\<lambda>_ _. True) s"
    using Cons.prems(2) by (intro rest) auto
  have wr: "runs (write_process m (pr\<lparr>sp_record := (sp_record pr)\<lparr>pr_pid := pr_pid rec\<rparr>\<rparr>))
      (\<lambda>_. runs (m_foreach ys (rebind_observed durable)) (\<lambda>_ _. True)) s" if d: "map_of durable p = Some pr" for pr m
  proof -
    have pr: "has_process (disk s) c g p pr" using Cons.prems(2) d y by auto
    show ?thesis
    proof (rule runs_update_process [OF pr])
      show "process_step pr (pr\<lparr>sp_record := (sp_record pr)\<lparr>pr_pid := pr_pid rec\<rparr>\<rparr>)"
        using pr pid by (auto simp: process_step_def has_process_def process_ok_def)
      show "process_claims (disk s) c g p (pr\<lparr>sp_record := (sp_record pr)\<lparr>pr_pid := pr_pid rec\<rparr>\<rparr>)"
        by (rule process_claims_mono [OF has_process_claims [OF pr]]) auto
      fix s' :: DurableStateStore assume w: "process_written (disk s) c p (pr\<lparr>sp_record := (sp_record pr)\<lparr>pr_pid := pr_pid rec\<rparr>\<rparr>) (disk s')"
      show "runs (m_foreach ys (rebind_observed durable)) (\<lambda>_ _. True) s'"
      proof (rule rest)
        fix q pr' assume q: "q \<in> fst ` set ys" "map_of durable q = Some pr'"
        then have "q \<noteq> p" using Cons.prems(1) y by auto
        then show "has_process (disk s') c g q pr'"
          using Cons.prems(2) q by (intro has_process_written [OF w]) auto
      qed
    qed
  qed
  have "runs (rebind_observed durable (p, rec)) (\<lambda>_. Q) s"
    if "\<And>pr. map_of durable p = Some pr \<Longrightarrow>
        runs (write_process (ReconcileProcess KExec) (pr\<lparr>sp_record := (sp_record pr)\<lparr>pr_pid := pr_pid rec\<rparr>\<rparr>)) (\<lambda>_. Q) s"
      "Q s" for Q
    unfolding rebind_observed_def prod.case
    by (rule runs_bind, rule runs_lift, rule runs_bind, rule runs_reject, rule runs_if) (use that in \<open>auto intro: runs_return\<close>)
  from this [OF wr same] show ?case
    unfolding m_foreach.simps y by (rule runs_bind)
qed

lemma runs_observe_recreated_exec_processes:
  "runs (observe_recreated_exec_processes target observed) (\<lambda>_ _. True) s"
  unfolding observe_recreated_exec_processes_def Let_def
proof (rule runs_bind, rule runs_lift, rule runs_bind, rule runs_load_stored_exact, rule runs_bind, rule runs_reject,
    rule runs_bind, rule runs_lift, rule runs_bind, rule runs_lift, rule runs_bind, rule runs_on_disk, goal_cases)
  case (1 g r init by_id)
  note ok = collect_observed_ok [OF 1(7)]
  have loop: "runs (m_foreach (sort_key fst by_id) (rebind_observed durable)) (\<lambda>_ _. True) s"
    if "\<forall>p pr. map_of durable p = Some pr \<longrightarrow> has_process (disk s) (sc_id r) (generation_of r) p pr" for durable
    using that ok
    by (intro runs_rebind_observed [where c = "sc_id r" and g = "generation_of r"])
      (auto simp: distinct_keys_def distinct_map)
  show ?case
    apply (rule runs_bind, rule runs_case_option)
     apply (rule runs_return, rule runs_bind, rule runs_reject, rule loop, simp)
    apply (rule runs_bind, rule runs_gets)
    apply (rule runs_fold_reads [where I = "\<lambda>acc. \<forall>p pr. map_of acc p = Some pr \<longrightarrow>
       has_process (disk s) (sc_id r) (generation_of r) p pr"])
      apply simp
     apply (rule runs_collect_durable, assumption)
    apply (rule runs_bind, rule runs_reject, rule loop, assumption)
    done
qed

end
