(* ===== verification/Delete_Failure.thy ===== *)
theory Delete_Failure
  imports Create_Store Process_Contracts
begin

text \<open>
  Deleting a container (\<open>state/delete.rs\<close>), which moves its directory to a quarantine tombstone, and
  recording the terminal failure of any operation (\<open>state/failure.rs\<close>).
\<close>

section \<open>Delete\<close>

definition op_digest_delete_request :: string where "op_digest_delete_request = ''digest-delete-request''"
definition op_prepare_delete :: string where "op_prepare_delete = ''prepare-delete''"
definition op_complete_delete :: string where "op_complete_delete = ''complete-delete''"
definition op_fail_operation :: string where "op_fail_operation = ''fail-operation''"
definition EV_DELETED :: string where "EV_DELETED = ''deleted''"

definition delete_tombstone :: "OperationId \<Rightarrow> directory" where
  "delete_tombstone operation_id = Quarantined (DeletedTombstone operation_id)"

definition append_delete_event :: "StoredOperation \<Rightarrow> unit store_m" where
  "append_delete_event operation =
     (let target = target_exact (so_container_id operation) (so_generation operation) in
      m_bind (append_container_event EV_CONTAINER_STOPPED target ContainerStopped fmempty) (\<lambda>_.
      m_bind (append_container_event EV_DELETED target ContainerDeleted fmempty) (\<lambda>_. m_return ())))"

definition finish_deleted :: "StoredOperation \<Rightarrow> DeletePreparation store_m" where
  "finish_deleted operation =
     m_bind (append_delete_event operation) (\<lambda>_.
     m_bind (write_operation (ReconcileOperation KDelete) (operation\<lparr>so_outcome := SucceededEmpty\<rparr>)) (\<lambda>_.
       m_return DeleteReplayed))"

text \<open>\<open>path_exists\<close> of a container directory.\<close>

definition directory_exists :: "directory \<Rightarrow> bool store_m" where
  "directory_exists k = on_disk (\<lambda>d. map_of (directories d) k \<noteq> None)"

definition retry_delete :: "DeleteRequest \<Rightarrow> RequestDigests \<Rightarrow> StoredOperation \<Rightarrow> DeletePreparation store_m" where
  "retry_delete request digest operation =
     m_bind (m_lift (validate_retry operation KDelete (ct_id (dq_target request)) digest
               op_prepare_delete)) (\<lambda>_.
       on_empty_outcome op_prepare_delete (so_outcome operation) (m_return DeleteReplayed)
        (m_bind (directory_exists (Live (so_container_id operation))) (\<lambda>source.
         m_bind (directory_exists (delete_tombstone (so_operation_id operation))) (\<lambda>tombstone.
           if source \<and> \<not> tombstone then
             m_bind (load_stored_exact (so_container_id operation) (so_generation operation)) (\<lambda>stored.
             m_bind (ensure_no_active_process_operations stored op_prepare_delete) (\<lambda>_.
             m_bind (claim_active_operation stored (oc_operation_id (dq_context request))
                       (ClaimOperation KDelete) op_prepare_delete) (\<lambda>stored.
               m_return (DeleteResume (sc_record stored)))))
           else if \<not> source \<and> tombstone then finish_deleted operation
           else if source \<and> tombstone then
             m_bind (load_stored_container (so_container_id operation)) (\<lambda>live.
               if cr_generation (sc_record live) = so_generation operation
               then m_throw (state_error Conflict op_prepare_delete)
               else finish_deleted operation)
           else m_throw (retryable True (state_error Unavailable op_prepare_delete))))))"

definition prepare_delete :: "DeleteRequest \<Rightarrow> DeletePreparation store_m" where
  "prepare_delete request =
     m_bind (external (\<lambda>x. request_digest x (DeleteFingerprint (dq_target request) (dq_mode request))
               op_digest_delete_request)) (\<lambda>digest.
     m_bind (load_operation_if_present (oc_operation_id (dq_context request))) (\<lambda>existing.
       case existing of
         Some operation \<Rightarrow> retry_delete request digest operation
       | None \<Rightarrow>
           m_bind (validate_deadline (dq_context request) op_prepare_delete) (\<lambda>_.
           m_bind (load_stored_container (ct_id (dq_target request))) (\<lambda>stored.
           m_bind (m_lift (validate_requested_generation stored (dq_target request) op_prepare_delete)) (\<lambda>_.
           m_bind (m_lift (case dq_mode request of
                             StoppedOnly \<Rightarrow> r_reject (st_status (cr_state (sc_record stored)) \<noteq> StStopped)
                                              (state_error FailedPrecondition op_prepare_delete)
                           | Force \<Rightarrow> r_reject (st_status (cr_state (sc_record stored)) = StCreating)
                                        (state_error Conflict op_prepare_delete))) (\<lambda>_.
           m_bind (ensure_no_active_process_operations stored op_prepare_delete) (\<lambda>_.
           m_bind (claim_new_operation (oc_operation_id (dq_context request)) KDelete (dq_target request)
                     stored digest op_prepare_delete) (\<lambda>record.
             m_return (DeletePrepared record)))))))))"

definition move_to_tombstone :: "StoredOperation \<Rightarrow> OperationId \<Rightarrow> unit store_m" where
  "move_to_tombstone operation operation_id =
     m_bind (directory_exists (Live (so_container_id operation))) (\<lambda>source.
     m_bind (directory_exists (delete_tombstone operation_id)) (\<lambda>tombstone.
       if source \<and> \<not> tombstone then
         m_bind (load_stored_exact (so_container_id operation) (so_generation operation)) (\<lambda>stored.
         m_bind (m_lift (ensure_active_operation stored operation_id op_complete_delete)) (\<lambda>_.
           atomic_move_directory MoveDeleteTombstone (Live (so_container_id operation))
             (delete_tombstone operation_id)))
       else if \<not> source \<and> tombstone then m_return ()
       else if source \<and> tombstone then
         m_bind (load_stored_container (so_container_id operation)) (\<lambda>live.
           m_reject (cr_generation (sc_record live) = so_generation operation)
             (state_error Conflict op_complete_delete))
       else m_throw (retryable True (state_error Unavailable op_complete_delete))))"

definition complete_delete :: "OperationId \<Rightarrow> unit store_m" where
  "complete_delete operation_id =
     m_bind (load_operation operation_id) (\<lambda>operation.
     m_bind (m_reject (so_kind operation \<noteq> KDelete)
               (state_error FailedPrecondition op_complete_delete)) (\<lambda>_.
       on_empty_outcome op_complete_delete (so_outcome operation) (m_return ())
         (m_bind (move_to_tombstone operation operation_id) (\<lambda>_.
          m_bind (append_delete_event operation) (\<lambda>_.
            write_operation (CompleteOperation KDelete) (operation\<lparr>so_outcome := SucceededEmpty\<rparr>))))))"

section \<open>Failure\<close>

fun process_failure_mutations :: "StoredOperationKind \<Rightarrow> (DurableMutation \<times> DurableMutation) option" where
  "process_failure_mutations KExec = Some (ReleaseFailedClaim KExec, RecordFailure KExec)"
| "process_failure_mutations KSignalProcess = Some (ReleaseFailedClaim KSignalProcess, RecordFailure KSignalProcess)"
| "process_failure_mutations KWriteStdin = Some (ReleaseFailedClaim KWriteStdin, RecordFailure KWriteStdin)"
| "process_failure_mutations KCloseStdin = Some (ReleaseFailedClaim KCloseStdin, RecordFailure KCloseStdin)"
| "process_failure_mutations KResize = Some (ReleaseFailedClaim KResize, RecordFailure KResize)"
| "process_failure_mutations _ = None"

fun failure_mutations :: "StoredOperationKind \<Rightarrow> (DurableMutation \<times> DurableMutation) option" where
  "failure_mutations KStart = Some (ReleaseFailedClaim KStart, RecordFailure KStart)"
| "failure_mutations KKill = Some (ReleaseFailedClaim KKill, RecordFailure KKill)"
| "failure_mutations KPause = Some (ReleaseFailedClaim KPause, RecordFailure KPause)"
| "failure_mutations KResume = Some (ReleaseFailedClaim KResume, RecordFailure KResume)"
| "failure_mutations KUpdate = Some (ReleaseFailedClaim KUpdate, RecordFailure KUpdate)"
| "failure_mutations KDelete = Some (ReleaseFailedClaim KDelete, RecordFailure KDelete)"
| "failure_mutations KFile = Some (ReleaseFailedClaim KFile, RecordFailure KFile)"
| "failure_mutations KFilesystem = Some (ReleaseFailedClaim KFilesystem, RecordFailure KFilesystem)"
| "failure_mutations KCheckpoint = Some (ReleaseFailedClaim KCheckpoint, RecordFailure KCheckpoint)"
| "failure_mutations KAttest = Some (ReleaseFailedClaim KAttest, RecordFailure KAttest)"
| "failure_mutations _ = None"

definition fail_prepared_operation :: "OperationId \<Rightarrow> error \<Rightarrow> StoredOperation \<Rightarrow> unit store_m" where
  "fail_prepared_operation operation_id e operation =
     (let failed = operation\<lparr>so_outcome := Failed e\<rparr> in
      if is_creation (so_kind operation) then
        m_bind (write_operation (RecordFailure (so_kind operation)) failed) (\<lambda>_.
          reconcile_failed_creation failed)
      else if so_kind operation \<in> {KExec, KSignalProcess, KWriteStdin, KCloseStdin, KResize} then
        m_bind (m_lift (ok_or (state_error Internal op_fail_operation)
                  (process_failure_mutations (so_kind operation)))) (\<lambda>(release_mutation, failure_mutation).
        m_bind (release_failed_process_operation operation release_mutation) (\<lambda>_.
          write_operation failure_mutation failed))
      else
        m_bind (m_lift (ok_or (state_error Internal op_fail_operation)
                  (failure_mutations (so_kind operation)))) (\<lambda>(release_mutation, failure_mutation).
        m_bind (load_stored_exact (so_container_id operation) (so_generation operation)) (\<lambda>stored.
        m_bind (m_lift (ensure_active_operation stored operation_id op_fail_operation)) (\<lambda>_.
        m_bind (write_container release_mutation (so_container_id operation)
                  (stored\<lparr>sc_active_operation := None\<rparr>)) (\<lambda>_.
          write_operation failure_mutation failed)))))"

definition fail_operation :: "OperationId \<Rightarrow> error \<Rightarrow> unit store_m" where
  "fail_operation operation_id e =
     (if err_retryable e then m_return ()
      else
        m_bind (load_operation operation_id) (\<lambda>operation.
          case so_outcome operation of
            Prepared \<Rightarrow> fail_prepared_operation operation_id e operation
          | Failed durable \<Rightarrow>
              if durable = e then
                (if is_creation (so_kind operation) then reconcile_failed_creation operation else m_return ())
              else m_throw (state_error Conflict op_fail_operation)
          | _ \<Rightarrow> m_throw (state_error Conflict op_fail_operation)))"

section \<open>Contracts of delete\<close>

lemma directory_exists_read_only [read_only_intros]: "read_only (directory_exists k)"
  by (simp add: directory_exists_def read_only_intros)

lemma runs_directory_exists [runs_rules]:
  "P (map_of (directories (disk s)) k \<noteq> None) s \<Longrightarrow> runs (directory_exists k) P s"
  unfolding directory_exists_def by (rule runs_on_disk)

lemma ensure_no_active_process_operations_read_only [read_only_intros]:
  "read_only (ensure_no_active_process_operations r name)"
  by (auto simp: ensure_no_active_process_operations_def Let_def intro!: read_only_intros split: option.split)

lemma publishes_append_delete_event:
  "publishes (append_delete_event oper) (target_exact (so_container_id oper) (so_generation oper))
     {ContainerStopped, ContainerDeleted}"
proof -
  have "publishes (append_delete_event oper) (target_exact (so_container_id oper) (so_generation oper))
     ({ContainerStopped} \<union> ({ContainerDeleted} \<union> {}))"
    unfolding append_delete_event_def Let_def
    by (intro publishes_bind publishes_container_event publishes_return) simp_all
  then show ?thesis by (simp add: insert_commute)
qed

definition delete_prepared ::
  "OperationId \<Rightarrow> ContainerId \<Rightarrow> DeletePreparation \<Rightarrow> DurableStateStore \<Rightarrow> bool" where
  "delete_prepared i c v s \<longleftrightarrow>
     (case v of
        DeletePrepared rec \<Rightarrow> owns (disk s) i KDelete c rec
      | DeleteResume rec \<Rightarrow> owns (disk s) i KDelete c rec
      | DeleteReplayed \<Rightarrow> settled (disk s) i KDelete c SucceededEmpty)"

text \<open>The incarnation the operation is about is no longer live.\<close>

definition gone :: "disk \<Rightarrow> StoredOperation \<Rightarrow> bool" where
  "gone d oper \<longleftrightarrow> (\<forall>r. live_record d (so_container_id oper) = Some r \<longrightarrow> generation_of r \<noteq> so_generation oper)"

lemma runs_settle_deleted:
  assumes op: "map_of (operations (disk s)) i = Some oper" "op_ok (ext s) (disk s) i oper" "so_kind oper = KDelete"
      "so_outcome oper = Prepared"
    and gone: "gone (disk s) oper"
    and P: "\<And>s'. same_env s s' \<Longrightarrow> settled (disk s') i KDelete (so_container_id oper) SucceededEmpty \<Longrightarrow>
       (\<And>k. k \<in> {ContainerStopped, ContainerDeleted} \<Longrightarrow>
          published (disk s') (target_exact (so_container_id oper) (so_generation oper)) k) \<Longrightarrow>
       gone (disk s') oper \<Longrightarrow> P () s'"
  shows "runs (m_bind (append_delete_event oper) (\<lambda>_. write_operation m (oper\<lparr>so_outcome := SucceededEmpty\<rparr>))) P s"
proof (rule runs_bind, rule runs_publishes [OF publishes_append_delete_event])
  fix u s1
  assume env: "same_env s s1" and j: "only_journal (disk s) (disk s1)"
    and pub: "\<And>k. k \<in> {ContainerStopped, ContainerDeleted} \<Longrightarrow>
       published (disk s1) (target_exact (so_container_id oper) (so_generation oper)) k"
  note j = only_journalD [OF j]
  show "runs (write_operation m (oper\<lparr>so_outcome := SucceededEmpty\<rparr>)) P s1"
  proof (rule runs_settle_released [where oper = oper and i = i])
    show ok: "op_ok (ext s1) (disk s1) i oper" using op_ok_frame [OF op(2) j(3)] env by (simp add: same_env_def)
    show "validate_stored_operation_shape (ext s1) (oper\<lparr>so_outcome := SucceededEmpty\<rparr>) = Inr ()"
      by (rule shape_lifecycle [OF ok]) (simp_all add: op is_extension_outcome_def)
    fix s2 assume e2: "same_env s1 s2" and se: "settled (disk s2) i (so_kind oper) (so_container_id oper) SucceededEmpty"
      and d2: "disk s2 = (disk s1)\<lparr>operations := put i (oper\<lparr>so_outcome := SucceededEmpty\<rparr>) (operations (disk s1))\<rparr>"
    show "P () s2"
      using se d2 pub op(3) gone j(1) by (intro P same_env_trans [OF env e2]) (auto simp: gone_def)
  qed (use op gone j in \<open>auto simp: gone_def\<close>)
qed

lemma runs_finish_deleted:
  assumes op: "map_of (operations (disk s)) i = Some oper" "op_ok (ext s) (disk s) i oper" "so_kind oper = KDelete"
      "so_outcome oper = Prepared" "so_container_id oper = c"
    and gone: "gone (disk s) oper"
  shows "runs (finish_deleted oper) (delete_prepared i c) s"
proof -
  have "runs (m_bind (append_delete_event oper) (\<lambda>_. write_operation (ReconcileOperation KDelete)
      (oper\<lparr>so_outcome := SucceededEmpty\<rparr>))) (\<lambda>_. runs (m_return DeleteReplayed) (delete_prepared i c)) s"
    by (rule runs_settle_deleted [OF op(1-4) gone]) (use op(5) in \<open>auto intro!: runs_return simp: delete_prepared_def\<close>)
  from runs_bind [OF this] show ?thesis by (simp add: finish_deleted_def m_bind_assoc)
qed

lemma goneI: "map_of (directories d) (Live (so_container_id oper)) = None \<Longrightarrow> gone d oper"
  by (auto simp: gone_def dest: live_record_dir)

lemma runs_retry_delete:
  assumes op: "map_of (operations (disk s)) i = Some oper" "op_ok (ext s) (disk s) i oper"
    and i: "oc_operation_id (dq_context request) = i"
  shows "runs (retry_delete request digest oper) (delete_prepared i (ct_id (dq_target request))) s"
  unfolding retry_delete_def i
proof (rule runs_bind, rule runs_validate_retry, rule runs_on_empty_outcome, goal_cases)
  case 1
  note finish = runs_finish_deleted [OF op 1(1,3,2)]
  have claim: "runs (m_bind (ensure_no_active_process_operations r op_prepare_delete) (\<lambda>_.
       m_bind (claim_active_operation r i (ClaimOperation KDelete) op_prepare_delete) (\<lambda>r. m_return (DeleteResume (sc_record r)))))
       (delete_prepared i (ct_id (dq_target request))) s"
    if r: "live_record (disk s) (so_container_id oper) = Some r" "record_ok (disk s) (so_container_id oper) r"
      "generation_of r = so_generation oper" for r
  proof (rule runs_bind, rule runs_read_only [OF ensure_no_active_process_operations_read_only], rule runs_bind,
      rule runs_claim_active_operation [OF r(1,2) op(1) refl])
    show "active_claim oper" using 1 by (intro active_claim_prepared lifecycle_process_none [OF op(2)]) simp_all
    fix r' and s' :: DurableStateStore assume "claim_granted (disk s) (so_container_id oper) r i r' (disk s')"
    from ownsI [OF this op(1)]
    show "runs (m_return (DeleteResume (sc_record r'))) (delete_prepared i (ct_id (dq_target request))) s'"
      using 1 r by (intro runs_return) (simp add: delete_prepared_def)
  qed (use r in simp)
  show ?case
    apply (rule runs_bind, rule runs_directory_exists, rule runs_bind, rule runs_directory_exists)
    apply (intro runs_if runs_bind [OF runs_load_stored_exact] runs_bind [OF runs_load_stored_container] claim finish runs_throw)
       apply (auto simp: gone_def dest: live_record_dir)
    done
next
  case 2
  then show ?case
    using settledI [OF op(1)] by (intro runs_return) (simp add: delete_prepared_def)
qed

lemma runs_prepare_delete:
  assumes ids: "valid_id (oc_operation_id (dq_context request))" "valid_id (ct_id (dq_target request))"
  shows "runs (prepare_delete request)
     (delete_prepared (oc_operation_id (dq_context request)) (ct_id (dq_target request))) s"
  unfolding prepare_delete_def
  apply (rule runs_bind, rule runs_external, rule runs_bind, rule runs_load_operation_if_present)
   apply (simp_all add: runs_retry_delete)
  apply (rule runs_bind, rule runs_validate_deadline, rule runs_bind, rule runs_load_stored_container)
  apply (rule runs_bind, rule runs_validate_requested_generation, rule runs_bind, rule runs_lift)
  apply (rule runs_bind, rule runs_read_only [OF ensure_no_active_process_operations_read_only])
  apply (rule runs_bind, rule runs_claim_new_operation [OF _ ids])
        apply (simp_all add: is_creation_def runs_return delete_prepared_def)
  done

lemma runs_move_to_tombstone:
  assumes op: "map_of (operations (disk s)) i = Some oper" "so_kind oper = KDelete" "so_outcome oper = Prepared"
    and P: "\<And>s'. same_env s s' \<Longrightarrow> operations (disk s') = operations (disk s) \<Longrightarrow>
       last_generation (disk s') = last_generation (disk s) \<Longrightarrow> gone (disk s') oper \<Longrightarrow> P () s'"
  shows "runs (move_to_tombstone oper i) P s"
proof -
  have step: "store_step (ext s) (disk s) (move_dir (Live (so_container_id oper)) (delete_tombstone i) (disk s))"
    if "live_record (disk s) (so_container_id oper) = Some r" "generation_of r = so_generation oper"
      "sc_active_operation r \<in> {None, Some i}" "map_of (directories (disk s)) (delete_tombstone i) = None" for r
    unfolding delete_tombstone_def
    by (rule store_step.Quarantine [where r = r and oper = oper]) (use that op in \<open>simp_all add: delete_tombstone_def\<close>)
  have moved: "gone (move_dir (Live (so_container_id oper)) (delete_tombstone i) d) oper" for d
    by (simp add: gone_def delete_tombstone_def)
  have gen: "last_generation (move_dir (Live (so_container_id oper)) (delete_tombstone i) d) = last_generation d" for d
    by (simp add: last_generation_def fun_eq_iff)
  show ?thesis
    unfolding move_to_tombstone_def
    apply (rule runs_bind, rule runs_directory_exists, rule runs_bind, rule runs_directory_exists)
    apply (intro runs_if runs_bind [OF runs_load_stored_exact] runs_bind [OF runs_load_stored_container]
        runs_bind [OF runs_ensure_active] runs_move runs_return runs_reject runs_throw)
        apply (erule step; simp)
       apply (rule P; simp add: moved gen)
     apply (auto intro!: P simp: gone_def dest: live_record_dir)
    done
qed

definition delete_completed :: "OperationId \<Rightarrow> DurableStateStore \<Rightarrow> unit \<Rightarrow> DurableStateStore \<Rightarrow> bool" where
  "delete_completed i s v s' \<longleftrightarrow>
     (\<exists>oper. map_of (operations (disk s)) i = Some oper
        \<and> settled (disk s') i KDelete (so_container_id oper) SucceededEmpty
        \<and> (so_outcome oper = Prepared \<longrightarrow> gone (disk s') oper
             \<and> (\<forall>k \<in> {ContainerStopped, ContainerDeleted}.
                  published (disk s') (target_exact (so_container_id oper) (so_generation oper)) k)))"

lemma runs_complete_delete: "runs (complete_delete i) (delete_completed i s) s"
  unfolding complete_delete_def
proof (rule runs_bind, rule runs_load_operation, rule runs_bind, rule runs_reject, rule runs_on_empty_outcome, goal_cases)
  case (1 oper)
  then have op: "map_of (operations (disk s)) i = Some oper" "op_ok (ext s) (disk s) i oper" "so_kind oper = KDelete"
    "so_outcome oper = Prepared" by simp_all
  show ?case
  proof (rule runs_bind, rule runs_move_to_tombstone [OF op(1,3,4)])
    fix s1 assume env: "same_env s s1" and ops: "operations (disk s1) = operations (disk s)"
      and lg: "last_generation (disk s1) = last_generation (disk s)" and gone: "gone (disk s1) oper"
    show "runs (m_bind (append_delete_event oper) (\<lambda>_. write_operation (CompleteOperation KDelete)
        (oper\<lparr>so_outcome := SucceededEmpty\<rparr>))) (delete_completed i s) s1"
      by (rule runs_settle_deleted [OF _ _ op(3,4) gone])
        (use op ops op_ok_frame [OF op(2) lg] env in \<open>auto simp: same_env_def delete_completed_def\<close>)
  qed
next
  case (2 oper)
  then show ?case by (intro runs_return) (auto simp: delete_completed_def settled_def)
qed

section \<open>Contracts of failure\<close>

lemma shape_failed:
  assumes "validate_stored_operation_shape x oper = Inr ()"
  shows "validate_stored_operation_shape x (oper\<lparr>so_outcome := Failed e\<rparr>) = Inr ()"
  using assms
  by (cases "so_kind oper"; cases "so_request oper")
    (auto simp: validate_stored_operation_shape_def validate_file_shape_def validate_filesystem_shape_def
      validate_checkpoint_shape_def validate_restore_shape_def validate_attest_shape_def validate_lifecycle_shape_def
      is_extension_outcome_def r_bind_Inr_iff request_target_matches_def response_target_matches_def
      context_matches_def digest_matches_def split: StoredOperationRequest.splits option.splits sum.splits)

lemma failure_mutations_total:
  "\<not> is_creation k \<Longrightarrow> is_process_kind k \<Longrightarrow> \<exists>m m'. process_failure_mutations k = Some (m, m')"
  "\<not> is_creation k \<Longrightarrow> \<not> is_process_kind k \<Longrightarrow> \<exists>m m'. failure_mutations k = Some (m, m')"
  by (cases k; simp add: is_creation_def is_process_kind_def)+

text \<open>After a recorded failure the operation holds nothing: a failed creation has no live incarnation,
  a process operation no claim on its process, and any other operation no claim on the container.\<close>

definition released :: "disk \<Rightarrow> OperationId \<Rightarrow> StoredOperation \<Rightarrow> bool" where
  "released d i oper \<longleftrightarrow>
     (if is_creation (so_kind oper) then gone d oper
      else case so_process_id oper of
        Some p \<Rightarrow> \<not> process_owned d i (so_container_id oper) p
      | None \<Rightarrow> (\<exists>r. live_record d (so_container_id oper) = Some r \<and> generation_of r = so_generation oper
                    \<and> sc_active_operation r = None))"

definition operation_failed :: "OperationId \<Rightarrow> error \<Rightarrow> DurableStateStore \<Rightarrow> unit \<Rightarrow> DurableStateStore \<Rightarrow> bool" where
  "operation_failed i e s v s' \<longleftrightarrow>
     (if err_retryable e then s' = s
      else \<exists>oper. map_of (operations (disk s)) i = Some oper
        \<and> so_outcome oper \<in> {Prepared, Failed e}
        \<and> settled (disk s') i (so_kind oper) (so_container_id oper) (Failed e)
        \<and> (so_outcome oper = Prepared \<or> is_creation (so_kind oper) \<longrightarrow> released (disk s') i oper))"

lemma runs_fail_creation:
  assumes op: "map_of (operations (disk s)) i = Some oper" "op_ok (ext s) (disk s) i oper" "so_outcome oper = Prepared"
    and k: "is_creation (so_kind oper)"
    and P: "\<And>s'. settled (disk s') i (so_kind oper) (so_container_id oper) (Failed e) \<Longrightarrow> released (disk s') i oper \<Longrightarrow> P () s'"
  shows "runs (m_bind (write_operation m (oper\<lparr>so_outcome := Failed e\<rparr>))
     (\<lambda>_. reconcile_failed_creation (oper\<lparr>so_outcome := Failed e\<rparr>))) P s"
proof (rule runs_bind, rule runs_settle [OF op])
  let ?failed = "oper\<lparr>so_outcome := Failed e\<rparr>"
  show shape: "validate_stored_operation_shape (ext s) ?failed = Inr ()"
    using op(2) by (auto simp: op_ok_def intro: shape_failed)
  fix s1 assume env: "same_env s s1" and d1: "disk s1 = (disk s)\<lparr>operations := put i ?failed (operations (disk s))\<rparr>"
  have ok: "op_ok (ext s1) (disk s1) i ?failed"
    using op(2) shape env d1 by (simp add: op_ok_def same_env_def)
  show "runs (reconcile_failed_creation ?failed) P s1"
  proof (rule runs_reconcile_failed_creation [OF _ ok])
    show op1: "map_of (operations (disk s1)) i = Some ?failed" by (simp add: d1)
    fix s2 :: DurableStateStore assume "operations (disk s2) = operations (disk s1)"
      "\<And>r. live_record (disk s2) (so_container_id ?failed) = Some r \<Longrightarrow> generation_of r \<noteq> so_generation ?failed"
    then show "P () s2" using op1 settledI [of "disk s2" i ?failed] k
      by (intro P) (auto simp: released_def gone_def)
  qed
qed (simp_all add: k)

lemma runs_fail_process_operation:
  assumes op: "map_of (operations (disk s)) i = Some oper" "op_ok (ext s) (disk s) i oper" "so_outcome oper = Prepared"
    and k: "is_process_kind (so_kind oper)"
    and P: "\<And>s'. settled (disk s') i (so_kind oper) (so_container_id oper) (Failed e) \<Longrightarrow> released (disk s') i oper \<Longrightarrow> P () s'"
  shows "runs (m_bind (release_failed_process_operation oper m)
     (\<lambda>_. write_operation m' (oper\<lparr>so_outcome := Failed e\<rparr>))) P s"
proof -
  obtain p where p: "so_process_id oper = Some p" using process_kind_id [OF op(2) k] by blast
  have kinds: "\<not> is_extension_kind (so_kind oper)" "\<not> is_creation (so_kind oper)"
    using k by (auto simp: is_process_kind_def is_creation_def)
  show ?thesis
    unfolding release_failed_process_operation_def op_ok_id [OF op(2)]
  proof (rule runs_bind, rule runs_release_process_operation_claim [OF p])
    fix s1 assume env: "same_env s s1" and ops: "operations (disk s1) = operations (disk s)"
      and lg: "last_generation (disk s1) = last_generation (disk s)"
      and free: "\<not> process_owned (disk s1) i (so_container_id oper) p"
    show "runs (write_operation m' (oper\<lparr>so_outcome := Failed e\<rparr>)) P s1"
    proof (rule runs_settle_process [OF _ _ op(3) p kinds(1) _ _ free])
      show "op_ok (ext s1) (disk s1) i oper" using op_ok_frame [OF op(2) lg] env by (simp add: same_env_def)
    qed (use op ops p kinds free in \<open>auto simp: is_extension_outcome_def released_def intro!: P\<close>)
  qed
qed

lemma runs_fail_container_operation:
  assumes op: "map_of (operations (disk s)) i = Some oper" "op_ok (ext s) (disk s) i oper" "so_outcome oper = Prepared"
    and k: "\<not> is_process_kind (so_kind oper)" "\<not> is_creation (so_kind oper)"
    and P: "\<And>s'. settled (disk s') i (so_kind oper) (so_container_id oper) (Failed e) \<Longrightarrow> released (disk s') i oper \<Longrightarrow> P () s'"
  shows "runs (m_bind (load_stored_exact (so_container_id oper) (so_generation oper)) (\<lambda>stored.
        m_bind (m_lift (ensure_active_operation stored i op_fail_operation)) (\<lambda>_.
        m_bind (write_container m (so_container_id oper) (stored\<lparr>sc_active_operation := None\<rparr>)) (\<lambda>_.
          write_operation m' (oper\<lparr>so_outcome := Failed e\<rparr>))))) P s"
proof (rule runs_bind, rule runs_load_stored_exact, rule runs_bind, rule runs_ensure_active)
  fix r assume r: "live_record (disk s) (so_container_id oper) = Some r" "record_ok (disk s) (so_container_id oper) r"
    "generation_of r = so_generation oper"
  show "runs (m_bind (write_container m (so_container_id oper) (r\<lparr>sc_active_operation := None\<rparr>)) (\<lambda>_.
          write_operation m' (oper\<lparr>so_outcome := Failed e\<rparr>))) P s"
  proof (rule runs_bind, rule runs_release_record [OF r(1,2) record_step_refl [OF r(2)] refl])
    fix s1 assume env: "same_env s s1" and ops: "operations (disk s1) = operations (disk s)"
      and live: "live_record (disk s1) (so_container_id oper) = Some (r\<lparr>sc_active_operation := None\<rparr>)"
      and lg: "last_generation (disk s1) = last_generation (disk s)"
    have ok: "op_ok (ext s1) (disk s1) i oper" using op_ok_frame [OF op(2) lg] env by (simp add: same_env_def)
    show "runs (write_operation m' (oper\<lparr>so_outcome := Failed e\<rparr>)) P s1"
    proof (rule runs_settle_released [OF _ ok op(3) k(1)])
      show "validate_stored_operation_shape (ext s1) (oper\<lparr>so_outcome := Failed e\<rparr>) = Inr ()"
        using ok by (auto simp: op_ok_def intro: shape_failed)
    qed (use op ops live r k lifecycle_process_none [OF op(2) k(1)] in \<open>auto simp: released_def intro!: P\<close>)
  qed
qed

lemma runs_fail_operation: "runs (fail_operation i e) (operation_failed i e s) s"
proof (cases "err_retryable e")
  case True
  then show ?thesis by (simp add: fail_operation_def operation_failed_def runs_return)
next
  case live: False
  have fin: "operation_failed i e s () s'"
    if "map_of (operations (disk s)) i = Some oper" "so_outcome oper \<in> {Prepared, Failed e}"
      "settled (disk s') i (so_kind oper) (so_container_id oper) (Failed e)"
      "so_outcome oper = Prepared \<or> is_creation (so_kind oper) \<Longrightarrow> released (disk s') i oper" for oper s'
    using that live by (auto simp: operation_failed_def)
  have "runs (fail_prepared_operation i e oper) (operation_failed i e s) s"
    if op: "map_of (operations (disk s)) i = Some oper" "op_ok (ext s) (disk s) i oper" "so_outcome oper = Prepared" for oper
  proof (cases "is_creation (so_kind oper)")
    case True
    then show ?thesis unfolding fail_prepared_operation_def Let_def if_P [OF True]
      by (intro runs_fail_creation [OF op] fin [OF op(1)]) (simp_all add: op)
  next
    case nc: False
    show ?thesis
    proof (cases "is_process_kind (so_kind oper)")
      case True
      then obtain m m' where "process_failure_mutations (so_kind oper) = Some (m, m')"
        using failure_mutations_total(1) nc by blast
      with nc True show ?thesis
        unfolding fail_prepared_operation_def Let_def is_process_kind_def [symmetric] if_not_P [OF nc] if_P [OF True]
        by (intro runs_bind [OF runs_lift]) (auto simp: op
            intro!: runs_fail_process_operation [OF op] fin [OF op(1)])
    next
      case False
      then obtain m m' where "failure_mutations (so_kind oper) = Some (m, m')"
        using failure_mutations_total(2) nc by blast
      with nc False show ?thesis
        unfolding fail_prepared_operation_def Let_def is_process_kind_def [symmetric] if_not_P [OF nc] if_not_P [OF False]
        by (intro runs_bind [OF runs_lift]) (auto simp: op
            intro!: runs_fail_container_operation [OF op] fin [OF op(1)])
    qed
  qed
  moreover have "runs (reconcile_failed_creation oper) (operation_failed i e s) s"
    if op: "map_of (operations (disk s)) i = Some oper" "op_ok (ext s) (disk s) i oper" "so_outcome oper = Failed e"
      and k: "is_creation (so_kind oper)" for oper
  proof (rule runs_reconcile_failed_creation [OF op(1,2)])
    fix s' :: DurableStateStore assume "operations (disk s') = operations (disk s)"
      "\<And>r. live_record (disk s') (so_container_id oper) = Some r \<Longrightarrow> generation_of r \<noteq> so_generation oper"
    then show "operation_failed i e s () s'"
      using settledI [of "disk s'" i oper] op k by (intro fin [OF op(1)]) (auto simp: released_def gone_def)
  qed
  moreover have "operation_failed i e s () s"
    if op: "map_of (operations (disk s)) i = Some oper" "so_outcome oper = Failed e" "\<not> is_creation (so_kind oper)" for oper
    using settledI [OF op(1)] op by (intro fin [OF op(1)]) auto
  ultimately show ?thesis
    unfolding fail_operation_def using live
    by (auto intro!: runs_bind [OF runs_load_operation] runs_throw runs_return split: StoredOperationStatus.split)
qed

end
