(* ===== verification/Lifecycle_Store.thy ===== *)
theory Lifecycle_Store
  imports Create_Store
begin

text \<open>
  The lifecycle operations on an existing container: start (\<open>state/start.rs\<close>), kill
  (\<open>state/kill.rs\<close>), pause and resume (\<open>state/freezer.rs\<close>) and resource update
  (\<open>state/update.rs\<close>).  Each is prepared under a claim on the container record before the driver runs
  and completed afterwards; a retry resumes, completes or replays.
\<close>

section \<open>Events\<close>

definition EV_STARTED :: string where "EV_STARTED = ''started''"
definition EV_STOPPED :: string where "EV_STOPPED = ''stopped''"
definition EV_RESOURCES_UPDATED :: string where "EV_RESOURCES_UPDATED = ''resources-updated''"

definition append_stopped_if :: "bool \<Rightarrow> ContainerTarget \<Rightarrow> unit store_m" where
  "append_stopped_if stopped target =
     (if stopped then
        m_bind (append_container_event EV_STOPPED target ContainerStopped fmempty) (\<lambda>_. m_return ())
      else m_return ())"

text \<open>The events of a start: a container that already stopped publishes both.\<close>

definition append_start_events :: "ContainerTarget \<Rightarrow> ContainerRecord \<Rightarrow> unit store_m" where
  "append_start_events target response =
     m_bind (append_container_event EV_STARTED target ContainerStarted fmempty) (\<lambda>_.
       append_stopped_if (st_status (cr_state response) = StStopped) target)"

section \<open>Start\<close>

definition op_digest_start_request :: string where "op_digest_start_request = ''digest-start-request''"
definition op_prepare_start :: string where "op_prepare_start = ''prepare-start''"
definition op_resume_start :: string where "op_resume_start = ''resume-start''"
definition op_reconcile_succeeded_start :: string where
  "op_reconcile_succeeded_start = ''reconcile-succeeded-start''"
definition op_complete_start :: string where "op_complete_start = ''complete-start''"

definition start_rebind_kinds :: "StoredOperationKind set" where
  "start_rebind_kinds = {KKill, KPause, KResume, KUpdate, KFile, KFilesystem}"

definition rebind_succeeded_start ::
  "StoredOperation \<Rightarrow> ContainerRecord \<Rightarrow> StoredContainer \<Rightarrow> RecordOperationPreparation store_m" where
  "rebind_succeeded_start operation response stored =
     m_bind (active_allows_rebind stored start_rebind_kinds) (\<lambda>allows.
     m_bind (m_reject (\<not> allows \<or> is_paused (cr_state response))
               (state_error Conflict op_reconcile_succeeded_start)) (\<lambda>_.
     m_bind (m_lift (rebuild_state (cr_state response) StRunning
               (st_pid (cr_state (sc_record stored))))) (\<lambda>rebound_state.
     m_bind (m_lift (with_pause (is_paused (cr_state (sc_record stored))) rebound_state)) (\<lambda>expected_state.
     m_bind (m_reject (response\<lparr>cr_state := expected_state\<rparr> \<noteq> sc_record stored)
               (state_error Conflict op_reconcile_succeeded_start)) (\<lambda>_.
     m_bind (write_operation (CompleteOperation KStart)
               (operation\<lparr>so_outcome := Succeeded (response\<lparr>cr_state := rebound_state\<rparr>)\<rparr>)) (\<lambda>_.
       m_return (ReplayedRecord (response\<lparr>cr_state := rebound_state\<rparr>))))))))"

definition reconcile_succeeded_start ::
  "StoredOperation \<Rightarrow> ContainerRecord \<Rightarrow> RecordOperationPreparation store_m" where
  "reconcile_succeeded_start operation response =
     m_bind (m_try (load_stored_container (so_container_id operation))) (\<lambda>result.
       case result of
         Inl e \<Rightarrow>
           if err_code e = NotFound then m_return (ReplayedRecord response) else m_throw e
       | Inr stored \<Rightarrow>
           if cr_generation (sc_record stored) \<noteq> so_generation operation \<or> sc_record stored = response
           then m_return (ReplayedRecord response)
           else if st_status (cr_state (sc_record stored)) \<noteq> StRunning
                   \<or> st_status (cr_state response) \<noteq> StRunning
           then m_return (ReplayedRecord response)
           else if st_pid (cr_state (sc_record stored)) = st_pid (cr_state response)
           then m_return (ReplayedRecord response)
           else rebind_succeeded_start operation response stored)"

text \<open>A prepared start whose container already ran is finished without the driver.\<close>

definition finish_started ::
  "StoredOperation \<Rightarrow> StoredContainer \<Rightarrow> RecordOperationPreparation store_m" where
  "finish_started operation stored =
     m_bind (m_lift (ensure_active_operation stored (so_operation_id operation) op_prepare_start)) (\<lambda>_.
     m_bind (release_if_owned KStart (so_container_id operation) stored) (\<lambda>_.
     m_bind (append_start_events (target_exact (so_container_id operation) (so_generation operation))
               (sc_record stored)) (\<lambda>_.
     m_bind (write_operation (ReconcileOperation KStart)
               (operation\<lparr>so_outcome := Succeeded (sc_record stored)\<rparr>)) (\<lambda>_.
       m_return (ReplayedRecord (sc_record stored))))))"

definition retry_start ::
  "StartRequest \<Rightarrow> RequestDigests \<Rightarrow> StoredOperation \<Rightarrow> RecordOperationPreparation store_m" where
  "retry_start request digest operation =
     m_bind (m_lift (validate_retry operation KStart (ct_id (co_target request)) digest
               op_prepare_start)) (\<lambda>_.
       on_record_outcome op_prepare_start (so_outcome operation)
         (reconcile_succeeded_start operation)
         (m_bind (load_stored_exact (so_container_id operation) (so_generation operation)) (\<lambda>stored.
            case st_status (cr_state (sc_record stored)) of
              StCreated \<Rightarrow>
                m_bind (claim_active_operation stored (oc_operation_id (co_context request))
                          (ClaimOperation KStart) op_prepare_start) (\<lambda>stored.
                  m_return (ResumeRecord (sc_record stored)))
            | StRunning \<Rightarrow> finish_started operation stored
            | StStopped \<Rightarrow> finish_started operation stored
            | StCreating \<Rightarrow> m_throw (state_error FailedPrecondition op_resume_start))))"

definition prepare_start :: "StartRequest \<Rightarrow> RecordOperationPreparation store_m" where
  "prepare_start request =
     m_bind (external (\<lambda>x. request_digest x (StartFingerprint (co_target request))
               op_digest_start_request)) (\<lambda>digest.
     m_bind (load_operation_if_present (oc_operation_id (co_context request))) (\<lambda>existing.
       case existing of
         Some operation \<Rightarrow> retry_start request digest operation
       | None \<Rightarrow>
           m_bind (validate_deadline (co_context request) op_prepare_start) (\<lambda>_.
           m_bind (load_stored_container (ct_id (co_target request))) (\<lambda>stored.
           m_bind (m_lift (validate_requested_generation stored (co_target request) op_prepare_start)) (\<lambda>_.
           m_bind (m_reject (st_status (cr_state (sc_record stored)) \<noteq> StCreated)
                     (state_error FailedPrecondition op_prepare_start)) (\<lambda>_.
           m_bind (claim_new_operation (oc_operation_id (co_context request)) KStart
                     (co_target request) stored digest op_prepare_start) (\<lambda>record.
             m_return (PreparedRecord record))))))))"

definition started_state :: "StoredContainer \<Rightarrow> ContainerState \<Rightarrow> error + State" where
  "started_state stored status =
     r_bind (lift_transition op_complete_start Created StartCompleted) (\<lambda>running.
     r_bind (if status = StStopped then lift_transition op_complete_start running ProcessExited
             else Inr running) (\<lambda>lifecycle.
       rebuild_state (cr_state (sc_record stored)) (container_state lifecycle)
         (if status = StRunning then st_pid (cr_state (sc_record stored)) else None)))"

definition commit_start_state ::
  "StoredContainer \<Rightarrow> ContainerState \<Rightarrow> int option \<Rightarrow> StoredContainer store_m" where
  "commit_start_state stored status pid =
     (let invalid = state_error FailedPrecondition op_complete_start;
          pid_conflict = state_error Conflict op_complete_start;
          prepared_pid = st_pid (cr_state (sc_record stored)) in
      case st_status (cr_state (sc_record stored)) of
        StCreated \<Rightarrow>
          m_bind (m_reject (status = StRunning \<and> prepared_pid \<noteq> pid) pid_conflict) (\<lambda>_.
          m_bind (m_lift (started_state stored status)) (\<lambda>state.
          m_bind (external (\<lambda>x. x_validate_state x state)) (\<lambda>_.
            m_return (stored\<lparr>sc_record := (sc_record stored)\<lparr>cr_state := state\<rparr>\<rparr>))))
      | StRunning \<Rightarrow>
          if status = StRunning then
            m_bind (m_reject (prepared_pid \<noteq> pid) pid_conflict) (\<lambda>_. m_return stored)
          else if status = StStopped then
            m_bind (m_lift (lift_transition op_complete_start Running ProcessExited)) (\<lambda>stopped.
            m_bind (m_lift (rebuild_state (cr_state (sc_record stored)) (container_state stopped) None)) (\<lambda>state.
            m_bind (external (\<lambda>x. x_validate_state x state)) (\<lambda>_.
              m_return (stored\<lparr>sc_record := (sc_record stored)\<lparr>cr_state := state\<rparr>\<rparr>))))
          else m_throw invalid
      | StStopped \<Rightarrow> if status = StStopped then m_return stored else m_throw invalid
      | StCreating \<Rightarrow> m_throw invalid)"

definition complete_start :: "OperationId \<Rightarrow> ContainerState \<Rightarrow> int option \<Rightarrow> ContainerRecord store_m" where
  "complete_start operation_id status pid =
     m_bind (m_reject (\<not> (case (status, pid) of
                             (StRunning, Some p) \<Rightarrow> p > 0
                           | (StStopped, None) \<Rightarrow> True
                           | _ \<Rightarrow> False)) (state_error InvalidArgument op_complete_start)) (\<lambda>_.
     m_bind (load_operation operation_id) (\<lambda>operation.
     m_bind (m_reject (so_kind operation \<noteq> KStart)
               (state_error FailedPrecondition op_complete_start)) (\<lambda>_.
       on_record_outcome op_complete_start (so_outcome operation) m_return
        (m_bind (load_stored_container (so_container_id operation)) (\<lambda>stored.
         m_bind (m_reject (cr_generation (sc_record stored) \<noteq> so_generation operation)
                   (generation_conflict op_complete_start)) (\<lambda>_.
         m_bind (commit_start_state stored status pid) (\<lambda>stored.
         m_bind (m_lift (ensure_active_operation stored operation_id op_complete_start)) (\<lambda>_.
         m_bind (write_container (CompleteContainer KStart) (so_container_id operation)
                   (stored\<lparr>sc_active_operation := None\<rparr>)) (\<lambda>_.
         m_bind (append_start_events (target_exact (so_container_id operation) (so_generation operation))
                   (sc_record stored)) (\<lambda>_.
         m_bind (write_operation (CompleteOperation KStart)
                   (operation\<lparr>so_outcome := Succeeded (sc_record stored)\<rparr>)) (\<lambda>_.
           m_return (sc_record stored))))))))))))"

section \<open>Kill\<close>

definition op_digest_kill_request :: string where "op_digest_kill_request = ''digest-kill-request''"
definition op_prepare_kill :: string where "op_prepare_kill = ''prepare-kill''"
definition op_complete_kill :: string where "op_complete_kill = ''complete-kill''"

definition finish_killed :: "StoredOperation \<Rightarrow> StoredContainer \<Rightarrow> RecordOperationPreparation store_m" where
  "finish_killed operation stored =
     m_bind (m_lift (ensure_active_operation stored (so_operation_id operation) op_prepare_kill)) (\<lambda>_.
     m_bind (release_if_owned KKill (so_container_id operation) stored) (\<lambda>_.
     m_bind (append_container_event EV_STOPPED
               (target_exact (so_container_id operation) (so_generation operation)) ContainerStopped fmempty) (\<lambda>_.
     m_bind (write_operation (ReconcileOperation KKill)
               (operation\<lparr>so_outcome := Succeeded (sc_record stored)\<rparr>)) (\<lambda>_.
       m_return (ReplayedRecord (sc_record stored))))))"

definition retry_kill ::
  "KillRequest \<Rightarrow> RequestDigests \<Rightarrow> StoredOperation \<Rightarrow> RecordOperationPreparation store_m" where
  "retry_kill request digest operation =
     m_bind (m_lift (validate_retry operation KKill (ct_id (kq_target request)) digest
               op_prepare_kill)) (\<lambda>_.
       on_record_outcome op_prepare_kill (so_outcome operation)
         (\<lambda>response. m_return (ReplayedRecord response))
         (m_bind (load_stored_exact (so_container_id operation) (so_generation operation)) (\<lambda>stored.
            if st_status (cr_state (sc_record stored)) = StStopped then finish_killed operation stored
            else
              m_bind (claim_active_operation stored (oc_operation_id (kq_context request))
                        (ClaimOperation KKill) op_prepare_kill) (\<lambda>stored.
                m_return (ResumeRecord (sc_record stored))))))"

definition prepare_kill :: "KillRequest \<Rightarrow> RecordOperationPreparation store_m" where
  "prepare_kill request =
     m_bind (external (\<lambda>x. request_digest x (KillFingerprint (kq_target request) (kq_signal request)
               (kq_all request)) op_digest_kill_request)) (\<lambda>digest.
     m_bind (load_operation_if_present (oc_operation_id (kq_context request))) (\<lambda>existing.
       case existing of
         Some operation \<Rightarrow> retry_kill request digest operation
       | None \<Rightarrow>
           m_bind (validate_deadline (kq_context request) op_prepare_kill) (\<lambda>_.
           m_bind (load_stored_container (ct_id (kq_target request))) (\<lambda>stored.
           m_bind (m_lift (validate_requested_generation stored (kq_target request) op_prepare_kill)) (\<lambda>_.
           m_bind (m_reject (st_status (cr_state (sc_record stored)) \<notin> {StCreated, StRunning})
                     (state_error FailedPrecondition op_prepare_kill)) (\<lambda>_.
           m_bind (claim_new_operation (oc_operation_id (kq_context request)) KKill
                     (kq_target request) stored digest op_prepare_kill) (\<lambda>record.
             m_return (PreparedRecord record))))))))"

definition validate_observed_state :: "ContainerState \<Rightarrow> int option \<Rightarrow> string \<Rightarrow> error + unit" where
  "validate_observed_state status pid operation =
     (case (status, pid) of
        (StCreated, Some p) \<Rightarrow> r_reject (p \<le> 0) (state_error InvalidArgument operation)
      | (StRunning, Some p) \<Rightarrow> r_reject (p \<le> 0) (state_error InvalidArgument operation)
      | (StStopped, None) \<Rightarrow> Inr ()
      | _ \<Rightarrow> Inl (state_error InvalidArgument operation))"

definition commit_kill_state ::
  "StoredContainer \<Rightarrow> ContainerState \<Rightarrow> int option \<Rightarrow> StoredContainer store_m" where
  "commit_kill_state stored status pid =
     (let current = st_status (cr_state (sc_record stored)) in
      if (current, status) \<in> {(StCreated, StCreated), (StRunning, StRunning)} then
        m_bind (m_reject (st_pid (cr_state (sc_record stored)) \<noteq> pid)
                  (state_error Conflict op_complete_kill)) (\<lambda>_. m_return stored)
      else if current \<in> {StCreated, StRunning} \<and> status = StStopped then
        m_bind (m_lift (lift_transition op_complete_kill (lifecycle_state current) ProcessExited)) (\<lambda>lifecycle.
        m_bind (m_lift (rebuild_state (cr_state (sc_record stored)) (container_state lifecycle) None)) (\<lambda>state.
        m_bind (external (\<lambda>x. x_validate_state x state)) (\<lambda>_.
          m_return (stored\<lparr>sc_record := (sc_record stored)\<lparr>cr_state := state\<rparr>\<rparr>))))
      else if (current, status) = (StStopped, StStopped) then m_return stored
      else m_throw (state_error FailedPrecondition op_complete_kill))"

definition complete_kill :: "OperationId \<Rightarrow> ContainerState \<Rightarrow> int option \<Rightarrow> ContainerRecord store_m" where
  "complete_kill operation_id status pid =
     m_bind (m_lift (validate_observed_state status pid op_complete_kill)) (\<lambda>_.
     m_bind (load_operation operation_id) (\<lambda>operation.
     m_bind (m_reject (so_kind operation \<noteq> KKill)
               (state_error FailedPrecondition op_complete_kill)) (\<lambda>_.
       on_record_outcome op_complete_kill (so_outcome operation) m_return
        (m_bind (load_stored_container (so_container_id operation)) (\<lambda>stored.
         m_bind (m_reject (cr_generation (sc_record stored) \<noteq> so_generation operation)
                   (generation_conflict op_complete_kill)) (\<lambda>_.
         m_bind (commit_kill_state stored status pid) (\<lambda>stored.
         m_bind (m_lift (ensure_active_operation stored operation_id op_complete_kill)) (\<lambda>_.
         m_bind (write_container (CompleteContainer KKill) (so_container_id operation)
                   (stored\<lparr>sc_active_operation := None\<rparr>)) (\<lambda>_.
         m_bind (append_stopped_if (st_status (cr_state (sc_record stored)) = StStopped)
                   (target_exact (so_container_id operation) (so_generation operation))) (\<lambda>_.
         m_bind (write_operation (CompleteOperation KKill)
                   (operation\<lparr>so_outcome := Succeeded (sc_record stored)\<rparr>)) (\<lambda>_.
           m_return (sc_record stored))))))))))))"

section \<open>Pause and resume\<close>

datatype FreezerAction = Pause | Resume

fun freezer_kind :: "FreezerAction \<Rightarrow> StoredOperationKind" where
  "freezer_kind Pause = KPause"
| "freezer_kind Resume = KResume"

definition desired :: "FreezerAction \<Rightarrow> bool" where
  "desired action \<longleftrightarrow> action = Pause"

fun freezer_name :: "FreezerAction \<Rightarrow> string" where
  "freezer_name Pause = ''pause''"
| "freezer_name Resume = ''resume''"

fun freezer_event :: "FreezerAction \<Rightarrow> RuntimeEventKind" where
  "freezer_event Pause = ContainerPaused"
| "freezer_event Resume = ContainerResumed"

text \<open>\<open>BTreeMap::from([("operation-id", ..)])\<close>.\<close>

definition operation_attributes :: "OperationId \<Rightarrow> (string, string) fmap" where
  "operation_attributes operation_id = fmupd ATTR_OPERATION_ID operation_id fmempty"

definition append_freezer_event :: "StoredOperation \<Rightarrow> FreezerAction \<Rightarrow> RuntimeEvent store_m" where
  "append_freezer_event operation action =
     append_operation_event (so_operation_id operation) (freezer_name action)
       (target_exact (so_container_id operation) (so_generation operation)) None
       (freezer_event action) (operation_attributes (so_operation_id operation))"

definition finish_frozen ::
  "FreezerAction \<Rightarrow> StoredOperation \<Rightarrow> StoredContainer \<Rightarrow> RecordOperationPreparation store_m" where
  "finish_frozen action operation stored =
     m_bind (m_lift (ensure_active_operation stored (so_operation_id operation) (freezer_name action))) (\<lambda>_.
     m_bind (release_if_owned (freezer_kind action) (so_container_id operation) stored) (\<lambda>_.
     m_bind (append_freezer_event operation action) (\<lambda>_.
     m_bind (write_operation (ReconcileOperation (freezer_kind action))
               (operation\<lparr>so_outcome := Succeeded (sc_record stored)\<rparr>)) (\<lambda>_.
       m_return (ReplayedRecord (sc_record stored))))))"

definition rebind_succeeded_freezer ::
  "StoredOperation \<Rightarrow> ContainerRecord \<Rightarrow> FreezerAction \<Rightarrow> StoredContainer \<Rightarrow> RecordOperationPreparation store_m" where
  "rebind_succeeded_freezer operation response action stored =
     m_bind (m_lift (rebuild_state (cr_state response) StRunning
               (st_pid (cr_state (sc_record stored))))) (\<lambda>state.
     m_bind (m_lift (rebuild_paused_state state (desired action))) (\<lambda>rebound_state.
     m_bind (m_lift (rebuild_paused_state rebound_state (is_paused (cr_state (sc_record stored))))) (\<lambda>expected_state.
     m_bind (m_reject (response\<lparr>cr_state := expected_state\<rparr> \<noteq> sc_record stored)
               (state_error Conflict (freezer_name action))) (\<lambda>_.
     m_bind (write_operation (ReconcileOperation (freezer_kind action))
               (operation\<lparr>so_outcome := Succeeded (response\<lparr>cr_state := rebound_state\<rparr>)\<rparr>)) (\<lambda>_.
       m_return (ReplayedRecord (response\<lparr>cr_state := rebound_state\<rparr>)))))))"

definition reconcile_succeeded_freezer ::
  "FreezerAction \<Rightarrow> StoredOperation \<Rightarrow> ContainerRecord \<Rightarrow> RecordOperationPreparation store_m" where
  "reconcile_succeeded_freezer action operation response =
     m_bind (m_try (load_stored_container (so_container_id operation))) (\<lambda>result.
       case result of
         Inl e \<Rightarrow>
           if err_code e = NotFound then m_return (ReplayedRecord response) else m_throw e
       | Inr stored \<Rightarrow>
           if cr_generation (sc_record stored) \<noteq> so_generation operation \<or> sc_record stored = response
           then m_return (ReplayedRecord response)
           else if st_status (cr_state (sc_record stored)) \<noteq> StRunning
                   \<or> st_status (cr_state response) \<noteq> StRunning
                   \<or> is_paused (cr_state response) \<noteq> desired action
                   \<or> st_pid (cr_state (sc_record stored)) = st_pid (cr_state response)
           then m_return (ReplayedRecord response)
           else rebind_succeeded_freezer operation response action stored)"

definition retry_freezer ::
  "ContainerOperationRequest \<Rightarrow> FreezerAction \<Rightarrow> RequestDigests \<Rightarrow> StoredOperation
     \<Rightarrow> RecordOperationPreparation store_m" where
  "retry_freezer request action digest operation =
     m_bind (m_lift (validate_retry operation (freezer_kind action) (ct_id (co_target request)) digest
               (freezer_name action))) (\<lambda>_.
       on_record_outcome (freezer_name action) (so_outcome operation)
         (reconcile_succeeded_freezer action operation)
         (m_bind (load_stored_exact (so_container_id operation) (so_generation operation)) (\<lambda>stored.
            if is_paused (cr_state (sc_record stored)) = desired action
            then finish_frozen action operation stored
            else
              m_bind (claim_active_operation stored (oc_operation_id (co_context request))
                        (ClaimOperation (freezer_kind action)) (freezer_name action)) (\<lambda>stored.
                m_return (ResumeRecord (sc_record stored))))))"

definition prepare_freezer ::
  "ContainerOperationRequest \<Rightarrow> FreezerAction \<Rightarrow> RecordOperationPreparation store_m" where
  "prepare_freezer request action =
     m_bind (external (\<lambda>x. request_digest x (FreezerFingerprint (co_target request))
               (freezer_name action))) (\<lambda>digest.
     m_bind (load_operation_if_present (oc_operation_id (co_context request))) (\<lambda>existing.
       case existing of
         Some operation \<Rightarrow> retry_freezer request action digest operation
       | None \<Rightarrow>
           m_bind (validate_deadline (co_context request) (freezer_name action)) (\<lambda>_.
           m_bind (load_stored_container (ct_id (co_target request))) (\<lambda>stored.
           m_bind (m_lift (validate_requested_generation stored (co_target request)
                     (freezer_name action))) (\<lambda>_.
           m_bind (m_reject (st_status (cr_state (sc_record stored)) \<noteq> StRunning)
                     (state_error FailedPrecondition (freezer_name action))) (\<lambda>_.
           m_bind (claim_new_operation (oc_operation_id (co_context request)) (freezer_kind action)
                     (co_target request) stored digest (freezer_name action)) (\<lambda>record.
             m_return (PreparedRecord record))))))))"

definition prepare_pause :: "ContainerOperationRequest \<Rightarrow> RecordOperationPreparation store_m" where
  "prepare_pause request = prepare_freezer request Pause"

definition prepare_resume :: "ContainerOperationRequest \<Rightarrow> RecordOperationPreparation store_m" where
  "prepare_resume request = prepare_freezer request Resume"

definition commit_freezer_state ::
  "StoredContainer \<Rightarrow> int option \<Rightarrow> bool \<Rightarrow> FreezerAction \<Rightarrow> StoredContainer store_m" where
  "commit_freezer_state stored pid paused action =
     m_bind (m_reject (st_status (cr_state (sc_record stored)) \<noteq> StRunning
                       \<or> st_pid (cr_state (sc_record stored)) \<noteq> pid)
               (state_error Conflict (freezer_name action))) (\<lambda>_.
     m_bind (m_lift (rebuild_paused_state (cr_state (sc_record stored)) paused)) (\<lambda>state.
     m_bind (external (\<lambda>x. x_validate_state x state)) (\<lambda>_.
       m_return (stored\<lparr>sc_record := (sc_record stored)\<lparr>cr_state := state\<rparr>\<rparr>))))"

definition complete_freezer ::
  "OperationId \<Rightarrow> ContainerState \<Rightarrow> int option \<Rightarrow> bool \<Rightarrow> FreezerAction \<Rightarrow> ContainerRecord store_m" where
  "complete_freezer operation_id status pid paused action =
     m_bind (m_reject (status \<noteq> StRunning \<or> (case pid of None \<Rightarrow> True | Some p \<Rightarrow> p \<le> 0))
               (state_error InvalidArgument (freezer_name action))) (\<lambda>_.
     m_bind (m_reject (paused \<noteq> desired action)
               (state_error FailedPrecondition (freezer_name action))) (\<lambda>_.
     m_bind (load_operation operation_id) (\<lambda>operation.
     m_bind (m_reject (so_kind operation \<noteq> freezer_kind action)
               (state_error FailedPrecondition (freezer_name action))) (\<lambda>_.
       on_record_outcome (freezer_name action) (so_outcome operation) m_return
        (m_bind (load_stored_container (so_container_id operation)) (\<lambda>stored.
         m_bind (m_reject (cr_generation (sc_record stored) \<noteq> so_generation operation)
                   (generation_conflict (freezer_name action))) (\<lambda>_.
         m_bind (commit_freezer_state stored pid paused action) (\<lambda>stored.
         m_bind (m_lift (ensure_active_operation stored operation_id (freezer_name action))) (\<lambda>_.
         m_bind (write_container (CompleteContainer (freezer_kind action)) (so_container_id operation)
                   (stored\<lparr>sc_active_operation := None\<rparr>)) (\<lambda>_.
         m_bind (append_freezer_event operation action) (\<lambda>_.
         m_bind (write_operation (CompleteOperation (freezer_kind action))
                   (operation\<lparr>so_outcome := Succeeded (sc_record stored)\<rparr>)) (\<lambda>_.
           m_return (sc_record stored)))))))))))))"

definition complete_pause ::
  "OperationId \<Rightarrow> ContainerState \<Rightarrow> int option \<Rightarrow> bool \<Rightarrow> ContainerRecord store_m" where
  "complete_pause operation_id status pid paused = complete_freezer operation_id status pid paused Pause"

definition complete_resume ::
  "OperationId \<Rightarrow> ContainerState \<Rightarrow> int option \<Rightarrow> bool \<Rightarrow> ContainerRecord store_m" where
  "complete_resume operation_id status pid paused = complete_freezer operation_id status pid paused Resume"

section \<open>Update\<close>

definition op_name_update :: string where "op_name_update = ''update''"

definition rebind_succeeded_update ::
  "StoredOperation \<Rightarrow> ContainerRecord \<Rightarrow> StoredContainer \<Rightarrow> RecordOperationPreparation store_m" where
  "rebind_succeeded_update operation response stored =
     (let durable = cr_state (sc_record stored) in
      m_bind (m_lift (rebuild_state (cr_state response) (st_status (cr_state response)) (st_pid durable))) (\<lambda>state.
      m_bind (m_lift (with_pause (is_paused (cr_state response)) state)) (\<lambda>rebound_state.
      m_bind (m_lift (rebuild_state rebound_state (st_status durable) (st_pid durable))) (\<lambda>state.
      m_bind (m_lift (with_pause (is_paused durable) state)) (\<lambda>expected_state.
      m_bind (m_reject (response\<lparr>cr_state := expected_state\<rparr> \<noteq> sc_record stored)
                (state_error Conflict op_name_update)) (\<lambda>_.
      m_bind (write_operation (CompleteOperation KUpdate)
                (operation\<lparr>so_outcome := Succeeded (response\<lparr>cr_state := rebound_state\<rparr>)\<rparr>)) (\<lambda>_.
        m_return (ReplayedRecord (response\<lparr>cr_state := rebound_state\<rparr>)))))))))"

definition reconcile_succeeded_update ::
  "StoredOperation \<Rightarrow> ContainerRecord \<Rightarrow> RecordOperationPreparation store_m" where
  "reconcile_succeeded_update operation response =
     m_bind (m_try (load_stored_container (so_container_id operation))) (\<lambda>result.
       case result of
         Inl e \<Rightarrow>
           if err_code e = NotFound then m_return (ReplayedRecord response) else m_throw e
       | Inr stored \<Rightarrow>
           if cr_generation (sc_record stored) \<noteq> so_generation operation \<or> sc_record stored = response
           then m_return (ReplayedRecord response)
           else if st_status (cr_state (sc_record stored)) \<notin> {StCreated, StRunning}
                   \<or> st_status (cr_state response) \<notin> {StCreated, StRunning}
                   \<or> st_pid (cr_state (sc_record stored)) = st_pid (cr_state response)
           then m_return (ReplayedRecord response)
           else rebind_succeeded_update operation response stored)"

definition retry_update ::
  "UpdateRequest \<Rightarrow> RequestDigests \<Rightarrow> StoredOperation \<Rightarrow> RecordOperationPreparation store_m" where
  "retry_update request digest operation =
     m_bind (m_lift (validate_retry operation KUpdate (ct_id (uq_target request)) digest op_name_update)) (\<lambda>_.
       on_record_outcome op_name_update (so_outcome operation)
         (reconcile_succeeded_update operation)
         (m_bind (load_stored_exact (so_container_id operation) (so_generation operation)) (\<lambda>stored.
          m_bind (claim_active_operation stored (oc_operation_id (uq_context request))
                    (ClaimOperation KUpdate) op_name_update) (\<lambda>stored.
            m_return (ResumeRecord (sc_record stored))))))"

definition prepare_update :: "UpdateRequest \<Rightarrow> RecordOperationPreparation store_m" where
  "prepare_update request =
     m_bind (external (\<lambda>x. update_validate x request)) (\<lambda>_.
     m_bind (external (\<lambda>x. request_digest x (UpdateFingerprint (uq_target request)
               (uq_resources request)) op_name_update)) (\<lambda>digest.
     m_bind (load_operation_if_present (oc_operation_id (uq_context request))) (\<lambda>existing.
       case existing of
         Some operation \<Rightarrow> retry_update request digest operation
       | None \<Rightarrow>
           m_bind (validate_deadline (uq_context request) op_name_update) (\<lambda>_.
           m_bind (load_stored_container (ct_id (uq_target request))) (\<lambda>stored.
           m_bind (m_lift (validate_requested_generation stored (uq_target request) op_name_update)) (\<lambda>_.
           m_bind (m_reject (st_status (cr_state (sc_record stored)) \<notin> {StCreated, StRunning})
                     (state_error FailedPrecondition op_name_update)) (\<lambda>_.
           m_bind (claim_new_operation (oc_operation_id (uq_context request)) KUpdate
                     (uq_target request) stored digest op_name_update) (\<lambda>record.
             m_return (PreparedRecord record)))))))))"

definition complete_update ::
  "OperationId \<Rightarrow> ContainerState \<Rightarrow> int option \<Rightarrow> bool \<Rightarrow> ContainerRecord store_m" where
  "complete_update operation_id status pid paused =
     m_bind (m_reject (status \<notin> {StCreated, StRunning}
                       \<or> (case pid of None \<Rightarrow> True | Some p \<Rightarrow> p \<le> 0)
                       \<or> (status = StCreated \<and> paused)) (state_error InvalidArgument op_name_update)) (\<lambda>_.
     m_bind (load_operation operation_id) (\<lambda>operation.
     m_bind (m_reject (so_kind operation \<noteq> KUpdate) (state_error FailedPrecondition op_name_update)) (\<lambda>_.
       on_record_outcome op_name_update (so_outcome operation) m_return
        (m_bind (load_stored_container (so_container_id operation)) (\<lambda>stored.
         m_bind (m_reject (cr_generation (sc_record stored) \<noteq> so_generation operation)
                   (generation_conflict op_name_update)) (\<lambda>_.
         m_bind (m_reject (st_status (cr_state (sc_record stored)) \<noteq> status
                           \<or> st_pid (cr_state (sc_record stored)) \<noteq> pid
                           \<or> is_paused (cr_state (sc_record stored)) \<noteq> paused)
                   (state_error Conflict op_name_update)) (\<lambda>_.
         m_bind (m_lift (ensure_active_operation stored operation_id op_name_update)) (\<lambda>_.
         m_bind (write_container (CompleteContainer KUpdate) (so_container_id operation)
                   (stored\<lparr>sc_active_operation := None\<rparr>)) (\<lambda>_.
         m_bind (append_operation_event operation_id EV_RESOURCES_UPDATED
                   (target_exact (so_container_id operation) (so_generation operation)) None
                   ResourcesUpdated (operation_attributes operation_id)) (\<lambda>_.
         m_bind (write_operation (CompleteOperation KUpdate)
                   (operation\<lparr>so_outcome := Succeeded (sc_record stored)\<rparr>)) (\<lambda>_.
           m_return (sc_record stored))))))))))))"

section \<open>Events are published\<close>

lemma publishes_append_stopped_if:
  "publishes (append_stopped_if b target) target (if b then {ContainerStopped} else {})"
proof (cases b)
  case True
  have "publishes (append_stopped_if b target) target ({ContainerStopped} \<union> {})"
    unfolding append_stopped_if_def using True
    by (simp only: if_True) (intro publishes_bind publishes_container_event publishes_return, simp)
  then show ?thesis using True by simp
qed (simp add: append_stopped_if_def publishes_return)

definition start_events :: "ContainerRecord \<Rightarrow> RuntimeEventKind set" where
  "start_events rec = {ContainerStarted} \<union> (if st_status (cr_state rec) = StStopped then {ContainerStopped} else {})"

lemma publishes_append_start_events: "publishes (append_start_events target rec) target (start_events rec)"
  unfolding append_start_events_def start_events_def
  by (intro publishes_bind publishes_container_event publishes_append_stopped_if) simp

lemma publishes_append_freezer_event:
  "op_ok x d i oper \<Longrightarrow>
     publishes (append_freezer_event oper action) (target_exact (so_container_id oper) (so_generation oper))
       {freezer_event action}"
  unfolding append_freezer_event_def
  by (intro publishes_operation_event) (cases action; auto simp: op_ok_def)+

section \<open>Start\<close>

lemma runs_reconcile_succeeded_start:
  assumes op: "map_of (operations (disk s)) i = Some oper" "op_ok (ext s) (disk s) i oper"
    "so_kind oper = KStart" "so_container_id oper = c" "so_outcome oper = Succeeded response"
  shows "runs (reconcile_succeeded_start oper response) (record_prepared i KStart c) s"
  unfolding reconcile_succeeded_start_def
  by (rule runs_replay_record [OF op(1,3-5)], unfold rebind_succeeded_start_def,
      intro runs_rules record_replayed [OF op(1,3-5)] runs_rebind_response [OF op(1,2,5)])
    (auto simp: op record_prepared_def)

lemma runs_finish_started:
  assumes "map_of (operations (disk s)) i = Some oper" "op_ok (ext s) (disk s) i oper" "so_kind oper = KStart"
      "so_outcome oper = Prepared" "so_container_id oper = c"
    and "live_record (disk s) (so_container_id oper) = Some r" "record_ok (disk s) (so_container_id oper) r"
  shows "runs (finish_started oper r) (record_prepared i KStart c) s"
  unfolding finish_started_def
  by (rule runs_finish [OF assms(1-4) _ _ assms(5-7) publishes_append_start_events]) simp_all

lemma runs_retry_start:
  assumes op: "map_of (operations (disk s)) i = Some oper" "op_ok (ext s) (disk s) i oper"
    and i: "i = oc_operation_id (co_context request)"
  shows "runs (retry_start request digest oper) (record_prepared i KStart (ct_id (co_target request))) s"
  unfolding retry_start_def
proof (rule runs_retry_record, goal_cases)
  case (1 r)
  note finish = runs_finish_started [OF op 1(1,3,2,4,5)]
  have "runs (m_bind (claim_active_operation r i (ClaimOperation KStart) op_prepare_start)
      (\<lambda>stored. m_return (ResumeRecord (sc_record stored)))) (record_prepared i KStart (ct_id (co_target request))) s"
    using op 1 by (intro runs_resume) simp_all
  with finish i show ?case by (cases "status_of r") (simp_all add: runs_throw)
next
  case (2 rec)
  then show ?case using op by (intro runs_reconcile_succeeded_start) auto
qed

lemma runs_prepare_start:
  assumes "valid_id (oc_operation_id (co_context request))" "valid_id (ct_id (co_target request))"
  shows "runs (prepare_start request)
     (record_prepared (oc_operation_id (co_context request)) KStart (ct_id (co_target request))) s"
  unfolding prepare_start_def
  by (rule runs_bind, rule runs_external, rule runs_prepare_record [OF assms])
    (auto simp: is_creation_def intro: runs_retry_start)

text \<open>The state change of a completion: a container process that exits stops its container.\<close>

lemma record_step_stop:
  assumes r: "record_ok d c r" "status_of r \<in> {StCreated, StRunning}"
    and b: "rebuild_state (cr_state (sc_record r)) StStopped None = Inr st"
  shows "record_step r (r\<lparr>sc_record := (sc_record r)\<lparr>cr_state := st\<rparr>\<rparr>)"
proof -
  have "lifecycle_step (status_of r) StStopped"
    using r(2) lifecycle_stepI [of StCreated ProcessExited StStopped]
      lifecycle_stepI [of StRunning ProcessExited StStopped] by auto
  with r b show ?thesis by (intro record_step_state state_step_rebuild [OF b]) (auto simp: record_ok_def)
qed

lemma record_step_run:
  assumes r: "record_ok d c r" "status_of r = StCreated"
    and b: "rebuild_state (cr_state (sc_record r)) StRunning (st_pid (cr_state (sc_record r))) = Inr st"
  shows "record_step r (r\<lparr>sc_record := (sc_record r)\<lparr>cr_state := st\<rparr>\<rparr>)"
  using r lifecycle_stepI [of StCreated StartCompleted StRunning]
  by (intro record_step_state state_step_rebuild [OF b]) (auto simp: record_ok_def state_ok_def)

lemma runs_commit_start_state:
  assumes r: "record_ok (disk s) c r" and st: "status \<in> {StRunning, StStopped}"
    and P: "\<And>r'. record_step r r' \<Longrightarrow> sc_init_io_operations r' = sc_init_io_operations r \<Longrightarrow>
       status_of r' = status \<Longrightarrow> st_pid (cr_state (sc_record r')) = (if status = StRunning then pid else None) \<Longrightarrow> P r' s"
  shows "runs (commit_start_state r status pid) P s"
proof -
  have go: "P (r\<lparr>sc_record := (sc_record r)\<lparr>cr_state := st\<rparr>\<rparr>) s"
    if "status_of r = StCreated" "started_state r status = Inr st"
      "status = StRunning \<longrightarrow> st_pid (cr_state (sc_record r)) = pid" for st
  proof (cases "status = StRunning")
    case True
    then have b: "rebuild_state (cr_state (sc_record r)) StRunning (st_pid (cr_state (sc_record r))) = Inr st"
      using that(2) by (simp add: started_state_def lift_transition_def)
    with True that rebuild_state_sel [OF b] show ?thesis by (intro P record_step_run [OF r]) simp_all
  next
    case False
    with st have s: "status = StStopped" by simp
    then have b: "rebuild_state (cr_state (sc_record r)) StStopped None = Inr st"
      using that(2) by (simp add: started_state_def lift_transition_def)
    with s that rebuild_state_sel [OF b] show ?thesis by (intro P record_step_stop [OF r]) simp_all
  qed
  have stop: "P (r\<lparr>sc_record := (sc_record r)\<lparr>cr_state := st\<rparr>\<rparr>) s"
    if "status_of r = StRunning" "status = StStopped"
      "rebuild_state (cr_state (sc_record r)) StStopped None = Inr st" for st
    using that rebuild_state_sel [OF that(3)] by (intro P record_step_stop [OF r]) simp_all
  have keep: "P r s" if "status_of r = status" "status = StRunning \<longrightarrow> st_pid (cr_state (sc_record r)) = pid"
    using that st r by (intro P record_step_refl [OF r]) (auto simp: record_ok_def state_ok_def)
  show ?thesis
    unfolding commit_start_state_def Let_def
    apply (cases "status_of r"; simp add: runs_throw)
      apply (intro runs_rules go; simp)
     apply (intro conjI impI runs_rules keep stop; simp add: lift_transition_def)
    apply (intro impI runs_rules keep; simp)
    done
qed

lemma runs_complete_start:
  "runs (complete_start i status pid) (record_completed i KStart start_events
     (\<lambda>rec. st_status (cr_state rec) = status \<and> st_pid (cr_state rec) = pid) s) s"
  unfolding complete_start_def
proof (rule runs_bind, rule runs_reject, rule runs_complete_record, rule runs_bind, goal_cases)
  case (1 oper r)
  then have "status \<in> {StRunning, StStopped}" "(if status = StRunning then pid else None) = pid"
    by (auto split: ContainerState.splits option.splits)
  with 1 show ?case
    by (intro runs_commit_start_state [of _ "so_container_id oper"] runs_completion publishes_append_start_events)
      simp_all
qed

section \<open>Kill\<close>

lemma runs_finish_killed:
  assumes "map_of (operations (disk s)) i = Some oper" "op_ok (ext s) (disk s) i oper" "so_kind oper = KKill"
      "so_outcome oper = Prepared" "so_container_id oper = c"
    and "live_record (disk s) (so_container_id oper) = Some r" "record_ok (disk s) (so_container_id oper) r"
  shows "runs (finish_killed oper r) (record_prepared i KKill c) s"
  unfolding finish_killed_def
  by (rule runs_finish [OF assms(1-4) _ _ assms(5-7) publishes_container_event]) simp_all

lemma runs_retry_kill:
  assumes op: "map_of (operations (disk s)) i = Some oper" "op_ok (ext s) (disk s) i oper"
    and i: "i = oc_operation_id (kq_context request)"
  shows "runs (retry_kill request digest oper) (record_prepared i KKill (ct_id (kq_target request))) s"
  unfolding retry_kill_def i [symmetric]
proof (rule runs_retry_record, goal_cases)
  case (1 r)
  note finish = runs_finish_killed [OF op 1(1,3,2,4,5)]
  show ?case
    by (intro runs_if finish runs_resume) (use op 1 in simp_all)
next
  case (2 rec)
  then show ?case using op by (intro runs_return record_replayed)
qed

lemma runs_prepare_kill:
  assumes "valid_id (oc_operation_id (kq_context request))" "valid_id (ct_id (kq_target request))"
  shows "runs (prepare_kill request)
     (record_prepared (oc_operation_id (kq_context request)) KKill (ct_id (kq_target request))) s"
  unfolding prepare_kill_def
  by (rule runs_bind, rule runs_external, rule runs_prepare_record [OF assms])
    (auto simp: is_creation_def intro: runs_retry_kill)

lemma runs_commit_kill_state:
  assumes r: "record_ok (disk s) c r" and v: "validate_observed_state status pid name = Inr ()"
    and P: "\<And>r'. record_step r r' \<Longrightarrow> sc_init_io_operations r' = sc_init_io_operations r \<Longrightarrow>
       status_of r' = status \<Longrightarrow> st_pid (cr_state (sc_record r')) = pid \<Longrightarrow> P r' s"
  shows "runs (commit_kill_state r status pid) P s"
proof -
  have pid: "status = StStopped \<Longrightarrow> pid = None"
    using v by (auto simp: validate_observed_state_def split: option.splits)
  have stop: "P (r\<lparr>sc_record := (sc_record r)\<lparr>cr_state := st\<rparr>\<rparr>) s"
    if "status_of r \<in> {StCreated, StRunning}" "status = StStopped"
      "lift_transition op_complete_kill (lifecycle_state (status_of r)) ProcessExited = Inr l"
      "rebuild_state (cr_state (sc_record r)) (container_state l) None = Inr st" for st l
  proof -
    have "container_state l = StStopped" using that(1,3) by (auto simp: lift_transition_def)
    with that have b: "rebuild_state (cr_state (sc_record r)) StStopped None = Inr st" by simp
    with that pid rebuild_state_sel [OF b] show ?thesis
      by (intro P record_step_stop [OF r]) simp_all
  qed
  have keep: "P r s" if "status_of r = status" "status \<noteq> StStopped \<longrightarrow> st_pid (cr_state (sc_record r)) = pid"
    using that r pid by (intro P record_step_refl [OF r]) (cases status; auto simp: record_ok_def state_ok_def)+
  show ?thesis
    unfolding commit_kill_state_def Let_def
    by (intro runs_rules) (auto intro: stop keep)
qed

lemma runs_complete_kill:
  "runs (complete_kill i status pid) (record_completed i KKill
     (\<lambda>rec. if st_status (cr_state rec) = StStopped then {ContainerStopped} else {})
     (\<lambda>rec. st_status (cr_state rec) = status \<and> st_pid (cr_state rec) = pid) s) s"
  unfolding complete_kill_def
proof (rule runs_bind, rule runs_lift, rule runs_complete_record, rule runs_bind, goal_cases)
  case (1 v oper r)
  then show ?case
    by (intro runs_commit_kill_state [of _ "so_container_id oper"] runs_completion publishes_append_stopped_if)
      simp_all
qed

section \<open>Pause and resume\<close>

lemma freezer_kinds [simp]:
  "\<not> is_extension_kind (freezer_kind a)" "\<not> is_process_kind (freezer_kind a)" "\<not> is_creation (freezer_kind a)"
  by (cases a; simp add: is_creation_def)+

lemma runs_reconcile_succeeded_freezer:
  assumes op: "map_of (operations (disk s)) i = Some oper" "op_ok (ext s) (disk s) i oper"
    "so_kind oper = freezer_kind a" "so_container_id oper = c" "so_outcome oper = Succeeded response"
  shows "runs (reconcile_succeeded_freezer a oper response) (record_prepared i (freezer_kind a) c) s"
  unfolding reconcile_succeeded_freezer_def
  by (rule runs_replay_record [OF op(1,3-5)], unfold rebind_succeeded_freezer_def,
      intro runs_rules record_replayed [OF op(1,3-5)] runs_rebind_response [OF op(1,2,5)])
    (auto simp: op record_prepared_def intro!: rebound_from_rebuild_paused [OF rebound_from_rebuild])

lemma runs_finish_frozen:
  assumes "map_of (operations (disk s)) i = Some oper" "op_ok (ext s) (disk s) i oper" "so_kind oper = freezer_kind a"
      "so_outcome oper = Prepared" "so_container_id oper = c"
    and "live_record (disk s) (so_container_id oper) = Some r" "record_ok (disk s) (so_container_id oper) r"
  shows "runs (finish_frozen a oper r) (record_prepared i (freezer_kind a) c) s"
  unfolding finish_frozen_def
  by (rule runs_finish [OF assms(1-4) _ _ assms(5-7) publishes_append_freezer_event [OF assms(2)]]) simp_all

lemma runs_prepare_freezer:
  assumes ids: "valid_id (oc_operation_id (co_context request))" "valid_id (ct_id (co_target request))"
  shows "runs (prepare_freezer request a)
     (record_prepared (oc_operation_id (co_context request)) (freezer_kind a) (ct_id (co_target request))) s"
  unfolding prepare_freezer_def
proof (rule runs_bind, rule runs_external, rule runs_prepare_record [OF ids freezer_kinds])
  fix digest oper
  assume op: "map_of (operations (disk s)) (oc_operation_id (co_context request)) = Some oper"
    "op_ok (ext s) (disk s) (oc_operation_id (co_context request)) oper"
  show "runs (retry_freezer request a digest oper)
     (record_prepared (oc_operation_id (co_context request)) (freezer_kind a) (ct_id (co_target request))) s"
    unfolding retry_freezer_def
  proof (rule runs_retry_record, goal_cases)
    case (1 r)
    note finish = runs_finish_frozen [OF op 1(1,3,2,4,5)]
    show ?case by (intro runs_if finish runs_resume) (use op 1 in simp_all)
  next
    case (2 rec)
    then show ?case using op by (intro runs_reconcile_succeeded_freezer)
  qed
qed

lemma paused_rebuild_paused_state:
  "rebuild_paused_state st b = Inr st' \<Longrightarrow> is_paused st' \<longleftrightarrow> b"
  by (auto simp: rebuild_paused_state_def is_paused_def nonempty_def Let_def split: if_splits)

lemma runs_commit_freezer_state:
  assumes r: "record_ok (disk s) c r"
    and P: "\<And>r'. record_step r r' \<Longrightarrow> sc_init_io_operations r' = sc_init_io_operations r \<Longrightarrow>
       status_of r' = StRunning \<Longrightarrow> st_pid (cr_state (sc_record r')) = pid \<Longrightarrow>
       is_paused (cr_state (sc_record r')) = paused \<Longrightarrow> P r' s"
  shows "runs (commit_freezer_state r pid paused a) P s"
  unfolding commit_freezer_state_def
proof (intro runs_rules P)
  fix st
  assume "\<not> (status_of r \<noteq> StRunning \<or> st_pid (cr_state (sc_record r)) \<noteq> pid)"
    and b: "rebuild_paused_state (cr_state (sc_record r)) paused = Inr st"
  with r rebuild_paused_state_sel [OF b] paused_rebuild_paused_state [OF b]
  show "record_step r (r\<lparr>sc_record := (sc_record r)\<lparr>cr_state := st\<rparr>\<rparr>)"
    "st_status (cr_state (sc_record (r\<lparr>sc_record := (sc_record r)\<lparr>cr_state := st\<rparr>\<rparr>))) = StRunning"
    "st_pid (cr_state (sc_record (r\<lparr>sc_record := (sc_record r)\<lparr>cr_state := st\<rparr>\<rparr>))) = pid"
    "is_paused (cr_state (sc_record (r\<lparr>sc_record := (sc_record r)\<lparr>cr_state := st\<rparr>\<rparr>))) = paused"
    by (auto simp: record_ok_def intro!: record_step_state state_step_pause [OF b])
qed simp

lemma runs_complete_freezer:
  "runs (complete_freezer i status pid paused a) (record_completed i (freezer_kind a) (\<lambda>_. {freezer_event a})
     (\<lambda>rec. st_status (cr_state rec) = StRunning \<and> st_pid (cr_state rec) = pid
           \<and> is_paused (cr_state rec) = desired a) s) s"
  unfolding complete_freezer_def
proof (rule runs_bind, rule runs_reject, rule runs_bind, rule runs_reject, rule runs_complete_record,
    rule runs_bind, goal_cases)
  case (1 oper r)
  then show ?case
    by (intro runs_commit_freezer_state [of _ "so_container_id oper"] runs_completion
        publishes_append_freezer_event [of "ext s" "disk s" i]) simp_all
qed

section \<open>Update\<close>

lemma runs_reconcile_succeeded_update:
  assumes op: "map_of (operations (disk s)) i = Some oper" "op_ok (ext s) (disk s) i oper"
    "so_kind oper = KUpdate" "so_container_id oper = c" "so_outcome oper = Succeeded response"
  shows "runs (reconcile_succeeded_update oper response) (record_prepared i KUpdate c) s"
  unfolding reconcile_succeeded_update_def
  by (rule runs_replay_record [OF op(1,3-5)], unfold rebind_succeeded_update_def Let_def,
      intro runs_rules record_replayed [OF op(1,3-5)] runs_rebind_response [OF op(1,2,5)])
    (auto simp: op record_prepared_def)

lemma runs_prepare_update:
  assumes ids: "valid_id (oc_operation_id (uq_context request))" "valid_id (ct_id (uq_target request))"
  shows "runs (prepare_update request)
     (record_prepared (oc_operation_id (uq_context request)) KUpdate (ct_id (uq_target request))) s"
  unfolding prepare_update_def
proof (rule runs_bind, rule runs_external, rule runs_bind, rule runs_external, rule runs_prepare_record [OF ids])
  fix digest oper
  assume op: "map_of (operations (disk s)) (oc_operation_id (uq_context request)) = Some oper"
    "op_ok (ext s) (disk s) (oc_operation_id (uq_context request)) oper"
  show "runs (retry_update request digest oper)
     (record_prepared (oc_operation_id (uq_context request)) KUpdate (ct_id (uq_target request))) s"
    unfolding retry_update_def
    by (rule runs_retry_record) (use op in \<open>auto intro: runs_resume runs_reconcile_succeeded_update\<close>)
qed (simp_all add: is_creation_def)

lemma runs_complete_update:
  "runs (complete_update i status pid paused) (record_completed i KUpdate (\<lambda>_. {ResourcesUpdated})
     (\<lambda>rec. st_status (cr_state rec) = status \<and> st_pid (cr_state rec) = pid
           \<and> is_paused (cr_state rec) = paused) s) s"
  unfolding complete_update_def
proof (rule runs_bind, rule runs_reject, rule runs_complete_record, rule runs_bind, rule runs_reject, goal_cases)
  case (1 oper r)
  then have "valid_id i" by (simp add: op_ok_def)
  with 1 show ?case
    by (intro runs_completion [OF _ _ _ _ _ _ 1(6,7)] record_step_refl [OF 1(7)] publishes_operation_event)
      (simp_all add: EV_RESOURCES_UPDATED_def)
qed

end
