(* ===== verification/Observe.thy ===== *)
theory Observe
  imports Lifecycle_Store Process_Contracts
begin

text \<open>
  Reconciling the durable record with what the driver reports (\<open>state/observe.rs\<close>, with the driver state
  values of \<open>driver.rs\<close>), and the listing of live containers (\<open>state/list.rs\<close>).
\<close>

section \<open>Driver states\<close>

record DriverState =
  ds_status :: ContainerState
  ds_pid :: "int option"
  ds_paused :: bool

datatype RecreatedProcess = RecreatedNone | RecreatedCreated | RecreatedRunning | RecreatedRunningPaused

definition op_construct_driver_state :: string where "op_construct_driver_state = ''construct-driver-state''"

definition driver_with_process :: "ContainerState \<Rightarrow> int \<Rightarrow> error + DriverState" where
  "driver_with_process status pid =
     (if pid \<le> 0 then Inl (for_operation op_construct_driver_state (error_new InvalidArgument))
      else Inr \<lparr>ds_status = status, ds_pid = Some pid, ds_paused = False\<rparr>)"

definition driver_created :: "int \<Rightarrow> error + DriverState" where
  "driver_created pid = driver_with_process StCreated pid"

definition driver_running :: "int \<Rightarrow> error + DriverState" where
  "driver_running pid = driver_with_process StRunning pid"

definition driver_stopped :: DriverState where
  "driver_stopped = \<lparr>ds_status = StStopped, ds_pid = None, ds_paused = False\<rparr>"

definition driver_with_paused :: "bool \<Rightarrow> DriverState \<Rightarrow> error + DriverState" where
  "driver_with_paused paused state =
     (if paused \<and> ds_status state \<noteq> StRunning
      then Inl (for_operation op_construct_driver_state (error_new InvalidArgument))
      else Inr (state\<lparr>ds_paused := paused\<rparr>))"

section \<open>Observation\<close>

definition op_observe_state :: string where "op_observe_state = ''observe-state''"
definition op_observe_recreated_created_process :: string where
  "op_observe_recreated_created_process = ''observe-recreated-created-process''"
definition op_observe_recreated_running_process :: string where
  "op_observe_recreated_running_process = ''observe-recreated-running-process''"
definition op_observe_recreated_paused_running_process :: string where
  "op_observe_recreated_paused_running_process = ''observe-recreated-paused-running-process''"

definition validate_observation :: "ContainerState \<Rightarrow> int option \<Rightarrow> bool \<Rightarrow> error + unit" where
  "validate_observation status pid paused =
     r_reject (\<not> (case (status, pid, paused) of
                      (StCreated, Some p, False) \<Rightarrow> p > 0
                    | (StRunning, Some p, _) \<Rightarrow> p > 0
                    | (StStopped, None, False) \<Rightarrow> True
                    | _ \<Rightarrow> False)) (state_error InvalidArgument op_observe_state)"

fun observation_completes :: "StoredOperationKind \<Rightarrow> ContainerState \<Rightarrow> bool \<Rightarrow> bool" where
  "observation_completes KStart status paused = (status \<in> {StRunning, StStopped})"
| "observation_completes KKill status paused = (status = StStopped)"
| "observation_completes KSignalProcess status paused = (status = StStopped)"
| "observation_completes KPause status paused = (status = StRunning \<and> paused)"
| "observation_completes KResume status paused = (status = StRunning \<and> \<not> paused)"
| "observation_completes _ status paused = False"

definition validate_active_operation :: "StoredContainer \<Rightarrow> StoredOperation \<Rightarrow> error + unit" where
  "validate_active_operation stored operation =
     r_reject (so_container_id operation \<noteq> sc_id stored
               \<or> so_generation operation \<noteq> cr_generation (sc_record stored)
               \<or> so_outcome operation \<noteq> Prepared) (state_error Conflict op_observe_state)"

definition load_active_operation :: "StoredContainer \<Rightarrow> StoredOperation option store_m" where
  "load_active_operation stored =
     (case sc_active_operation stored of
        Some operation_id \<Rightarrow>
          m_bind (load_operation operation_id) (\<lambda>operation.
          m_bind (m_lift (validate_active_operation stored operation)) (\<lambda>_.
            m_return (Some operation)))
      | None \<Rightarrow> m_return None)"

text \<open>When the driver recreated the init process, which durable states may adopt its new PID.\<close>

definition replacement_matches :: "RecreatedProcess \<Rightarrow> ContainerState \<Rightarrow> bool" where
  "replacement_matches recreated current \<longleftrightarrow>
     (recreated, current) \<in> {(RecreatedCreated, StCreated), (RecreatedRunning, StRunning),
                             (RecreatedRunningPaused, StRunning)}"

definition active_allows_replacement ::
  "RecreatedProcess \<Rightarrow> ContainerState \<Rightarrow> StoredOperation option \<Rightarrow> bool" where
  "active_allows_replacement recreated current active \<longleftrightarrow>
     (case active of
        None \<Rightarrow> True
      | Some operation \<Rightarrow>
          (recreated = RecreatedCreated \<and> current = StCreated \<and> so_kind operation = KStart)
          \<or> (recreated = RecreatedRunning \<and> current = StRunning
             \<and> so_kind operation \<in> {KKill, KPause, KResume, KUpdate, KFile, KFilesystem})
          \<or> (recreated = RecreatedRunningPaused \<and> current = StRunning
             \<and> so_kind operation \<in> {KPause, KResume}))"

definition freezer_matches :: "RecreatedProcess \<Rightarrow> State \<Rightarrow> bool" where
  "freezer_matches recreated state =
     (case recreated of
        RecreatedRunningPaused \<Rightarrow> is_paused state
      | RecreatedCreated \<Rightarrow> \<not> is_paused state
      | RecreatedRunning \<Rightarrow> \<not> is_paused state
      | RecreatedNone \<Rightarrow> False)"

text \<open>Replace the state document after the schema validator accepted it.\<close>

definition with_state :: "StoredContainer \<Rightarrow> State \<Rightarrow> StoredContainer" where
  "with_state stored state = stored\<lparr>sc_record := (sc_record stored)\<lparr>cr_state := state\<rparr>\<rparr>"

definition adopt_state :: "StoredContainer \<Rightarrow> error + State \<Rightarrow> StoredContainer store_m" where
  "adopt_state stored rebuilt =
     m_bind (m_lift rebuilt) (\<lambda>state.
     m_bind (external (\<lambda>x. x_validate_state x state)) (\<lambda>_.
       m_return (with_state stored state)))"

text \<open>The \<open>match\<close> on the durable and the observed status, with whether the state changed.\<close>

definition observe_same_status ::
  "StoredContainer \<Rightarrow> StoredOperation option \<Rightarrow> int option \<Rightarrow> bool \<Rightarrow> RecreatedProcess
     \<Rightarrow> (bool \<times> StoredContainer) store_m" where
  "observe_same_status stored active pid paused recreated =
     (let state = cr_state (sc_record stored); current = st_status state in
      m_bind (if st_pid state \<noteq> pid then
                if replacement_matches recreated current \<and> active_allows_replacement recreated current active
                   \<and> freezer_matches recreated state
                then m_bind (adopt_state stored (rebuild_state state current pid)) (\<lambda>stored. m_return (True, stored))
                else m_throw (state_error Conflict op_observe_state)
              else m_return (False, stored)) (\<lambda>(changed, stored).
        if is_paused (cr_state (sc_record stored)) \<noteq> paused
        then m_bind (adopt_state stored (rebuild_paused_state (cr_state (sc_record stored)) paused)) (\<lambda>stored.
               m_return (True, stored))
        else m_return (changed, stored)))"

definition observe_started :: "StoredContainer \<Rightarrow> int option \<Rightarrow> bool \<Rightarrow> (bool \<times> StoredContainer) store_m" where
  "observe_started stored pid paused =
     m_bind (m_lift (lift_transition op_observe_state Created StartCompleted)) (\<lambda>running.
     m_bind (adopt_state stored
               (r_bind (rebuild_state (cr_state (sc_record stored)) (container_state running) pid)
                  (\<lambda>state. if paused then rebuild_paused_state state True else Inr state))) (\<lambda>stored.
       m_return (True, stored)))"

definition observe_stopped :: "StoredContainer \<Rightarrow> (bool \<times> StoredContainer) store_m" where
  "observe_stopped stored =
     m_bind (m_lift (lift_transition op_observe_state
               (lifecycle_state (st_status (cr_state (sc_record stored)))) ProcessExited)) (\<lambda>lifecycle.
     m_bind (adopt_state stored (rebuild_state (cr_state (sc_record stored)) (container_state lifecycle) None))
       (\<lambda>stored. m_return (True, stored)))"

definition reconcile_observed ::
  "StoredContainer \<Rightarrow> StoredOperation option \<Rightarrow> ContainerState \<Rightarrow> int option \<Rightarrow> bool \<Rightarrow> RecreatedProcess
     \<Rightarrow> (bool \<times> StoredContainer) store_m" where
  "reconcile_observed stored active status pid paused recreated =
     (let current = st_status (cr_state (sc_record stored));
          starting = (case active of None \<Rightarrow> False | Some operation \<Rightarrow> so_kind operation = KStart) in
      if current = status \<and> status \<in> {StCreated, StRunning}
      then observe_same_status stored active pid paused recreated
      else if current = StCreated \<and> status = StRunning \<and> starting then observe_started stored pid paused
      else if current \<in> {StCreated, StRunning} \<and> status = StStopped then observe_stopped stored
      else if current = StStopped \<and> status = StStopped then m_return (False, stored)
      else m_throw (state_error Conflict op_observe_state))"

definition append_observed_event :: "StoredOperation \<Rightarrow> ContainerTarget \<Rightarrow> unit store_m" where
  "append_observed_event operation target =
     (case so_kind operation of
        KStart \<Rightarrow>
          m_bind (append_container_event EV_STARTED target ContainerStarted fmempty) (\<lambda>_. m_return ())
      | KPause \<Rightarrow>
          m_bind (append_operation_event (so_operation_id operation) ''pause'' target None ContainerPaused
                    (operation_attributes (so_operation_id operation))) (\<lambda>_. m_return ())
      | KResume \<Rightarrow>
          m_bind (append_operation_event (so_operation_id operation) ''resume'' target None ContainerResumed
                    (operation_attributes (so_operation_id operation))) (\<lambda>_. m_return ())
      | _ \<Rightarrow> m_return ())"

fun observed_outcome :: "StoredOperationKind \<Rightarrow> ContainerRecord \<Rightarrow> error + StoredOperationStatus" where
  "observed_outcome KSignalProcess record = Inr SucceededEmpty"
| "observed_outcome KStart record = Inr (Succeeded record)"
| "observed_outcome KKill record = Inr (Succeeded record)"
| "observed_outcome KPause record = Inr (Succeeded record)"
| "observed_outcome KResume record = Inr (Succeeded record)"
| "observed_outcome _ record = Inl (state_error Internal op_observe_state)"

text \<open>The publication of an observation: the record first, then its events, then the completed operation.\<close>

definition commit_observation ::
  "ContainerId \<Rightarrow> StoredOperation option \<Rightarrow> bool \<Rightarrow> bool \<Rightarrow> bool \<Rightarrow> StoredContainer \<Rightarrow> ContainerRecord store_m" where
  "commit_observation i active completes_active state_changed stopped_now stored =
     (let stored = (if completes_active then stored\<lparr>sc_active_operation := None\<rparr> else stored);
          exact_target = target_exact (sc_id stored) (cr_generation (sc_record stored)) in
      m_bind (if state_changed \<or> completes_active then write_container ObserveContainer i stored
              else m_return ()) (\<lambda>_.
      m_bind (case active of
                Some operation \<Rightarrow>
                  if completes_active then append_observed_event operation exact_target else m_return ()
              | None \<Rightarrow> m_return ()) (\<lambda>_.
      m_bind (append_stopped_if stopped_now exact_target) (\<lambda>_.
      m_bind (case active of
                Some operation \<Rightarrow>
                  if completes_active then
                    m_bind (m_lift (observed_outcome (so_kind operation) (sc_record stored))) (\<lambda>outcome.
                      write_operation CompleteObservedOperation (operation\<lparr>so_outcome := outcome\<rparr>))
                  else m_return ()
              | None \<Rightarrow> m_return ()) (\<lambda>_.
        m_return (sc_record stored))))))"

definition observe_state_inner ::
  "ContainerTarget \<Rightarrow> ContainerState \<Rightarrow> int option \<Rightarrow> bool \<Rightarrow> RecreatedProcess \<Rightarrow> ContainerRecord store_m" where
  "observe_state_inner target status pid paused recreated =
     m_bind (m_lift (validate_observation status pid paused)) (\<lambda>_.
     m_bind (load_stored_container (ct_id target)) (\<lambda>stored.
     m_bind (m_lift (validate_requested_generation stored target op_observe_state)) (\<lambda>_.
     m_bind (load_active_operation stored) (\<lambda>active.
     m_bind (m_reject (recreated = RecreatedRunning \<and> st_status (cr_state (sc_record stored)) = StRunning
                       \<and> is_paused (cr_state (sc_record stored)))
               (state_error Conflict op_observe_recreated_running_process)) (\<lambda>_.
     m_bind (m_reject (recreated = RecreatedRunningPaused
                       \<and> (st_status (cr_state (sc_record stored)) \<noteq> StRunning
                          \<or> \<not> is_paused (cr_state (sc_record stored))))
               (state_error Conflict op_observe_recreated_paused_running_process)) (\<lambda>_.
     m_bind (reconcile_observed stored active status pid paused recreated) (\<lambda>(state_changed, observed).
       commit_observation (ct_id target) active
         (case active of None \<Rightarrow> False
          | Some operation \<Rightarrow> observation_completes (so_kind operation) status paused)
         state_changed
         (status = StStopped \<and> st_status (cr_state (sc_record stored)) \<noteq> StStopped)
         observed)))))))"

definition observe_state_with_pause ::
  "ContainerTarget \<Rightarrow> ContainerState \<Rightarrow> int option \<Rightarrow> bool \<Rightarrow> ContainerRecord store_m" where
  "observe_state_with_pause target status pid paused = observe_state_inner target status pid paused RecreatedNone"

definition observe_state :: "ContainerTarget \<Rightarrow> ContainerState \<Rightarrow> int option \<Rightarrow> ContainerRecord store_m" where
  "observe_state target status pid = observe_state_with_pause target status pid False"

definition observe_recreated_created_process :: "ContainerTarget \<Rightarrow> DriverState \<Rightarrow> ContainerRecord store_m" where
  "observe_recreated_created_process target observation =
     m_bind (m_reject (ds_status observation \<noteq> StCreated \<or> ds_paused observation)
               (state_error InvalidArgument op_observe_recreated_created_process)) (\<lambda>_.
       observe_state_inner target (ds_status observation) (ds_pid observation) (ds_paused observation)
         RecreatedCreated)"

definition observe_recreated_running_process :: "ContainerTarget \<Rightarrow> DriverState \<Rightarrow> ContainerRecord store_m" where
  "observe_recreated_running_process target observation =
     m_bind (m_reject (ds_status observation \<noteq> StRunning \<or> ds_paused observation)
               (state_error InvalidArgument op_observe_recreated_running_process)) (\<lambda>_.
       observe_state_inner target (ds_status observation) (ds_pid observation) (ds_paused observation)
         RecreatedRunning)"

definition observe_recreated_paused_running_process ::
  "ContainerTarget \<Rightarrow> DriverState \<Rightarrow> ContainerRecord store_m" where
  "observe_recreated_paused_running_process target observation =
     m_bind (m_reject (ds_status observation \<noteq> StRunning \<or> \<not> ds_paused observation)
               (state_error InvalidArgument op_observe_recreated_paused_running_process)) (\<lambda>_.
       observe_state_inner target (ds_status observation) (ds_pid observation) (ds_paused observation)
         RecreatedRunningPaused)"

section \<open>Listing\<close>

record ListRequest =
  lr_isolation :: "IsolationClass option"

definition op_list_container_state :: string where "op_list_container_state = ''list-container-state''"

definition container_entries :: "disk \<Rightarrow> string list" where
  "container_entries d =
     concat (map (\<lambda>(k, _). case k of Live i \<Rightarrow> [i] | Quarantined t \<Rightarrow> []) (directories d))"

definition list_entry :: "ListRequest \<Rightarrow> string \<Rightarrow> ContainerRecord list \<Rightarrow> ContainerRecord list store_m" where
  "list_entry request name records =
     m_bind (m_lift (map_err (\<lambda>_. state_error FailedPrecondition op_list_container_state)
               (validate_identifier name))) (\<lambda>i.
     m_bind (load_stored_container i) (\<lambda>stored.
       m_return (if (case lr_isolation request of
                       None \<Rightarrow> True
                     | Some isolation \<Rightarrow> cr_isolation (sc_record stored) = isolation)
                 then records @ [sc_record stored] else records)))"

definition list_containers :: "ListRequest \<Rightarrow> ContainerRecord list store_m" where
  "list_containers request =
     m_bind (on_disk container_entries) (\<lambda>entries.
     m_bind (m_fold entries (list_entry request) []) (\<lambda>records.
       m_return (sort_key (\<lambda>r. st_id (cr_state r)) records)))"

section \<open>Contract of an observation\<close>

lemma runs_adopt_state [runs_rules]:
  "(\<And>st. rebuilt = Inr st \<Longrightarrow> P (with_state r st) s) \<Longrightarrow> runs (adopt_state r rebuilt) P s"
  unfolding adopt_state_def by (intro runs_rules) auto

lemma with_state_sel [simp]:
  "sc_id (with_state r st) = sc_id r" "sc_active_operation (with_state r st) = sc_active_operation r"
  "sc_init_io_operations (with_state r st) = sc_init_io_operations r" "cr_state (sc_record (with_state r st)) = st"
  "generation_of (with_state r st) = generation_of r" "with_state (with_state r st) st' = with_state r st'"
  by (simp_all add: with_state_def)

lemma record_step_with_state: "state_step (cr_state (sc_record r)) st \<Longrightarrow> record_step r (with_state r st)"
  unfolding with_state_def by (rule record_step_state)

lemma record_step_identity:
  assumes "record_step r r'"
  shows "sc_id r' = sc_id r" "generation_of r' = generation_of r"
proof -
  have "sc_record r' = (sc_record r)\<lparr>cr_state := cr_state (sc_record r')\<rparr>" using assms by (simp add: record_step_def)
  then show "generation_of r' = generation_of r" by (rule ssubst) simp
qed (use assms in \<open>simp add: record_step_def\<close>)

text \<open>The reconciled record agrees with the driver and is one lawful step from the durable one.\<close>

definition agrees :: "State \<Rightarrow> ContainerState \<Rightarrow> int option \<Rightarrow> bool \<Rightarrow> bool" where
  "agrees st status pid paused \<longleftrightarrow> st_status st = status \<and> st_pid st = pid \<and> is_paused st = paused"

lemma validate_observationD:
  assumes "validate_observation status pid paused = Inr u"
  shows "status \<noteq> StCreating" "status \<in> {StCreated, StRunning} \<Longrightarrow> \<exists>p > 0. pid = Some p"
    "status = StStopped \<Longrightarrow> pid = None" "status \<noteq> StRunning \<Longrightarrow> \<not> paused"
  using assms by (cases status; cases pid; cases paused; auto simp: validate_observation_def split: if_splits)+

lemma state_step_trans_pause:
  assumes "state_step a b" "rebuild_paused_state b p = Inr c"
  shows "state_step a c"
  using assms rebuild_paused_state_sel [OF assms(2)] by (auto simp: state_step_def state_ok_def)

lemma runs_reconcile_observed:
  assumes r: "record_ok (disk s) c r" and v: "validate_observation status pid paused = Inr u"
    and P: "\<And>b st. state_step (cr_state (sc_record r)) st \<Longrightarrow> agrees st status pid paused \<Longrightarrow>
       (\<not> b \<longrightarrow> with_state r st = r) \<Longrightarrow> P (b, with_state r st) s"
  shows "runs (reconcile_observed r active status pid paused recreated) P s"
proof -
  let ?st = "cr_state (sc_record r)"
  have ok: "state_ok ?st" using r by (simp add: record_ok_def)
  have id: "with_state r ?st = r" by (simp add: with_state_def)
  have refl: "state_step ?st ?st" using ok by (simp add: state_step_def lifecycle_step_def)
  note v = validate_observationD [OF v]
  have same: "state_step ?st st \<and> st_status st = status \<and> st_pid st = pid \<and> is_paused st = is_paused ?st"
    if "st_status ?st = status" "status \<in> {StCreated, StRunning}" "rebuild_state ?st status pid = Inr st" for st
    using that v ok rebuild_state_sel [OF that(3)] paused_rebuild_state [OF that(3)]
    by (auto intro!: state_step_rebuild [OF that(3)] simp: lifecycle_step_def)
  have start: "state_step ?st st \<and> st_status st = StRunning \<and> st_pid st = pid \<and> \<not> is_paused st"
    if "st_status ?st = StCreated" "status = StRunning" "rebuild_state ?st StRunning pid = Inr st" for st
    using that v ok rebuild_state_sel [OF that(3)] paused_rebuild_state [OF that(3)]
      lifecycle_stepI [of StCreated StartCompleted StRunning]
    by (auto intro!: state_step_rebuild [OF that(3)] simp: state_ok_def)
  have stop: "state_step ?st st \<and> agrees st StStopped None False"
    if "st_status ?st \<in> {StCreated, StRunning}" "rebuild_state ?st StStopped None = Inr st" for st
    using that ok rebuild_state_sel [OF that(2)] paused_rebuild_state [OF that(2)]
      lifecycle_stepI [of StCreated ProcessExited StStopped] lifecycle_stepI [of StRunning ProcessExited StStopped]
    by (auto intro!: state_step_rebuild [OF that(2)] simp: agrees_def)
  have pause: "P (True, with_state r st') s"
    if "state_step ?st st" "st_status st = status" "st_pid st = pid" "rebuild_paused_state st paused = Inr st'" for st st'
    using that rebuild_paused_state_sel [OF that(4)] paused_rebuild_paused_state [OF that(4)]
    by (intro P state_step_trans_pause [OF that(1,4)]) (auto simp: agrees_def)
  have sm: "runs (observe_same_status r active pid paused recreated) P s"
    if c: "st_status ?st = status" "status \<in> {StCreated, StRunning}"
    unfolding observe_same_status_def Let_def
    apply (intro runs_rules)
       apply (simp_all add: c(1))
    subgoal for st st' using pause same [OF c] by blast
    subgoal for st using same [OF c] by (intro P) (auto simp: agrees_def)
    subgoal for st' using pause refl c by (metis with_state_sel(6) id)
    subgoal using P [of ?st False] refl c by (simp add: id agrees_def)
    done
  have st: "runs (observe_started r pid paused) P s" if c: "st_status ?st = StCreated" "status = StRunning"
    unfolding observe_started_def
  proof (intro runs_rules, goal_cases)
    case (1 running st)
    then obtain st1 where b: "rebuild_state ?st StRunning pid = Inr st1"
      and st1: "(if paused then rebuild_paused_state st1 True else Inr st1) = Inr st"
      by (auto simp: lift_transition_def r_bind_Inr_iff)
    note s1 = start [OF c b]
    show ?case
    proof (cases paused)
      case True
      with st1 s1 c show ?thesis by (intro pause [of st1]) simp_all
    next
      case False
      with st1 s1 c show ?thesis by (intro P) (auto simp: agrees_def)
    qed
  qed
  have sp: "runs (observe_stopped r) P s" if c: "st_status ?st \<in> {StCreated, StRunning}" "status = StStopped"
    unfolding observe_stopped_def
  proof (intro runs_rules, goal_cases)
    case (1 lifecycle st)
    then have "container_state lifecycle = StStopped" using c(1) by (auto simp: lift_transition_def)
    with 1 stop [OF c(1)] c v show ?case by (intro P) auto
  qed
  have "P (False, r) s" if "st_status ?st = StStopped" "status = StStopped"
    using P [of ?st False] refl that ok v by (simp add: id agrees_def state_ok_def)
  then show ?thesis
    unfolding reconcile_observed_def Let_def by (auto intro!: runs_if sm st sp runs_return runs_throw)
qed

fun observed_kinds :: "StoredOperationKind \<Rightarrow> RuntimeEventKind set" where
  "observed_kinds KStart = {ContainerStarted}"
| "observed_kinds KPause = {ContainerPaused}"
| "observed_kinds KResume = {ContainerResumed}"
| "observed_kinds _ = {}"

lemma publishes_bind_return: "publishes m target ks \<Longrightarrow> publishes (m_bind m (\<lambda>_. m_return ())) target ks"
  using publishes_bind [OF _ publishes_return] by fastforce

lemma publishes_append_observed_event:
  "valid_id (so_operation_id oper) \<Longrightarrow> publishes (append_observed_event oper target) target (observed_kinds (so_kind oper))"
  unfolding append_observed_event_def
  by (cases "so_kind oper")
    (auto intro!: publishes_bind_return publishes_container_event publishes_operation_event publishes_return)

text \<open>Settling the operation that held the active slot of the record.\<close>

lemma unclaimed_active:
  assumes inv: "store_inv x d" and op: "map_of (operations d) i = Some oper" "active_claim oper"
      "\<not> is_process_io_kind (so_kind oper)"
    and r: "live_record d (so_container_id oper) = Some r" "sc_active_operation r = None"
  shows "unclaimed d i"
proof (cases "so_process_id oper")
  case None
  then show ?thesis using unclaimed_container [OF inv op(1)] r by simp
next
  case (Some p)
  have "container_claims d r" using record_okI [OF inv r(1)] by (simp add: record_ok_def)
  then have "i \<notin> sc_init_io_operations r"
    using op by (auto simp: container_claims_def claims_op_def init_io_claim_def)
  then show ?thesis
    using Some op(2) r by (intro unclaimed_init [OF inv op(1) Some]) (auto simp: active_claim_def)
qed

lemma observation_completes_kind:
  assumes "observation_completes k status paused"
  shows "\<not> is_extension_kind k" "\<not> is_process_io_kind k" "\<not> is_creation k"
    "observed_outcome k rec = Inr (if k = KSignalProcess then SucceededEmpty else Succeeded rec)"
  using assms by (cases k; simp add: is_process_io_kind_def is_creation_def)+

definition operation_observed ::
  "OperationId \<Rightarrow> StoredOperation \<Rightarrow> bool \<Rightarrow> ContainerRecord \<Rightarrow> StoredContainer \<Rightarrow> disk \<Rightarrow> bool" where
  "operation_observed i oper completes rec r' d' \<longleftrightarrow>
     (if completes
      then sc_active_operation r' = None
        \<and> settled d' i (so_kind oper) (so_container_id oper)
            (if so_kind oper = KSignalProcess then SucceededEmpty else Succeeded rec)
        \<and> (\<forall>k \<in> observed_kinds (so_kind oper).
              published d' (target_exact (so_container_id oper) (so_generation oper)) k)
      else sc_active_operation r' = Some i)"

text \<open>After an observation the durable record agrees with the driver, an operation it completed is
  settled and published, any other keeps its claim, and a container that stopped has published so.\<close>

definition state_observed ::
  "ContainerId \<Rightarrow> ContainerState \<Rightarrow> int option \<Rightarrow> bool \<Rightarrow> DurableStateStore \<Rightarrow> ContainerRecord \<Rightarrow> DurableStateStore \<Rightarrow> bool" where
  "state_observed c status pid paused s rec s' \<longleftrightarrow>
     (\<exists>r r'. live_record (disk s) c = Some r \<and> live_record (disk s') c = Some r' \<and> sc_record r' = rec
        \<and> record_step r r' \<and> agrees (cr_state rec) status pid paused
        \<and> (\<forall>i. sc_active_operation r = Some i \<longrightarrow>
             (\<exists>oper. map_of (operations (disk s)) i = Some oper
                \<and> operation_observed i oper (observation_completes (so_kind oper) status paused) rec r' (disk s')))
        \<and> (status = StStopped \<and> status_of r \<noteq> StStopped \<longrightarrow>
             published (disk s') (target_exact c (cr_generation rec)) ContainerStopped))"

lemma runs_load_active_operation:
  assumes "sc_active_operation r = None \<Longrightarrow> P None s"
    and "\<And>i oper. sc_active_operation r = Some i \<Longrightarrow> map_of (operations (disk s)) i = Some oper \<Longrightarrow>
       op_ok (ext s) (disk s) i oper \<Longrightarrow> so_container_id oper = sc_id r \<Longrightarrow> so_generation oper = generation_of r \<Longrightarrow>
       so_outcome oper = Prepared \<Longrightarrow> P (Some oper) s"
  shows "runs (load_active_operation r) P s"
  unfolding load_active_operation_def
  by (intro runs_rules) (use assms in \<open>auto simp: validate_active_operation_def split: if_splits\<close>)

lemma runs_write_observed:
  assumes r: "live_record (disk s) c = Some r" "record_ok (disk s) c r"
    and r': "record_step r r'" "sc_init_io_operations r' = sc_init_io_operations r"
      "sc_active_operation r' \<in> {None, sc_active_operation r}" "\<not> b \<longrightarrow> r' = r"
    and P: "\<And>s'. same_env s s' \<Longrightarrow> live_record (disk s') c = Some r' \<Longrightarrow> operations (disk s') = operations (disk s) \<Longrightarrow>
       last_generation (disk s') = last_generation (disk s) \<Longrightarrow> P () s'"
  shows "runs (if b then write_container m c r' else m_return ()) P s"
proof (rule runs_if)
  note id = record_step_identity [OF r'(1)]
  have cl: "container_claims (disk s) r'"
    using r(2) r'(2,3) id by (auto simp: record_ok_def intro: container_claims_mono)
  show "runs (write_container m c r') P s"
    by (rule runs_update_record [OF r(1) r'(1) cl]) (auto intro!: P simp: record_writtenD)
  assume "\<not> b"
  then show "runs (m_return ()) P s" using r r' by (intro runs_return P) (auto simp: same_env_def)
qed

lemma runs_settle_observed:
  assumes op: "map_of (operations (disk s)) i = Some oper" "op_ok (ext s) (disk s) i oper" "so_outcome oper = Prepared"
      "active_claim oper" "observation_completes (so_kind oper) status paused"
    and r: "live_record (disk s) (so_container_id oper) = Some r" "sc_active_operation r = None"
    and P: "\<And>s'. settled (disk s') i (so_kind oper) (so_container_id oper)
           (if so_kind oper = KSignalProcess then SucceededEmpty else Succeeded rec) \<Longrightarrow>
         live_record (disk s') = live_record (disk s) \<Longrightarrow> published (disk s') = published (disk s) \<Longrightarrow> P () s'"
  shows "runs (m_bind (m_lift (observed_outcome (so_kind oper) rec)) (\<lambda>outcome.
       write_operation CompleteObservedOperation (oper\<lparr>so_outcome := outcome\<rparr>))) P s"
proof -
  note k = observation_completes_kind [OF op(5)]
  let ?out = "if so_kind oper = KSignalProcess then SucceededEmpty else Succeeded rec"
  have "runs (write_operation CompleteObservedOperation (oper\<lparr>so_outcome := ?out\<rparr>)) P s"
  proof (rule runs_settle [OF op(1-3)])
    show "validate_stored_operation_shape (ext s) (oper\<lparr>so_outcome := ?out\<rparr>) = Inr ()"
      by (rule shape_lifecycle [OF op(2) k(1)]) (simp add: is_extension_outcome_def)
    show "unclaimed (disk s) i \<or> is_creation (so_kind oper) \<and> is_failed ?out" if "store_inv (ext s) (disk s)"
      using unclaimed_active [OF that op(1,4) k(2) r] by simp
    fix s' :: DurableStateStore
    assume "disk s' = (disk s)\<lparr>operations := put i (oper\<lparr>so_outcome := ?out\<rparr>) (operations (disk s))\<rparr>"
    then show "P () s'" using settled_put by (intro P) simp_all
  qed simp
  then show ?thesis by (intro runs_bind [OF runs_lift]) (auto simp: k(4))
qed

lemma runs_commit_observation:
  assumes r: "live_record (disk s) c = Some r" "record_ok (disk s) c r"
    and st: "state_step (cr_state (sc_record r)) st" "agrees st status pid paused" "\<not> b \<longrightarrow> with_state r st = r"
    and op: "\<And>i. sc_active_operation r = Some i \<Longrightarrow> \<exists>oper. active = Some oper
        \<and> map_of (operations (disk s)) i = Some oper \<and> op_ok (ext s) (disk s) i oper
        \<and> so_container_id oper = c \<and> so_generation oper = generation_of r \<and> so_outcome oper = Prepared"
      "sc_active_operation r = None \<Longrightarrow> active = None"
  shows "runs (commit_observation c active
         (case active of None \<Rightarrow> False | Some operation \<Rightarrow> observation_completes (so_kind operation) status paused)
         b (status = StStopped \<and> status_of r \<noteq> StStopped) (with_state r st)) (state_observed c status pid paused s) s"
proof -
  define completes where "completes =
    (case active of None \<Rightarrow> False | Some operation \<Rightarrow> observation_completes (so_kind operation) status paused)"
  define r' where "r' = (if completes then (with_state r st)\<lparr>sc_active_operation := None\<rparr> else with_state r st)"
  have id: "sc_id r = c" using r(2) by (simp add: record_ok_def)
  have r'_sel: "record_step r r'" "sc_init_io_operations r' = sc_init_io_operations r" "sc_id r' = c"
    "generation_of r' = generation_of r" "cr_state (sc_record r') = st"
    "sc_active_operation r' = (if completes then None else sc_active_operation r)"
    using record_step_with_state [OF st(1)] record_step_trans_claims [OF record_step_with_state [OF st(1)]] id
    by (simp_all add: r'_def)
  let ?t = "target_exact c (generation_of r)" and ?stopped = "status = StStopped \<and> status_of r \<noteq> StStopped"
  let ?kinds = "case active of None \<Rightarrow> {} | Some operation \<Rightarrow> if completes then observed_kinds (so_kind operation) else {}"
  have ev: "publishes (case active of Some operation \<Rightarrow>
        if completes then append_observed_event operation ?t else m_return () | None \<Rightarrow> m_return ()) ?t ?kinds"
    using op by (cases "sc_active_operation r")
      (auto simp: op_ok_def intro!: publishes_append_observed_event publishes_return)
  have fin: "state_observed c status pid paused s (sc_record r') s'"
    if s': "live_record (disk s') c = Some r'" "?stopped \<Longrightarrow> published (disk s') ?t ContainerStopped"
      "\<And>k. k \<in> ?kinds \<Longrightarrow> published (disk s') ?t k"
      "\<And>i oper. active = Some oper \<Longrightarrow> map_of (operations (disk s)) i = Some oper \<Longrightarrow>
         sc_active_operation r = Some i \<Longrightarrow> completes \<Longrightarrow>
         settled (disk s') i (so_kind oper) (so_container_id oper)
            (if so_kind oper = KSignalProcess then SucceededEmpty else Succeeded (sc_record r'))" for s' :: DurableStateStore
  proof -
    have "\<exists>oper. map_of (operations (disk s)) i = Some oper
        \<and> operation_observed i oper (observation_completes (so_kind oper) status paused) (sc_record r') r' (disk s')"
      if i: "sc_active_operation r = Some i" for i
    proof -
      obtain oper where o: "active = Some oper" "map_of (operations (disk s)) i = Some oper"
        "so_container_id oper = c" "so_generation oper = generation_of r" using op(1) [OF i] by blast
      have "operation_observed i oper completes (sc_record r') r' (disk s')"
        using s'(3) s'(4) [OF o(1,2) i] r'_sel(6) i o by (cases completes) (simp_all add: operation_observed_def)
      with o show ?thesis by (auto simp: completes_def)
    qed
    then show ?thesis
      unfolding state_observed_def using r(1) s'(1,2) r'_sel st(2) by auto
  qed
  have tail: "runs (m_bind (case active of
                Some operation \<Rightarrow>
                  if completes then
                    m_bind (m_lift (observed_outcome (so_kind operation) (sc_record r'))) (\<lambda>outcome.
                      write_operation CompleteObservedOperation (operation\<lparr>so_outcome := outcome\<rparr>))
                  else m_return ()
              | None \<Rightarrow> m_return ()) (\<lambda>_. m_return (sc_record r'))) (state_observed c status pid paused s) s3"
    if s3: "same_env s s3" "live_record (disk s3) c = Some r'" "operations (disk s3) = operations (disk s)"
      "last_generation (disk s3) = last_generation (disk s)" "?stopped \<Longrightarrow> published (disk s3) ?t ContainerStopped"
      "\<And>k. k \<in> ?kinds \<Longrightarrow> published (disk s3) ?t k" for s3
  proof (cases "completes")
    case False
    then show ?thesis using s3
      by (auto intro!: runs_bind [OF runs_return] runs_return fin split: option.split)
  next
    case True
    then obtain oper i where a: "active = Some oper" "sc_active_operation r = Some i"
      using op by (cases "sc_active_operation r") (auto simp: completes_def)
    then have o: "map_of (operations (disk s3)) i = Some oper" "op_ok (ext s) (disk s) i oper"
      "so_container_id oper = c" "so_outcome oper = Prepared" "observation_completes (so_kind oper) status paused"
      using op(1) [OF a(2)] s3(3) True by (auto simp: completes_def)
    have "container_claims (disk s) r" using r(2) by (simp add: record_ok_def)
    then have cl: "active_claim oper" using a(2) o(1) s3(3) by (auto simp: container_claims_def claims_op_def)
    have ok: "op_ok (ext s3) (disk s3) i oper" using op_ok_frame [OF o(2) s3(4)] s3(1) by (simp add: same_env_def)
    have "runs (m_bind (m_lift (observed_outcome (so_kind oper) (sc_record r'))) (\<lambda>outcome.
          write_operation CompleteObservedOperation (oper\<lparr>so_outcome := outcome\<rparr>)))
        (\<lambda>_. runs (m_return (sc_record r')) (state_observed c status pid paused s)) s3"
    proof (rule runs_settle_observed [OF o(1) ok o(4) cl o(5), where r = r'])
      fix s' :: DurableStateStore
      assume s': "settled (disk s') i (so_kind oper) (so_container_id oper)
           (if so_kind oper = KSignalProcess then SucceededEmpty else Succeeded (sc_record r'))"
        "live_record (disk s') = live_record (disk s3)" "published (disk s') = published (disk s3)"
      show "runs (m_return (sc_record r')) (state_observed c status pid paused s) s'"
        by (rule runs_return, rule fin) (use s' s3 a in \<open>simp_all split: if_splits\<close>)
    qed (use s3(2) o(3) r'_sel(6) True in simp_all)
    from runs_bind [OF this] show ?thesis using True a by simp
  qed
  show ?thesis
    unfolding commit_observation_def Let_def completes_def [symmetric] r'_def [symmetric] r'_sel(3,4)
    apply (rule runs_bind, rule runs_write_observed [OF r r'_sel(1,2)])
    subgoal by (simp add: r'_sel)
    subgoal using st(3) by (auto simp: r'_def)
    apply (rule runs_bind, rule runs_publishes [OF ev], rule runs_bind, rule runs_publishes [OF publishes_append_stopped_if])
    subgoal for s1 u s2 v s3
      using published_mono [OF only_journalD(7), of "disk s2" "disk s3"]
      by (intro tail) (auto simp: only_journalD intro: same_env_trans split: if_splits)
    done
qed

lemma runs_observe_state_inner:
  "runs (observe_state_inner target status pid paused recreated)
     (state_observed (ct_id target) status pid paused s) s"
  unfolding observe_state_inner_def
  apply (rule runs_bind, rule runs_lift, rule runs_bind, rule runs_load_stored_container)
  apply (rule runs_bind, rule runs_validate_requested_generation, rule runs_bind, rule runs_load_active_operation)
   apply (rule runs_bind, rule runs_reject, rule runs_bind, rule runs_reject)
   apply (rule runs_bind, rule runs_reconcile_observed, assumption, assumption)
   apply (simp only: prod.case, rule runs_commit_observation; simp)
  apply (rule runs_bind, rule runs_reject, rule runs_bind, rule runs_reject)
  apply (rule runs_bind, rule runs_reconcile_observed, assumption, assumption)
  apply (simp only: prod.case, rule runs_commit_observation)
         apply (auto simp: record_ok_def)
  done

lemma runs_observe_state:
  "runs (observe_state_with_pause target status pid paused) (state_observed (ct_id target) status pid paused s) s"
  "runs (observe_state target status pid) (state_observed (ct_id target) status pid False s) s"
  unfolding observe_state_def observe_state_with_pause_def by (rule runs_observe_state_inner)+

lemma runs_observe_recreated:
  "runs (observe_recreated_created_process target ob)
     (state_observed (ct_id target) (ds_status ob) (ds_pid ob) (ds_paused ob) s) s"
  "runs (observe_recreated_running_process target ob)
     (state_observed (ct_id target) (ds_status ob) (ds_pid ob) (ds_paused ob) s) s"
  "runs (observe_recreated_paused_running_process target ob)
     (state_observed (ct_id target) (ds_status ob) (ds_pid ob) (ds_paused ob) s) s"
  unfolding observe_recreated_created_process_def observe_recreated_running_process_def
    observe_recreated_paused_running_process_def
  by (rule runs_bind, rule runs_reject, rule runs_observe_state_inner)+

section \<open>Contract of the listing\<close>

definition wanted :: "ListRequest \<Rightarrow> ContainerRecord \<Rightarrow> bool" where
  "wanted request rec \<longleftrightarrow> (\<forall>isolation. lr_isolation request = Some isolation \<longrightarrow> cr_isolation rec = isolation)"

definition listed :: "ListRequest \<Rightarrow> disk \<Rightarrow> ContainerRecord list \<Rightarrow> bool" where
  "listed request d recs \<longleftrightarrow>
     sorted_wrt (<) (map (\<lambda>rec. st_id (cr_state rec)) recs)
     \<and> (\<forall>rec. rec \<in> set recs \<longleftrightarrow> wanted request rec \<and> (\<exists>c r. live_record d c = Some r \<and> sc_record r = rec))"

lemma list_entry_read_only [read_only_intros]: "read_only (list_entry request name recs)"
  by (auto simp: list_entry_def intro!: read_only_intros)

lemma runs_list_entry:
  assumes "\<And>r. live_record (disk s) name = Some r \<Longrightarrow> record_ok (disk s) name r \<Longrightarrow>
     P (if wanted request (sc_record r) then recs @ [sc_record r] else recs) s"
  shows "runs (list_entry request name recs) P s"
  unfolding list_entry_def
proof (rule runs_bind, rule runs_lift, rule runs_bind, rule runs_load_stored_container, rule runs_return)
  fix i r assume i: "map_err (\<lambda>_. state_error FailedPrecondition op_list_container_state) (validate_identifier name) = Inr i"
    and r: "live_record (disk s) i = Some r" "record_ok (disk s) i r"
  have "i = name" using i by (cases "validate_identifier name") (auto dest: validate_identifier_Inr)
  then show "P (if (case lr_isolation request of None \<Rightarrow> True | Some isolation \<Rightarrow> cr_isolation (sc_record r) = isolation)
               then recs @ [sc_record r] else recs) s"
    using assms r by (auto simp: wanted_def split: option.splits)
qed

lemma runs_list_entries:
  assumes "\<And>recs. (\<And>c. c \<in> set names \<Longrightarrow> \<exists>r. live_record (disk s) c = Some r \<and> record_ok (disk s) c r) \<Longrightarrow>
       recs = filter (wanted request) (map (\<lambda>c. sc_record (the (live_record (disk s) c))) names) \<Longrightarrow> P (acc @ recs) s"
  shows "runs (m_fold names (list_entry request) acc) P s"
  using assms
proof (induction names arbitrary: acc)
  case Nil
  then show ?case by (simp add: runs_return)
next
  case (Cons c names)
  show ?case
    unfolding m_fold.simps
  proof (rule runs_bind, rule runs_list_entry, rule Cons.IH)
    fix r recs
    assume r: "live_record (disk s) c = Some r" "record_ok (disk s) c r"
      and "\<And>c. c \<in> set names \<Longrightarrow> \<exists>r. live_record (disk s) c = Some r \<and> record_ok (disk s) c r"
      and "recs = filter (wanted request) (map (\<lambda>c. sc_record (the (live_record (disk s) c))) names)"
    then have "P (acc @ (if wanted request (sc_record r) then sc_record r # recs else recs)) s"
      by (intro Cons.prems) auto
    then show "P ((if wanted request (sc_record r) then acc @ [sc_record r] else acc) @ recs) s"
      by (simp split: if_splits)
  qed
qed

lemma container_entries_set: "set (container_entries d) = {c. map_of (directories d) (Live c) \<noteq> None}"
  by (force simp: container_entries_def map_of_eq_None_iff split: directory.splits)

lemma container_entries_distinct:
  assumes "distinct_keys (directories d)"
  shows "distinct (container_entries d)"
proof -
  let ?f = "\<lambda>(k, _). case k of Live i \<Rightarrow> [i] | Quarantined t \<Rightarrow> []"
  have "distinct (concat (map ?f al))" if "distinct (map fst al)" for al :: "(directory \<times> ContainerDir) list"
    using that by (induction al) (auto split: directory.splits simp: rev_image_eqI)
  then show ?thesis using assms by (simp add: container_entries_def distinct_keys_def)
qed

lemma list_containers_read_only [read_only_intros]: "read_only (list_containers request)"
proof -
  have "read_only (m_fold names (list_entry request) acc)" for names acc
    by (induction names arbitrary: acc) (auto intro!: read_only_intros)
  then show ?thesis by (auto simp: list_containers_def intro!: read_only_intros)
qed

lemma runs_list_containers: "runs (list_containers request) (\<lambda>recs s'. s' = s \<and> listed request (disk s) recs) s"
  unfolding list_containers_def
proof (rule runs_inv, rule runs_bind, rule runs_on_disk, rule runs_bind, rule runs_list_entries, rule runs_return,
    intro conjI refl)
  let ?d = "disk s" and ?f = "\<lambda>rec. st_id (cr_state rec)"
  let ?names = "container_entries ?d" and ?rec = "\<lambda>c. sc_record (the (live_record ?d c))"
  fix recs
  assume inv: "store_inv (ext s) ?d" and all: "\<And>c. c \<in> set ?names \<Longrightarrow> \<exists>r. live_record ?d c = Some r \<and> record_ok ?d c r"
    and recs: "recs = filter (wanted request) (map ?rec ?names)"
  have id: "?f (?rec c) = c" if "c \<in> set ?names" for c using all [OF that] by (auto simp: record_ok_def)
  then have "map ?f (map ?rec ?names) = ?names" by (simp add: map_idI)
  moreover have "distinct ?names"
    using inv by (intro container_entries_distinct) (simp add: store_inv_def inv_layout_def)
  ultimately have "distinct (map ?f recs)" unfolding recs by (metis distinct_map_filter)
  then have "sorted_wrt (<) (map ?f (sort_key ?f recs))"
    by (simp add: strict_sorted_iff distinct_map) 
  moreover have "rec \<in> set recs \<longleftrightarrow> wanted request rec \<and> (\<exists>c r. live_record ?d c = Some r \<and> sc_record r = rec)" for rec
  proof -
    have "c \<in> set ?names" if "live_record ?d c = Some r" for c r
      using live_record_dir [OF that] by (simp add: container_entries_set)
    then have "(\<exists>c \<in> set ?names. rec = ?rec c) \<longleftrightarrow> (\<exists>c r. live_record ?d c = Some r \<and> sc_record r = rec)"
      using all by (metis option.sel)
    then show ?thesis by (auto simp: recs)
  qed
  ultimately show "listed request ?d (sort_key ?f ([] @ recs))" by (simp add: listed_def)
qed

end
