(* ===== verification/Operation_Protocol.thy ===== *)
theory Operation_Protocol
  imports Delete_Failure Observe
begin

text \<open>
  The protocol every container operation follows.  A caller prepares the operation, runs the driver and
  completes it; in between the process may crash, other calls may run and the caller may retry.  The
  locale \<open>record_operation\<close> states what a prepare and a complete method promise; what callers rely on is
  proved once from that and holds of create, start, kill, pause, resume and update by interpretation.
\<close>

section \<open>Outcomes are final\<close>

lemma store_leD:
  assumes "store_le d d'" "map_of (operations d) i = Some oper"
  shows "\<exists>oper'. map_of (operations d') i = Some oper' \<and> op_le oper oper'"
  using assms unfolding store_le_def by blast

lemma settled_later:
  assumes "settled d i k c out" "store_le d d'"
  shows "\<exists>out'. settled d' i k c out' \<and> (out = Prepared \<or> out' = out \<or> outcome_rebinds out out')"
proof -
  obtain oper where oper: "map_of (operations d) i = Some oper" "so_kind oper = k" "so_container_id oper = c"
    "so_outcome oper = out" using assms(1) by (auto simp: settled_def)
  obtain oper' where "map_of (operations d') i = Some oper'" "op_le oper oper'"
    using store_leD [OF assms(2) oper(1)] by blast
  with oper show ?thesis by (auto simp: settled_def op_le_def)
qed

lemma settled_unique: "settled d i k c out \<Longrightarrow> settled d i k' c' out' \<Longrightarrow> k' = k \<and> c' = c \<and> out' = out"
  by (auto simp: settled_def)

lemma owns_settled: "owns d i k c rec \<Longrightarrow> settled d i k c Prepared"
  by (auto simp: owns_def settled_def)

lemma owned_target:
  assumes "owns d i k c rec" "store_le d d'" "map_of (operations d') i = Some oper"
  shows "so_container_id oper = c" "so_generation oper = cr_generation rec" "so_kind oper = k"
proof -
  obtain o1 where o1: "map_of (operations d) i = Some o1" "so_kind o1 = k" "so_container_id o1 = c"
    "so_generation o1 = cr_generation rec" using assms(1) by (auto simp: owns_def)
  then have "op_le o1 oper" using store_leD [OF assms(2) o1(1)] assms(3) by simp
  with o1 show "so_container_id oper = c" "so_generation oper = cr_generation rec" "so_kind oper = k"
    by (auto simp: op_le_def)
qed

section \<open>The interface\<close>

locale record_operation =
  fixes prepare :: "'r \<Rightarrow> RecordOperationPreparation store_m"
    and complete :: "OperationId \<Rightarrow> 'a \<Rightarrow> ContainerRecord store_m"
    and operation_of :: "'r \<Rightarrow> OperationId" and container_of :: "'r \<Rightarrow> ContainerId"
    and kind :: StoredOperationKind
    and published_by :: "ContainerRecord \<Rightarrow> RuntimeEventKind set" and effect :: "'a \<Rightarrow> ContainerRecord \<Rightarrow> bool"
  assumes prepare_contract: "valid_id (operation_of req) \<Longrightarrow> valid_id (container_of req) \<Longrightarrow>
      runs (prepare req) (record_prepared (operation_of req) kind (container_of req)) s"
    and complete_contract: "runs (complete i a) (record_completed i kind published_by (effect a) s) s"
begin

text \<open>From the first call to the completion: the answer is the durable outcome, and if nothing else
  settled the operation in between, the record carries its effect, is free again and its events are out.\<close>

lemma two_phase:
  assumes ids: "valid_id (operation_of req)" "valid_id (container_of req)" and inv: "store_inv (ext s) (disk s)"
    and prep: "prepare req s = (Inr v, s1)" "v = PreparedRecord rec \<or> v = ResumeRecord rec"
    and between: "(store_step (ext s))\<^sup>*\<^sup>* (disk s1) (disk t)" "ext t = ext s"
    and comp: "complete (operation_of req) a t = (Inr rec', t')"
  shows "owns (disk s1) (operation_of req) kind (container_of req) rec"
    "settled (disk t') (operation_of req) kind (container_of req) (Succeeded rec')"
    "settled (disk t) (operation_of req) kind (container_of req) Prepared \<Longrightarrow>
       effect a rec'
       \<and> (\<forall>k \<in> published_by rec'. published (disk t') (target_exact (container_of req) (cr_generation rec)) k)
       \<and> (\<exists>r. live_record (disk t') (container_of req) = Some r \<and> sc_record r = rec' \<and> sc_active_operation r = None)"
proof -
  note p = runsD [OF prepare_contract [OF ids] inv prep(1)]
  show own: "owns (disk s1) (operation_of req) kind (container_of req) rec"
    using p(4) prep(2) by (auto simp: record_prepared_def)
  have "store_inv (ext s) (disk s1)" using p(2,3) by (simp add: same_env_def)
  then have "store_inv (ext t) (disk t)" using store.steps_preserve [OF between(1)] between(2) by simp
  note c = runsD [OF complete_contract this comp]
  obtain oper where oper: "map_of (operations (disk t)) (operation_of req) = Some oper"
    and fin: "settled (disk t') (operation_of req) kind (so_container_id oper) (Succeeded rec')"
    and eff: "so_outcome oper = Prepared \<Longrightarrow> effect a rec'
       \<and> (\<forall>k \<in> published_by rec'. published (disk t') (target_exact (so_container_id oper) (so_generation oper)) k)
       \<and> (\<exists>r. live_record (disk t') (so_container_id oper) = Some r \<and> sc_record r = rec' \<and> sc_active_operation r = None)"
    using c(4) by (auto simp: record_completed_def)
  note o = owned_target [OF own store_steps_le [OF between(1)] oper]
  show "settled (disk t') (operation_of req) kind (container_of req) (Succeeded rec')" using fin o by simp
  assume "settled (disk t) (operation_of req) kind (container_of req) Prepared"
  then have "so_outcome oper = Prepared" using oper by (auto simp: settled_def)
  then show "effect a rec'
       \<and> (\<forall>k \<in> published_by rec'. published (disk t') (target_exact (container_of req) (cr_generation rec)) k)
       \<and> (\<exists>r. live_record (disk t') (container_of req) = Some r \<and> sc_record r = rec' \<and> sc_active_operation r = None)"
    using eff o by simp
qed

text \<open>A settled operation is never handed to the driver again: a retry replays the recorded response,
  rebound at most to a recovered process, and a recorded failure is never turned into an answer.\<close>

lemma exactly_once:
  assumes ids: "valid_id (operation_of req)" "valid_id (container_of req)" and inv: "store_inv (ext s) (disk s)"
    and old: "settled (disk s) (operation_of req) k c out" "out \<noteq> Prepared"
    and prep: "prepare req s = (Inr v, s')"
  shows "k = kind \<and> c = container_of req
    \<and> (\<exists>rec rec'. out = Succeeded rec \<and> v = ReplayedRecord rec' \<and> rebinds rec rec')"
proof -
  note p = runsD [OF prepare_contract [OF ids] inv prep]
  obtain out' where out': "settled (disk s') (operation_of req) k c out'" "out' = out \<or> outcome_rebinds out out'"
    using settled_later [OF old(1) store_steps_le [OF p(1)]] old(2) by blast
  have no: "\<not> owns (disk s') (operation_of req) kind (container_of req) rec" for rec
    using owns_settled [of "disk s'" "operation_of req" kind "container_of req" rec] settled_unique [OF out'(1)] out'(2) old(2)
    by (metis outcome_rebinds_Prepared(2))
  have "record_prepared (operation_of req) kind (container_of req) v s'" using p(4) by simp
  then obtain rec' where v: "v = ReplayedRecord rec'"
    and se: "settled (disk s') (operation_of req) kind (container_of req) (Succeeded rec')"
    using no by (cases v) (auto simp: record_prepared_def)
  have "k = kind" "c = container_of req" "out' = Succeeded rec'" using settled_unique [OF out'(1) se] by simp_all
  with out'(2) v show ?thesis by (cases out) auto
qed

end

section \<open>The operations\<close>

interpretation create: record_operation
  "\<lambda>(request, driver, inherited). prepare_create_with_inherited_descriptors request driver inherited"
  complete_create "\<lambda>(request, _, _). oc_operation_id (cq_context request)" "\<lambda>(request, _, _). cq_id request" KCreate
  "\<lambda>_. {ContainerCreated}" "\<lambda>pid rec. st_status (cr_state rec) = StCreated \<and> st_pid (cr_state rec) = Some pid"
  by unfold_locales (auto intro: runs_prepare_create runs_complete_create)

interpretation start: record_operation prepare_start "\<lambda>i (status, pid). complete_start i status pid"
  "\<lambda>request. oc_operation_id (co_context request)" "\<lambda>request. ct_id (co_target request)" KStart start_events
  "\<lambda>(status, pid) rec. st_status (cr_state rec) = status \<and> st_pid (cr_state rec) = pid"
  by unfold_locales (auto intro: runs_prepare_start runs_complete_start)

interpretation kill: record_operation prepare_kill "\<lambda>i (status, pid). complete_kill i status pid"
  "\<lambda>request. oc_operation_id (kq_context request)" "\<lambda>request. ct_id (kq_target request)" KKill
  "\<lambda>rec. if st_status (cr_state rec) = StStopped then {ContainerStopped} else {}"
  "\<lambda>(status, pid) rec. st_status (cr_state rec) = status \<and> st_pid (cr_state rec) = pid"
  by unfold_locales (auto intro: runs_prepare_kill runs_complete_kill)

interpretation freezer: record_operation "\<lambda>request. prepare_freezer request action"
  "\<lambda>i (status, pid, paused). complete_freezer i status pid paused action"
  "\<lambda>request. oc_operation_id (co_context request)" "\<lambda>request. ct_id (co_target request)" "freezer_kind action"
  "\<lambda>_. {freezer_event action}"
  "\<lambda>(status, pid, paused) rec. st_status (cr_state rec) = StRunning \<and> st_pid (cr_state rec) = pid
     \<and> is_paused (cr_state rec) = desired action" for action
  by unfold_locales (auto intro: runs_prepare_freezer runs_complete_freezer)

interpretation update: record_operation prepare_update
  "\<lambda>i (status, pid, paused). complete_update i status pid paused"
  "\<lambda>request. oc_operation_id (uq_context request)" "\<lambda>request. ct_id (uq_target request)" KUpdate "\<lambda>_. {ResourcesUpdated}"
  "\<lambda>(status, pid, paused) rec. st_status (cr_state rec) = status \<and> st_pid (cr_state rec) = pid
     \<and> is_paused (cr_state rec) = paused"
  by unfold_locales (auto intro: runs_prepare_update runs_complete_update)

end
