(* ===== verification/Store_Machine.thy ===== *)
theory Store_Machine
  imports Operation_Protocol
begin

text \<open>
  The store as a state machine.  A \<open>store_call\<close> is one call of a public method of \<open>DurableStateStore\<close>; the
  gate of the store serialises them.  Each call runs with its own clock, fault injector and left-over
  transaction files, so a sequence of calls covers crashes, restarts and retries in any order.
\<close>

section \<open>Calls\<close>

datatype store_call =
    CallPrepareCreate CreateRequest DriverKind "document option" | CallCompleteCreate OperationId int
  | CallPrepareStart StartRequest | CallCompleteStart OperationId ContainerState "int option"
  | CallPrepareKill KillRequest | CallCompleteKill OperationId ContainerState "int option"
  | CallPreparePause ContainerOperationRequest | CallCompletePause OperationId ContainerState "int option" bool
  | CallPrepareResume ContainerOperationRequest | CallCompleteResume OperationId ContainerState "int option" bool
  | CallPrepareUpdate UpdateRequest | CallCompleteUpdate OperationId ContainerState "int option" bool
  | CallPrepareDelete DeleteRequest | CallCompleteDelete OperationId
  | CallPrepareExec ExecRequest | CallCompleteExec OperationId int bool
  | CallPrepareSignalProcess SignalProcessRequest | CallCompleteSignalProcess OperationId
  | CallPrepareWaitProcess WaitProcessRequest | CallCompleteProcessWait ProcessTarget ExitStatus
  | CallPrepareWriteStdin WriteStdinRequest | CallCompleteWriteStdin OperationId
  | CallPrepareCloseStdin CloseStdinRequest | CallCompleteCloseStdin OperationId
  | CallPrepareResize ResizeRequest | CallCompleteResize OperationId
  | CallFailOperation OperationId error
  | CallObserveState ContainerTarget ContainerState "int option" bool
  | CallObserveRecreatedCreated ContainerTarget DriverState
  | CallObserveRecreatedRunning ContainerTarget DriverState
  | CallObserveRecreatedPausedRunning ContainerTarget DriverState
  | CallObserveRecreatedExec ContainerTarget "ProcessRecord list"
  | CallState ContainerTarget | CallBundle ContainerTarget | CallAttachments ContainerTarget
  | CallResolveProcess ProcessTarget string | CallList ListRequest
  | CallPollEvents "ContainerTarget option" u64 u32

primrec run_call :: "store_call \<Rightarrow> DurableStateStore \<Rightarrow> DurableStateStore" where
  "run_call (CallPrepareCreate request driver inherited) s =
     snd (prepare_create_with_inherited_descriptors request driver inherited s)"
| "run_call (CallCompleteCreate i pid) s = snd (complete_create i pid s)"
| "run_call (CallPrepareStart request) s = snd (prepare_start request s)"
| "run_call (CallCompleteStart i status pid) s = snd (complete_start i status pid s)"
| "run_call (CallPrepareKill request) s = snd (prepare_kill request s)"
| "run_call (CallCompleteKill i status pid) s = snd (complete_kill i status pid s)"
| "run_call (CallPreparePause request) s = snd (prepare_pause request s)"
| "run_call (CallCompletePause i status pid paused) s = snd (complete_pause i status pid paused s)"
| "run_call (CallPrepareResume request) s = snd (prepare_resume request s)"
| "run_call (CallCompleteResume i status pid paused) s = snd (complete_resume i status pid paused s)"
| "run_call (CallPrepareUpdate request) s = snd (prepare_update request s)"
| "run_call (CallCompleteUpdate i status pid paused) s = snd (complete_update i status pid paused s)"
| "run_call (CallPrepareDelete request) s = snd (prepare_delete request s)"
| "run_call (CallCompleteDelete i) s = snd (complete_delete i s)"
| "run_call (CallPrepareExec request) s = snd (prepare_exec request s)"
| "run_call (CallCompleteExec i pid terminal) s = snd (complete_exec i pid terminal s)"
| "run_call (CallPrepareSignalProcess request) s = snd (prepare_signal_process request s)"
| "run_call (CallCompleteSignalProcess i) s = snd (complete_signal_process i s)"
| "run_call (CallPrepareWaitProcess request) s = snd (prepare_wait_process request s)"
| "run_call (CallCompleteProcessWait target status) s = snd (complete_process_wait target status s)"
| "run_call (CallPrepareWriteStdin request) s = snd (prepare_write_stdin request s)"
| "run_call (CallCompleteWriteStdin i) s = snd (complete_write_stdin i s)"
| "run_call (CallPrepareCloseStdin request) s = snd (prepare_close_stdin request s)"
| "run_call (CallCompleteCloseStdin i) s = snd (complete_close_stdin i s)"
| "run_call (CallPrepareResize request) s = snd (prepare_resize request s)"
| "run_call (CallCompleteResize i) s = snd (complete_resize i s)"
| "run_call (CallFailOperation i e) s = snd (fail_operation i e s)"
| "run_call (CallObserveState target status pid paused) s = snd (observe_state_with_pause target status pid paused s)"
| "run_call (CallObserveRecreatedCreated target observation) s = snd (observe_recreated_created_process target observation s)"
| "run_call (CallObserveRecreatedRunning target observation) s = snd (observe_recreated_running_process target observation s)"
| "run_call (CallObserveRecreatedPausedRunning target observation) s =
     snd (observe_recreated_paused_running_process target observation s)"
| "run_call (CallObserveRecreatedExec target observed) s = snd (observe_recreated_exec_processes target observed s)"
| "run_call (CallState target) s = snd (state_request target s)"
| "run_call (CallBundle target) s = snd (bundle_request target s)"
| "run_call (CallAttachments target) s = snd (attachment_contract target s)"
| "run_call (CallResolveProcess target operation) s = snd (resolve_process_target target operation s)"
| "run_call (CallList request) s = snd (list_containers request s)"
| "run_call (CallPollEvents filt after_sequence limit) s = snd (poll_events filt after_sequence limit s)"

text \<open>Operation and container identifiers are values of validated types; only the calls that journal a
  new operation store them.\<close>

fun call_ids :: "store_call \<Rightarrow> string list" where
  "call_ids (CallPrepareCreate request _ _) = [oc_operation_id (cq_context request), cq_id request]"
| "call_ids (CallPrepareStart request) = [oc_operation_id (co_context request), ct_id (co_target request)]"
| "call_ids (CallPrepareKill request) = [oc_operation_id (kq_context request), ct_id (kq_target request)]"
| "call_ids (CallPreparePause request) = [oc_operation_id (co_context request), ct_id (co_target request)]"
| "call_ids (CallPrepareResume request) = [oc_operation_id (co_context request), ct_id (co_target request)]"
| "call_ids (CallPrepareUpdate request) = [oc_operation_id (uq_context request), ct_id (uq_target request)]"
| "call_ids (CallPrepareDelete request) = [oc_operation_id (dq_context request), ct_id (dq_target request)]"
| "call_ids (CallPrepareExec request) = [oc_operation_id (xq_context request), ct_id (xq_container request)]"
| "call_ids (CallPrepareSignalProcess request) =
     [oc_operation_id (sq_context request), ct_id (pt_container (sq_process request))]"
| "call_ids (CallPrepareWriteStdin request) =
     [oc_operation_id (wq_context request), ct_id (pt_container (wq_process request))]"
| "call_ids (CallPrepareCloseStdin request) =
     [oc_operation_id (clq_context request), ct_id (pt_container (clq_process request))]"
| "call_ids (CallPrepareResize request) =
     [oc_operation_id (rz_context request), ct_id (pt_container (rz_process request))]"
| "call_ids _ = []"

definition well_formed_call :: "store_call \<Rightarrow> bool" where
  "well_formed_call call \<longleftrightarrow> list_all valid_id (call_ids call)"

text \<open>One call, with any clock, fault injector and left-over transaction files.\<close>

inductive call_step :: "externals \<Rightarrow> disk \<Rightarrow> disk \<Rightarrow> bool" for x where
  Call: "ext s = x \<Longrightarrow> well_formed_call call \<Longrightarrow> call_step x (disk s) (disk (run_call call s))"

inductive_cases call_stepE: "call_step x d d'"

definition reachable :: "externals \<Rightarrow> disk \<Rightarrow> bool" where
  "reachable x d \<longleftrightarrow> (call_step x)\<^sup>*\<^sup>* empty_disk d"

section \<open>Every call refines the step relation\<close>

text \<open>What a call may do to the store: a sequence of steps, with the environment left alone.\<close>

definition refines :: "DurableStateStore \<Rightarrow> DurableStateStore \<Rightarrow> bool" where
  "refines s s' \<longleftrightarrow> (store_inv (ext s) (disk s) \<longrightarrow>
     (store_step (ext s))\<^sup>*\<^sup>* (disk s) (disk s') \<and> same_env s s')"

lemma refinesI: "runs m P s \<Longrightarrow> refines s (snd (m s))"
  unfolding refines_def using runsD(1,2) [of m P s] by (metis prod.collapse)

lemma refines_read_only: "read_only m \<Longrightarrow> refines s (snd (m s))"
  by (simp add: refines_def read_only_def same_env_def)

lemma runs_poll_events: "runs (poll_events filt a limit) (\<lambda>_ _. True) s"
  unfolding runs_def
  using evolves_relax [OF poll_events_evolves [where x = "ext s"] store_step.Journal] by simp

lemma reads_read_only [read_only_intros]:
  "read_only (state_request target)" "read_only (bundle_request target)" "read_only (attachment_contract target)"
  by (auto simp: state_request_def bundle_request_def attachment_contract_def intro!: read_only_intros
      split: option.split)

lemma resolve_process_target_read_only [read_only_intros]: "read_only (resolve_process_target target operation)"
  by (auto simp: resolve_process_target_def Let_def intro!: read_only_intros)

lemma prepare_wait_process_read_only [read_only_intros]: "read_only (prepare_wait_process request)"
  by (auto simp: prepare_wait_process_def Let_def intro!: read_only_intros split: option.split ContainerState.split)

lemma runs_process_io_calls:
  "valid_id (oc_operation_id (wq_context wr)) \<Longrightarrow> valid_id (ct_id (pt_container (wq_process wr))) \<Longrightarrow>
     runs (prepare_write_stdin wr) (io_prepared (oc_operation_id (wq_context wr)) KWriteStdin
       (ct_id (pt_container (wq_process wr))) (pt_process_id (wq_process wr))) s"
  "valid_id (oc_operation_id (clq_context cr)) \<Longrightarrow> valid_id (ct_id (pt_container (clq_process cr))) \<Longrightarrow>
     runs (prepare_close_stdin cr) (io_prepared (oc_operation_id (clq_context cr)) KCloseStdin
       (ct_id (pt_container (clq_process cr))) (pt_process_id (clq_process cr))) s"
  "valid_id (oc_operation_id (rz_context rr)) \<Longrightarrow> valid_id (ct_id (pt_container (rz_process rr))) \<Longrightarrow>
     runs (prepare_resize rr) (io_prepared (oc_operation_id (rz_context rr)) KResize
       (ct_id (pt_container (rz_process rr))) (pt_process_id (rz_process rr))) s"
  "runs (complete_write_stdin i) (process_completed i KWriteStdin s) s"
  "runs (complete_close_stdin i) (process_completed i KCloseStdin s) s"
  "runs (complete_resize i) (process_completed i KResize s) s"
  using runs_prepare_process_io_operation [where profile = WRITE_STDIN]
    runs_prepare_process_io_operation [where profile = CLOSE_STDIN]
    runs_prepare_process_io_operation [where profile = RESIZE]
    runs_complete_process_io_operation [where profile = WRITE_STDIN]
    runs_complete_process_io_operation [where profile = CLOSE_STDIN]
    runs_complete_process_io_operation [where profile = RESIZE]
  unfolding prepare_write_stdin_def prepare_close_stdin_def prepare_resize_def
    complete_write_stdin_def complete_close_stdin_def complete_resize_def
  by (auto simp: WRITE_STDIN_def CLOSE_STDIN_def RESIZE_def is_process_io_kind_def intro!: runs_bind [OF runs_lift] runs_bind [OF runs_external])

lemma run_call_refines:
  assumes "well_formed_call call"
  shows "refines s (run_call call s)"
proof -
  have ids: "\<And>i. i \<in> set (call_ids call) \<Longrightarrow> valid_id i"
    using assms by (auto simp: well_formed_call_def list_all_iff)
  show ?thesis
    by (cases call; simp only: run_call.simps)
      (rule refinesI [OF runs_prepare_create] refinesI [OF runs_complete_create]
        refinesI [OF runs_prepare_start] refinesI [OF runs_complete_start]
        refinesI [OF runs_prepare_kill] refinesI [OF runs_complete_kill]
        refinesI [OF runs_prepare_freezer [where a = Pause, folded prepare_pause_def]]
        refinesI [OF runs_prepare_freezer [where a = Resume, folded prepare_resume_def]]
        refinesI [OF runs_complete_freezer [where a = Pause, folded complete_pause_def]]
        refinesI [OF runs_complete_freezer [where a = Resume, folded complete_resume_def]]
        refinesI [OF runs_prepare_update] refinesI [OF runs_complete_update]
        refinesI [OF runs_prepare_delete] refinesI [OF runs_complete_delete]
        refinesI [OF runs_prepare_exec] refinesI [OF runs_complete_exec]
        refinesI [OF runs_prepare_signal_process] refinesI [OF runs_complete_signal_process]
        refines_read_only [OF prepare_wait_process_read_only] refinesI [OF runs_complete_process_wait]
        refinesI [OF runs_process_io_calls(1)] refinesI [OF runs_process_io_calls(2)] refinesI [OF runs_process_io_calls(3)]
        refinesI [OF runs_process_io_calls(4)] refinesI [OF runs_process_io_calls(5)] refinesI [OF runs_process_io_calls(6)]
        refinesI [OF runs_fail_operation] refinesI [OF runs_observe_state(1)]
        refinesI [OF runs_observe_recreated(1)] refinesI [OF runs_observe_recreated(2)] refinesI [OF runs_observe_recreated(3)]
        refinesI [OF runs_observe_recreated_exec_processes] refines_read_only [OF reads_read_only(1)]
        refines_read_only [OF reads_read_only(2)] refines_read_only [OF reads_read_only(3)]
        refines_read_only [OF resolve_process_target_read_only] refines_read_only [OF list_containers_read_only]
        refinesI [OF runs_poll_events]; simp add: ids)+
qed

section \<open>Histories\<close>

lemma call_step_refines:
  assumes "call_step x d d'" "store_inv x d"
  shows "(store_step x)\<^sup>*\<^sup>* d d'"
  using assms run_call_refines by (auto elim!: call_stepE simp: refines_def)

lemma calls_refine:
  assumes "(call_step x)\<^sup>*\<^sup>* d d'" "store_inv x d"
  shows "(store_step x)\<^sup>*\<^sup>* d d' \<and> store_inv x d'"
  using assms
proof (induction rule: rtranclp_induct)
  case (step e f)
  then have "(store_step x)\<^sup>*\<^sup>* e f" using call_step_refines by blast
  with step show ?case using store.steps_preserve [of x e f] by (meson rtranclp_trans)
qed simp

lemma store_inv_empty: "store_inv x empty_disk"
  by (simp add: store_inv_def inv_defs journal_inv_def empty_disk_def live_record_def process_table_def
      claims_ok_def claims_unique_def records_claimed_def cursor_last_def)

lemma reachable_inv: "reachable x d \<Longrightarrow> store_inv x d"
  using calls_refine store_inv_empty by (auto simp: reachable_def)

text \<open>Who holds a container or a process.\<close>

lemma container_owner:
  assumes "store_inv x d" "live_record d c = Some r" "sc_active_operation r = Some i \<or> i \<in> sc_init_io_operations r"
  shows "\<exists>oper. map_of (operations d) i = Some oper \<and> so_container_id oper = c \<and> so_generation oper = generation_of r
      \<and> (so_outcome oper = Prepared \<or> is_creation (so_kind oper) \<and> is_failed (so_outcome oper))
      \<and> (\<forall>q. so_process_id oper = Some q \<longrightarrow> is_init q)"
  using record_okI [OF assms(1,2)] assms(3)
  by (fastforce simp: record_ok_def container_claims_def claims_op_def active_claim_def init_io_claim_def
      process_claim_def is_init_def)

lemma process_owner:
  assumes "store_inv x d" "process_record d c p = Some pr" "i \<in> process_owners pr"
  shows "\<exists>oper. map_of (operations d) i = Some oper \<and> so_outcome oper = Prepared \<and> so_container_id oper = c
      \<and> so_process_id oper = Some p \<and> \<not> is_init p"
proof -
  obtain ps where "process_table d c = Some ps" "map_of ps p = Some pr"
    using assms(2) by (auto simp: process_record_def split: bind_splits)
  then obtain r where "process_ok d c (generation_of r) p pr"
    using assms(1) unfolding store_inv_def inv_processes_def by blast
  then show ?thesis using assms(3) by (auto simp: process_ok_def process_claims_def claims_op_def process_claim_def)
qed

text \<open>The incarnation \<open>g\<close> of container \<open>c\<close> has been moved to quarantine.\<close>

definition quarantined :: "disk \<Rightarrow> ContainerId \<Rightarrow> Generation \<Rightarrow> bool" where
  "quarantined d c g \<longleftrightarrow> (\<exists>t oper. map_of (directories d) (Quarantined t) \<noteq> None
     \<and> map_of (operations d) (tombstone_operation t) = Some oper \<and> so_container_id oper = c \<and> so_generation oper = g)"

lemma tombstone_kept: "store_step x d d' \<Longrightarrow> map_of (directories d) (Quarantined t) \<noteq> None \<Longrightarrow>
    map_of (directories d') (Quarantined t) \<noteq> None"
  by (induction rule: store_step.induct)
    (auto simp: lookup_move_dir dest: journal_call_frame split: option.splits if_splits)

lemma quarantined_kept:
  assumes "store_step x d d'" "quarantined d c g"
  shows "quarantined d' c g"
proof -
  obtain t oper where t: "map_of (directories d) (Quarantined t) \<noteq> None"
    "map_of (operations d) (tombstone_operation t) = Some oper" "so_container_id oper = c" "so_generation oper = g"
    using assms(2) by (auto simp: quarantined_def)
  obtain oper' where "map_of (operations d') (tombstone_operation t) = Some oper'" "op_le oper oper'"
    using store_leD [OF store_step_le [OF assms(1)] t(2)] by blast
  with t tombstone_kept [OF assms(1) t(1)] show ?thesis by (auto simp: quarantined_def op_le_def)
qed

lemma record_survives_step:
  assumes "store_step x d d'" "live_record d c = Some r"
  shows "(\<exists>r'. live_record d' c = Some r' \<and> record_step\<^sup>*\<^sup>* r r') \<or> quarantined d' c (generation_of r)"
  using assms
proof (induction rule: store_step.induct)
  case (UpdateRecord d i r1 r2)
  then show ?case using live_record_dir [OF UpdateRecord.hyps(1)] by (cases "c = i") auto
next
  case (Quarantine d i r1 t oper)
  then show ?case
    by (cases "c = i") (auto simp: quarantined_def lookup_move_dir split: option.splits dest: live_record_dir)
next
  case (MakeDirectory d i)
  then show ?case by (cases "c = i") (auto dest: live_record_dir)
next
  case (Journal d d')
  then show ?case using views_cong(1) [OF journal_call_frame [OF Journal.hyps]] by auto
qed auto

lemma record_survives:
  assumes "(store_step x)\<^sup>*\<^sup>* d d'" "live_record d c = Some r" "\<not> quarantined d' c (generation_of r)"
  shows "\<exists>r'. live_record d' c = Some r' \<and> record_step\<^sup>*\<^sup>* r r'"
  using assms
proof (induction rule: rtranclp_induct)
  case (step e f)
  then obtain r1 where r1: "live_record e c = Some r1" "record_step\<^sup>*\<^sup>* r r1" using quarantined_kept by blast
  have "generation_of r1 = generation_of r"
    using r1(2) by (induction rule: rtranclp_induct) (auto dest: record_step_identity(2))
  then show ?case
    using record_survives_step [OF step.hyps(2) r1(1)] r1(2) step.prems(2) by (metis rtranclp_trans)
qed auto

abbreviation status_rank :: "StoredContainer \<Rightarrow> nat" where
  "status_rank r \<equiv> lifecycle_rank (lifecycle_state (status_of r))"

lemma lifecycle_step_rank: "lifecycle_step a b \<Longrightarrow> lifecycle_rank (lifecycle_state a) \<le> lifecycle_rank (lifecycle_state b)"
  by (auto simp: lifecycle_step_def dest: transition_rank)

text \<open>What a sequence of lawful record steps keeps.\<close>

definition same_incarnation :: "StoredContainer \<Rightarrow> StoredContainer \<Rightarrow> bool" where
  "same_incarnation r r' \<longleftrightarrow>
     sc_id r' = sc_id r \<and> sc_attachments r' = sc_attachments r
     \<and> sc_record r' = (sc_record r)\<lparr>cr_state := cr_state (sc_record r')\<rparr>
     \<and> st_bundle (cr_state (sc_record r')) = st_bundle (cr_state (sc_record r))
     \<and> status_rank r \<le> status_rank r'
     \<and> (\<forall>e. sc_init_exit_status r = Some e \<longrightarrow> sc_init_exit_status r' = Some e)"

lemma record_step_same_incarnation: "record_step r r' \<Longrightarrow> same_incarnation r r'"
  unfolding record_step_def same_incarnation_def state_step_def
  by (intro conjI allI impI; elim conjE; (assumption | rule lifecycle_step_rank | auto)?)

lemma record_update_chain:
  "b = a\<lparr>cr_state := u\<rparr> \<Longrightarrow> c = b\<lparr>cr_state := v\<rparr> \<Longrightarrow> c = a\<lparr>cr_state := v\<rparr>" for a b c :: ContainerRecord
  by simp

lemma same_incarnation_trans:
  assumes "same_incarnation a b" "same_incarnation b c"
  shows "same_incarnation a c"
proof -
  have "sc_record c = (sc_record a)\<lparr>cr_state := cr_state (sc_record c)\<rparr>"
    by (rule record_update_chain [of "sc_record b"]) (use assms in \<open>unfold same_incarnation_def, blast+\<close>)
  moreover have "sc_id c = sc_id a" "sc_attachments c = sc_attachments a"
    "st_bundle (cr_state (sc_record c)) = st_bundle (cr_state (sc_record a))" "status_rank a \<le> status_rank c"
    using assms unfolding same_incarnation_def by (metis order_trans)+
  moreover have "\<forall>e. sc_init_exit_status a = Some e \<longrightarrow> sc_init_exit_status c = Some e"
    using assms unfolding same_incarnation_def by blast
  ultimately show ?thesis unfolding same_incarnation_def by blast
qed

lemma record_steps_same_incarnation: "record_step\<^sup>*\<^sup>* r r' \<Longrightarrow> same_incarnation r r'"
proof (induction rule: rtranclp_induct)
  case base
  show ?case by (simp add: same_incarnation_def)
next
  case (step a b)
  then show ?case using record_step_same_incarnation same_incarnation_trans by blast
qed

section \<open>The operation protocol between calls\<close>

context record_operation
begin

lemma two_phase_calls:
  assumes ids: "valid_id (operation_of req)" "valid_id (container_of req)" and r: "reachable x (disk s)" "ext s = x"
    and prep: "prepare req s = (Inr v, s1)" "v = PreparedRecord rec \<or> v = ResumeRecord rec"
    and between: "(call_step x)\<^sup>*\<^sup>* (disk s1) (disk t)" "ext t = x"
    and comp: "complete (operation_of req) a t = (Inr rec', t')"
  shows "owns (disk s1) (operation_of req) kind (container_of req) rec
    \<and> settled (disk t') (operation_of req) kind (container_of req) (Succeeded rec')
    \<and> (settled (disk t) (operation_of req) kind (container_of req) Prepared \<longrightarrow>
       effect a rec'
       \<and> (\<forall>k \<in> published_by rec'. published (disk t') (target_exact (container_of req) (cr_generation rec)) k)
       \<and> (\<exists>r. live_record (disk t') (container_of req) = Some r \<and> sc_record r = rec' \<and> sc_active_operation r = None))"
proof -
  have inv: "store_inv (ext s) (disk s)" using reachable_inv r by simp
  have "store_inv x (disk s1)" using runsD(2,3) [OF prepare_contract [OF ids] inv prep(1)] r(2) by (simp add: same_env_def)
  from calls_refine [OF between(1) this] have "(store_step (ext s))\<^sup>*\<^sup>* (disk s1) (disk t)" using r(2) by simp
  note tp = two_phase [OF ids inv prep this _ comp]
  have "ext t = ext s" using between(2) r(2) by simp
  then show ?thesis using tp by blast
qed

lemma exactly_once_calls:
  assumes ids: "valid_id (operation_of req)" "valid_id (container_of req)" and r: "reachable x (disk s)" "ext s = x"
    and old: "settled (disk s) (operation_of req) k c out" "out \<noteq> Prepared"
    and later: "(call_step x)\<^sup>*\<^sup>* (disk s) (disk t)" "ext t = x"
    and prep: "prepare req t = (Inr v, t')"
  shows "\<exists>rec rec'. k = kind \<and> c = container_of req \<and> out = Succeeded rec \<and> v = ReplayedRecord rec' \<and> rebinds rec rec'"
proof -
  have inv: "store_inv x (disk s)" using reachable_inv r by simp
  note l = calls_refine [OF later(1) inv]
  obtain out' where out': "settled (disk t) (operation_of req) k c out'" "out' = out \<or> outcome_rebinds out out'"
    using settled_later [OF old(1)] store_steps_le l old(2) by blast
  then have "out' \<noteq> Prepared" using old(2) by auto
  from exactly_once [OF ids _ out'(1) this prep] obtain rec rec' where
    "k = kind" "c = container_of req" "out' = Succeeded rec" "v = ReplayedRecord rec'" "rebinds rec rec'"
    using l later(2) by auto
  with out'(2) show ?thesis by (cases out) (auto intro: rebinds_trans)
qed

end

end
