(* ===== verification/Process_Protocol.thy ===== *)
theory Process_Protocol
  imports Store_Machine
begin

text \<open>
  The protocol of the operations on one process: signals, input, closing of input and terminal resizes.
  They answer without a record, so the interface differs from \<open>record_operation\<close> in what a prepare method
  hands to the driver: the exact process, or nothing when the operation was settled before.
\<close>

lemma target_prepared_settled: "target_prepared i k c p t s \<Longrightarrow> settled (disk s) i k c Prepared"
  by (auto simp: target_prepared_def prepared_for_def settled_def)

lemma process_operation_later:
  assumes "prepared_for d i k c p" "store_le d d'" "map_of (operations d') i = Some oper"
  shows "so_kind oper = k" "so_container_id oper = c" "so_process_id oper = Some p"
proof -
  obtain o1 where o1: "map_of (operations d) i = Some o1" "so_kind o1 = k" "so_container_id o1 = c"
    "so_process_id o1 = Some p" using assms(1) by (auto simp: prepared_for_def)
  then have "op_le o1 oper" using store_leD [OF assms(2) o1(1)] assms(3) by simp
  with o1 show "so_kind oper = k" "so_container_id oper = c" "so_process_id oper = Some p" by (auto simp: op_le_def)
qed

locale process_operation =
  fixes prepare :: "'r \<Rightarrow> 'v store_m" and complete :: "OperationId \<Rightarrow> unit store_m"
    and operation_of :: "'r \<Rightarrow> OperationId" and process_of :: "'r \<Rightarrow> ProcessTarget"
    and kind :: StoredOperationKind and pending :: "'v \<Rightarrow> ProcessTarget option"
  assumes prepare_contract: "valid_id (operation_of req) \<Longrightarrow> valid_id (ct_id (pt_container (process_of req))) \<Longrightarrow>
      runs (prepare req) (\<lambda>v s'.
        case pending v of
          Some t \<Rightarrow> target_prepared (operation_of req) kind (ct_id (pt_container (process_of req)))
                      (pt_process_id (process_of req)) t s'
        | None \<Rightarrow> settled (disk s') (operation_of req) kind (ct_id (pt_container (process_of req))) SucceededEmpty) s"
    and complete_contract: "runs (complete i) (process_completed i kind s) s"
begin

lemma two_phase_calls:
  assumes ids: "valid_id (operation_of req)" "valid_id (ct_id (pt_container (process_of req)))"
    and r: "reachable x (disk s)" "ext s = x"
    and prep: "prepare req s = (Inr v, s1)" "pending v = Some target"
    and between: "(call_step x)\<^sup>*\<^sup>* (disk s1) (disk t)" "ext t = x"
    and comp: "complete (operation_of req) t = (Inr u, t')"
  shows "target_prepared (operation_of req) kind (ct_id (pt_container (process_of req)))
        (pt_process_id (process_of req)) target s1
    \<and> settled (disk t') (operation_of req) kind (ct_id (pt_container (process_of req))) SucceededEmpty
    \<and> (settled (disk t) (operation_of req) kind (ct_id (pt_container (process_of req))) Prepared \<longrightarrow>
         \<not> process_owned (disk t') (operation_of req) (ct_id (pt_container (process_of req)))
             (pt_process_id (process_of req)))"
proof -
  have inv: "store_inv (ext s) (disk s)" using reachable_inv r by simp
  note p = runsD [OF prepare_contract [OF ids] inv prep(1)]
  then have tp: "target_prepared (operation_of req) kind (ct_id (pt_container (process_of req)))
      (pt_process_id (process_of req)) target s1" using prep(2) by simp
  have "store_inv x (disk s1)" using p(2,3) r(2) by (simp add: same_env_def)
  note b = calls_refine [OF between(1) this]
  then have "store_inv (ext t) (disk t)" using between(2) by simp
  note c = runsD [OF complete_contract this comp]
  obtain oper q where oper: "map_of (operations (disk t)) (operation_of req) = Some oper" "so_process_id oper = Some q"
    and fin: "settled (disk t') (operation_of req) kind (so_container_id oper) SucceededEmpty"
      "so_outcome oper = Prepared \<Longrightarrow> \<not> process_owned (disk t') (operation_of req) (so_container_id oper) q"
    using c(4) by (auto simp: process_completed_def)
  have pf: "prepared_for (disk s1) (operation_of req) kind (ct_id (pt_container (process_of req)))
      (pt_process_id (process_of req))" using tp by (simp add: target_prepared_def)
  note o = process_operation_later [OF pf store_steps_le oper(1)]
  show ?thesis using tp fin o b oper by (auto simp: settled_def)
qed

lemma exactly_once_calls:
  assumes ids: "valid_id (operation_of req)" "valid_id (ct_id (pt_container (process_of req)))"
    and r: "reachable x (disk s)" "ext s = x"
    and old: "settled (disk s) (operation_of req) k c out" "out \<noteq> Prepared"
    and later: "(call_step x)\<^sup>*\<^sup>* (disk s) (disk t)" "ext t = x"
    and prep: "prepare req t = (Inr v, t')"
  shows "k = kind \<and> c = ct_id (pt_container (process_of req)) \<and> out = SucceededEmpty \<and> pending v = None"
proof -
  have inv: "store_inv x (disk s)" using reachable_inv r by simp
  note l = calls_refine [OF later(1) inv]
  then have "store_inv (ext t) (disk t)" using later(2) by simp
  note p = runsD [OF prepare_contract [OF ids] this prep]
  have "(store_step x)\<^sup>*\<^sup>* (disk s) (disk t')" using l p(1) later(2) by (meson rtranclp_trans)
  from settled_later [OF old(1) store_steps_le [OF this]] obtain out' where
    out': "settled (disk t') (operation_of req) k c out'" "out' = out \<or> outcome_rebinds out out'"
    using old(2) by blast
  then have "out' \<noteq> Prepared" using old(2) by auto
  then have "pending v = None" "settled (disk t') (operation_of req) kind (ct_id (pt_container (process_of req))) SucceededEmpty"
    using p(4) settled_unique [OF out'(1)] target_prepared_settled by (fastforce split: option.splits)+
  with settled_unique [OF out'(1)] out'(2) show ?thesis by (cases out) auto
qed

end

section \<open>The operations\<close>

text \<open>The process a prepare method hands to the driver.\<close>

fun pending_signal :: "SignalProcessPreparation \<Rightarrow> ProcessTarget option" where
  "pending_signal (SignalPrepared t) = Some t"
| "pending_signal (SignalResume t) = Some t"
| "pending_signal SignalReplayed = None"

fun pending_io :: "ProcessIoPreparation \<Rightarrow> ProcessTarget option" where
  "pending_io (IoPrepared t) = Some t"
| "pending_io (IoResume t) = Some t"
| "pending_io IoReplayed = None"

lemma signal_prepared_pending: "signal_prepared i c p v s \<longleftrightarrow>
   (case pending_signal v of Some t \<Rightarrow> target_prepared i KSignalProcess c p t s
    | None \<Rightarrow> settled (disk s) i KSignalProcess c SucceededEmpty)"
  by (cases v) (simp_all add: signal_prepared_def)

lemma io_prepared_pending: "io_prepared i k c p v s \<longleftrightarrow>
   (case pending_io v of Some t \<Rightarrow> target_prepared i k c p t s | None \<Rightarrow> settled (disk s) i k c SucceededEmpty)"
  by (cases v) (simp_all add: io_prepared_def)

interpretation signal: process_operation prepare_signal_process complete_signal_process
  "\<lambda>request. oc_operation_id (sq_context request)" sq_process KSignalProcess pending_signal
  by unfold_locales
    (use runs_prepare_signal_process in \<open>simp_all add: signal_prepared_pending [abs_def] runs_complete_signal_process\<close>)

interpretation write_stdin: process_operation prepare_write_stdin complete_write_stdin
  "\<lambda>request. oc_operation_id (wq_context request)" wq_process KWriteStdin pending_io
  by unfold_locales
    (use runs_process_io_calls(1) in \<open>simp_all add: io_prepared_pending [abs_def] runs_process_io_calls(4)\<close>)

interpretation close_stdin: process_operation prepare_close_stdin complete_close_stdin
  "\<lambda>request. oc_operation_id (clq_context request)" clq_process KCloseStdin pending_io
  by unfold_locales
    (use runs_process_io_calls(2) in \<open>simp_all add: io_prepared_pending [abs_def] runs_process_io_calls(5)\<close>)

interpretation resize: process_operation prepare_resize complete_resize
  "\<lambda>request. oc_operation_id (rz_context request)" rz_process KResize pending_io
  by unfold_locales
    (use runs_process_io_calls(3) in \<open>simp_all add: io_prepared_pending [abs_def] runs_process_io_calls(6)\<close>)

end
