(* ===== verification/Example_Session.thy ===== *)
theory Example_Session
  imports Store_Machine
begin

text \<open>
  A concrete session with one container, run by evaluation on an empty store without faults: create, start
  and pause; a start that the driver refuses; exec with input, a signal and an exit; update, kill, an observed
  stop and delete.  The properties are applied to its states.
\<close>

section \<open>Requests\<close>

text \<open>A short digest keeps the evaluation fast.\<close>

definition session_ext :: externals where
  "session_ext = example_ext\<lparr>x_sha256 := (\<lambda>s. take 14 (rev s))\<rparr>"

definition session_store :: DurableStateStore where
  "session_store = example_store\<lparr>ext := session_ext\<rparr>"


definition example_context :: "OperationId \<Rightarrow> OperationContext" where
  "example_context i = \<lparr>oc_operation_id = i, oc_deadline_unix_ms = None\<rparr>"

definition example_create :: CreateRequest where
  "example_create = \<lparr>cq_context = example_context ''c'', cq_id = ''b'',
     cq_bundle = \<lparr>bn_directory = ''/b'', bn_config_json = ''{}'', bn_config_digest = ''{}'', bn_spec_version = ''1.3.0'',
        bn_spec_annotations = None, bn_spec_process = None\<rparr>,
     cq_isolation = RequestSharedHostKernel,
     cq_attachments = \<lparr>ca_process_io = \<lparr>io_stdin = IoNull, io_stdout = IoNull, io_stderr = IoNull, io_terminal_size = None\<rparr>,
        ca_guest_session = None, ca_document = ''doc''\<rparr>\<rparr>"

definition example_operation :: "OperationId \<Rightarrow> ContainerOperationRequest" where
  "example_operation i = \<lparr>co_context = example_context i, co_target = target_current ''b''\<rparr>"

definition example_update :: UpdateRequest where
  "example_update = \<lparr>uq_context = example_context ''u'', uq_target = target_current ''b'', uq_resources = ''{}''\<rparr>"

definition example_exec :: ExecRequest where
  "example_exec = \<lparr>xq_context = example_context ''e'', xq_container = target_current ''b'', xq_process_id = ''p1'',
     xq_process = ''ls'', xq_io = \<lparr>io_stdin = IoPipe, io_stdout = IoNull, io_stderr = IoNull, io_terminal_size = None\<rparr>\<rparr>"

definition example_process :: ProcessTarget where
  "example_process = \<lparr>pt_container = target_exact ''b'' 1, pt_process_id = ''p1''\<rparr>"

definition example_write :: WriteStdinRequest where
  "example_write = \<lparr>wq_context = example_context ''w'', wq_process = example_process, wq_data = ''x''\<rparr>"

definition example_signal :: SignalProcessRequest where
  "example_signal = \<lparr>sq_context = example_context ''g'', sq_process = example_process, sq_signal = 15\<rparr>"

definition example_exit :: ExitStatus where
  "example_exit = \<lparr>es_exit_code = Some 0, es_signal = None, es_oom_killed = False\<rparr>"

definition example_kill :: KillRequest where
  "example_kill = \<lparr>kq_context = example_context ''k'', kq_target = target_current ''b'', kq_signal = 9, kq_all = False\<rparr>"

definition example_delete :: DeleteRequest where
  "example_delete = \<lparr>dq_context = example_context ''d'', dq_target = target_current ''b'', dq_mode = StoppedOnly\<rparr>"

definition example_error :: error where
  "example_error = state_error Internal ''start''"

text \<open>The states between the calls.\<close>

definition ex_creating :: DurableStateStore where
  "ex_creating = snd (prepare_create_with_inherited_descriptors example_create NativeLinux None session_store)"
definition ex_created :: DurableStateStore where "ex_created = snd (complete_create ''c'' 7 ex_creating)"
definition ex_starting :: DurableStateStore where "ex_starting = snd (prepare_start (example_operation ''s'') ex_created)"
definition ex_running :: DurableStateStore where "ex_running = snd (complete_start ''s'' StRunning (Some 7) ex_starting)"
definition ex_pausing :: DurableStateStore where
  "ex_pausing = snd (prepare_freezer (example_operation ''p'') Pause ex_running)"
definition ex_paused :: DurableStateStore where
  "ex_paused = snd (complete_freezer ''p'' StRunning (Some 7) True Pause ex_pausing)"
definition ex_refused :: DurableStateStore where "ex_refused = snd (fail_operation ''s'' example_error ex_starting)"
definition ex_execing :: DurableStateStore where "ex_execing = snd (prepare_exec example_exec ex_running)"
definition ex_execed :: DurableStateStore where "ex_execed = snd (complete_exec ''e'' 8 False ex_execing)"
definition ex_writing :: DurableStateStore where "ex_writing = snd (prepare_write_stdin example_write ex_execed)"
definition ex_written :: DurableStateStore where "ex_written = snd (complete_write_stdin ''w'' ex_writing)"
definition ex_signaling :: DurableStateStore where "ex_signaling = snd (prepare_signal_process example_signal ex_written)"
definition ex_signaled :: DurableStateStore where "ex_signaled = snd (complete_signal_process ''g'' ex_signaling)"
definition ex_exited :: DurableStateStore where "ex_exited = snd (complete_process_wait example_process example_exit ex_signaled)"
definition ex_updating :: DurableStateStore where "ex_updating = snd (prepare_update example_update ex_running)"
definition ex_updated :: DurableStateStore where
  "ex_updated = snd (complete_update ''u'' StRunning (Some 7) False ex_updating)"
definition ex_killing :: DurableStateStore where "ex_killing = snd (prepare_kill example_kill ex_updated)"
definition ex_killed :: DurableStateStore where "ex_killed = snd (complete_kill ''k'' StRunning (Some 7) ex_killing)"
definition ex_stopped :: DurableStateStore where
  "ex_stopped = snd (observe_state_with_pause (target_current ''b'') StStopped None False ex_killed)"
definition ex_deleting :: DurableStateStore where "ex_deleting = snd (prepare_delete example_delete ex_stopped)"
definition ex_deleted :: DurableStateStore where "ex_deleted = snd (complete_delete ''d'' ex_deleting)"

section \<open>The answers\<close>

definition gives :: "('a \<Rightarrow> bool) \<Rightarrow> error + 'a \<Rightarrow> bool" where
  "gives P r \<longleftrightarrow> (case r of Inr v \<Rightarrow> P v | Inl _ \<Rightarrow> False)"

lemma givesD: "gives P (fst m) \<Longrightarrow> \<exists>v. m = (Inr v, snd m) \<and> P v"
  by (cases m) (auto simp: gives_def split: sum.splits)

definition prepared_as :: "ContainerState \<Rightarrow> RecordOperationPreparation \<Rightarrow> bool" where
  "prepared_as status v \<longleftrightarrow> (case v of PreparedRecord rec \<Rightarrow> st_status (cr_state rec) = status | _ \<Rightarrow> False)"

definition completed_as :: "ContainerState \<Rightarrow> bool \<Rightarrow> ContainerRecord \<Rightarrow> bool" where
  "completed_as status paused rec \<longleftrightarrow>
     st_status (cr_state rec) = status \<and> is_paused (cr_state rec) = paused \<and> cr_generation rec = 1"

definition prepared_process :: "ProcessOperationPreparation \<Rightarrow> bool" where
  "prepared_process v \<longleftrightarrow> (case v of PreparedProcess rec \<Rightarrow> pr_target rec = example_process | _ \<Rightarrow> False)"

definition prepared_deletion :: "DeletePreparation \<Rightarrow> bool" where
  "prepared_deletion v \<longleftrightarrow> (case v of DeletePrepared rec \<Rightarrow> st_status (cr_state rec) = StStopped | _ \<Rightarrow> False)"

text \<open>A later start request with the same identifier repeats the recorded one.\<close>

definition repeats_start :: "DurableStateStore \<Rightarrow> bool" where
  "repeats_start s \<longleftrightarrow>
     (case (map_of (operations (disk s)) ''s'',
            request_digest (ext s) (StartFingerprint (target_current ''b'')) op_digest_start_request) of
        (Some oper, Inr digest) \<Rightarrow> validate_retry oper KStart ''b'' digest op_prepare_start = Inr ()
      | _ \<Rightarrow> False)"

lemma session_lifecycle:
  "case prepare_create_with_inherited_descriptors example_create NativeLinux None session_store of (r, s) \<Rightarrow>
     gives (prepared_as StCreating) r \<and>
   (case complete_create ''c'' 7 s of (r, s) \<Rightarrow> gives (completed_as StCreated False) r \<and>
     map_option generation_of (live_record (disk s) ''b'') = Some 1 \<and> map_of (operations (disk s)) ''s'' = None \<and>
     gives (\<lambda>_. True) (fst (prepare_create_with_inherited_descriptors example_create NativeLinux None s)) \<and>
   (case prepare_start (example_operation ''s'') s of (r, s) \<Rightarrow> gives (prepared_as StCreated) r \<and>
     (case fail_operation ''s'' example_error s of (r, s) \<Rightarrow> gives (\<lambda>_. True) r \<and> repeats_start s) \<and>
   (case complete_start ''s'' StRunning (Some 7) s of (r, s) \<Rightarrow> gives (completed_as StRunning False) r \<and>
     map fst (directories (disk s)) = [Live ''b''] \<and>
   (case prepare_freezer (example_operation ''p'') Pause s of (r, s) \<Rightarrow> gives (prepared_as StRunning) r \<and>
   (case complete_freezer ''p'' StRunning (Some 7) True Pause s of (r, s) \<Rightarrow>
     gives (completed_as StRunning True) r)))))"
  by code_simp

lemma session_process:
  "case prepare_create_with_inherited_descriptors example_create NativeLinux None session_store of (r, s) \<Rightarrow>
   (case complete_create ''c'' 7 s of (r, s) \<Rightarrow>
   (case prepare_start (example_operation ''s'') s of (r, s) \<Rightarrow>
   (case complete_start ''s'' StRunning (Some 7) s of (r, s) \<Rightarrow>
   (case prepare_exec example_exec s of (r, s) \<Rightarrow>
     gives prepared_process r \<and>
   (case complete_exec ''e'' 8 False s of (r, s) \<Rightarrow> gives (\<lambda>rec. pr_pid rec = Some 8) r \<and>
   (case prepare_write_stdin example_write s of (r, s) \<Rightarrow> gives (\<lambda>v. v = IoPrepared example_process) r \<and>
   (case complete_write_stdin ''w'' s of (r, s) \<Rightarrow> gives (\<lambda>_. True) r \<and>
     gives (\<lambda>_. True) (fst (prepare_write_stdin example_write s)) \<and>
   (case prepare_signal_process example_signal s of (r, s) \<Rightarrow> gives (\<lambda>v. v = SignalPrepared example_process) r \<and>
   (case complete_signal_process ''g'' s of (r, s) \<Rightarrow> gives (\<lambda>_. True) r \<and>
   (case complete_process_wait example_process example_exit s of (r, s) \<Rightarrow> gives (\<lambda>v. v = example_exit) r))))))))))"
  by code_simp

lemma session_removal:
  "case prepare_create_with_inherited_descriptors example_create NativeLinux None session_store of (r, s) \<Rightarrow>
   (case complete_create ''c'' 7 s of (r, s) \<Rightarrow>
   (case prepare_start (example_operation ''s'') s of (r, s) \<Rightarrow>
   (case complete_start ''s'' StRunning (Some 7) s of (r, s) \<Rightarrow>
   (case prepare_update example_update s of (r, s) \<Rightarrow>
     gives (prepared_as StRunning) r \<and>
   (case complete_update ''u'' StRunning (Some 7) False s of (r, s) \<Rightarrow> gives (completed_as StRunning False) r \<and>
   (case prepare_kill example_kill s of (r, s) \<Rightarrow> gives (prepared_as StRunning) r \<and>
   (case complete_kill ''k'' StRunning (Some 7) s of (r, s) \<Rightarrow> gives (completed_as StRunning False) r \<and>
     gives (\<lambda>_. True) (fst (prepare_kill example_kill s)) \<and>
   (case observe_state_with_pause (target_current ''b'') StStopped None False s of (r, s) \<Rightarrow>
     gives (completed_as StStopped False) r \<and> gives (\<lambda>recs. length recs = 1) (fst (list_containers \<lparr>lr_isolation = None\<rparr> s)) \<and>
   (case prepare_delete example_delete s of (r, s) \<Rightarrow> gives prepared_deletion r \<and>
   (case complete_delete ''d'' s of (r, s) \<Rightarrow> gives (\<lambda>_. True) r))))))))))"
  by code_simp

lemmas session_folds = ex_creating_def [symmetric] ex_created_def [symmetric] ex_starting_def [symmetric]
  ex_running_def [symmetric] ex_pausing_def [symmetric] ex_paused_def [symmetric] ex_refused_def [symmetric]
  ex_execing_def [symmetric] ex_execed_def [symmetric] ex_writing_def [symmetric] ex_written_def [symmetric]
  ex_signaling_def [symmetric] ex_signaled_def [symmetric] ex_exited_def [symmetric] ex_updating_def [symmetric]
  ex_updated_def [symmetric] ex_killing_def [symmetric] ex_killed_def [symmetric] ex_stopped_def [symmetric]
  ex_deleting_def [symmetric] ex_deleted_def [symmetric]

lemmas session = session_lifecycle [unfolded case_prod_beta session_folds]
  session_process [unfolded case_prod_beta session_folds] session_removal [unfolded case_prod_beta session_folds]

section \<open>The states are reachable\<close>

definition visited :: "DurableStateStore \<Rightarrow> bool" where
  "visited s \<longleftrightarrow> ext s = session_ext \<and> reachable session_ext (disk s)"

lemma visited_call:
  assumes "visited s" "well_formed_call call" "s' = run_call call s"
  shows "visited s'"
proof -
  have "store_inv (ext s) (disk s)" using assms(1) reachable_inv by (simp add: visited_def)
  then have "same_env s s'" using run_call_refines [OF assms(2)] assms(3) by (simp add: refines_def)
  moreover have "call_step session_ext (disk s) (disk s')"
    using call_step.Call [of s session_ext call] assms by (simp add: visited_def)
  ultimately show ?thesis
    using assms(1) by (auto simp: visited_def reachable_def same_env_def intro: rtranclp.rtrancl_into_rtrancl)
qed

lemma session_ids:
  "list_all valid_id [''b'', ''c'', ''s'', ''p'', ''e'', ''w'', ''g'', ''u'', ''k'', ''d'']"
  by code_simp

lemmas call_forms = well_formed_call_def example_create_def example_operation_def example_context_def example_exec_def
  example_write_def example_process_def example_signal_def example_update_def example_kill_def example_delete_def
  target_current_def target_exact_def

lemma visited_lifecycle:
  "visited session_store" "visited ex_creating" "visited ex_created" "visited ex_starting" "visited ex_running"
  "visited ex_pausing" "visited ex_paused" "visited ex_refused"
proof -
  show v0: "visited session_store" by (simp add: visited_def session_store_def example_store_def reachable_def)
  show v1: "visited ex_creating"
    by (rule visited_call [OF v0, where call = "CallPrepareCreate example_create NativeLinux None"])
      (use session_ids in \<open>simp_all add: ex_creating_def call_forms\<close>)
  show v2: "visited ex_created"
    by (rule visited_call [OF v1, where call = "CallCompleteCreate ''c'' 7"]) (simp_all add: ex_created_def call_forms)
  show v3: "visited ex_starting"
    by (rule visited_call [OF v2, where call = "CallPrepareStart (example_operation ''s'')"])
      (use session_ids in \<open>simp_all add: ex_starting_def call_forms\<close>)
  show v4: "visited ex_running"
    by (rule visited_call [OF v3, where call = "CallCompleteStart ''s'' StRunning (Some 7)"])
      (simp_all add: ex_running_def call_forms)
  show v5: "visited ex_pausing"
    by (rule visited_call [OF v4, where call = "CallPreparePause (example_operation ''p'')"])
      (use session_ids in \<open>simp_all add: ex_pausing_def prepare_pause_def call_forms\<close>)
  show v6: "visited ex_paused"
    by (rule visited_call [OF v5, where call = "CallCompletePause ''p'' StRunning (Some 7) True"])
      (simp_all add: ex_paused_def complete_pause_def call_forms)
  show "visited ex_refused"
    by (rule visited_call [OF v3, where call = "CallFailOperation ''s'' example_error"]) (simp_all add: ex_refused_def call_forms)
qed

lemma visited_process:
  "visited ex_execing" "visited ex_execed" "visited ex_writing" "visited ex_written" "visited ex_signaling"
  "visited ex_signaled" "visited ex_exited"
proof -
  show w1: "visited ex_execing"
    by (rule visited_call [OF visited_lifecycle(5), where call = "CallPrepareExec example_exec"])
      (use session_ids in \<open>simp_all add: ex_execing_def call_forms\<close>)
  show w2: "visited ex_execed"
    by (rule visited_call [OF w1, where call = "CallCompleteExec ''e'' 8 False"]) (simp_all add: ex_execed_def call_forms)
  show w3: "visited ex_writing"
    by (rule visited_call [OF w2, where call = "CallPrepareWriteStdin example_write"])
      (use session_ids in \<open>simp_all add: ex_writing_def call_forms\<close>)
  show w4: "visited ex_written"
    by (rule visited_call [OF w3, where call = "CallCompleteWriteStdin ''w''"]) (simp_all add: ex_written_def call_forms)
  show w5: "visited ex_signaling"
    by (rule visited_call [OF w4, where call = "CallPrepareSignalProcess example_signal"])
      (use session_ids in \<open>simp_all add: ex_signaling_def call_forms\<close>)
  show w6: "visited ex_signaled"
    by (rule visited_call [OF w5, where call = "CallCompleteSignalProcess ''g''"]) (simp_all add: ex_signaled_def call_forms)
  show "visited ex_exited"
    by (rule visited_call [OF w6, where call = "CallCompleteProcessWait example_process example_exit"])
      (simp_all add: ex_exited_def call_forms)
qed

lemma visited_removal:
  "visited ex_updating" "visited ex_updated" "visited ex_killing" "visited ex_killed" "visited ex_stopped"
  "visited ex_deleting" "visited ex_deleted"
proof -
  show u1: "visited ex_updating"
    by (rule visited_call [OF visited_lifecycle(5), where call = "CallPrepareUpdate example_update"])
      (use session_ids in \<open>simp_all add: ex_updating_def call_forms\<close>)
  show u2: "visited ex_updated"
    by (rule visited_call [OF u1, where call = "CallCompleteUpdate ''u'' StRunning (Some 7) False"])
      (simp_all add: ex_updated_def call_forms)
  show u3: "visited ex_killing"
    by (rule visited_call [OF u2, where call = "CallPrepareKill example_kill"])
      (use session_ids in \<open>simp_all add: ex_killing_def call_forms\<close>)
  show u4: "visited ex_killed"
    by (rule visited_call [OF u3, where call = "CallCompleteKill ''k'' StRunning (Some 7)"])
      (simp_all add: ex_killed_def call_forms)
  show u5: "visited ex_stopped"
    by (rule visited_call [OF u4, where call = "CallObserveState (target_current ''b'') StStopped None False"])
      (simp_all add: ex_stopped_def call_forms)
  show u6: "visited ex_deleting"
    by (rule visited_call [OF u5, where call = "CallPrepareDelete example_delete"])
      (use session_ids in \<open>simp_all add: ex_deleting_def call_forms\<close>)
  show "visited ex_deleted"
    by (rule visited_call [OF u6, where call = "CallCompleteDelete ''d''"]) (simp_all add: ex_deleted_def call_forms)
qed

lemmas visited_states = visited_lifecycle visited_process visited_removal

section \<open>Facts of the session\<close>

lemma visitedD: "visited s \<Longrightarrow> reachable session_ext (disk s)" "visited s \<Longrightarrow> ext s = session_ext"
  by (simp_all add: visited_def)

lemma session_valid:
  "valid_id ''b''" "valid_id ''c''" "valid_id ''s''" "valid_id ''p''" "valid_id ''e''" "valid_id ''w''" "valid_id ''g''"
  "valid_id ''u''" "valid_id ''k''" "valid_id ''d''"
  using session_ids by simp_all

lemma example_ids:
  "oc_operation_id (cq_context example_create) = ''c''" "cq_id example_create = ''b''"
  "oc_operation_id (co_context (example_operation i)) = i" "ct_id (co_target (example_operation i)) = ''b''"
  "oc_operation_id (kq_context example_kill) = ''k''" "ct_id (kq_target example_kill) = ''b''"
  "oc_operation_id (uq_context example_update) = ''u''" "ct_id (uq_target example_update) = ''b''"
  "oc_operation_id (dq_context example_delete) = ''d''" "ct_id (dq_target example_delete) = ''b''"
  "oc_operation_id (xq_context example_exec) = ''e''" "ct_id (xq_container example_exec) = ''b''"
  "xq_process_id example_exec = ''p1''"
  "oc_operation_id (wq_context example_write) = ''w''" "wq_process example_write = example_process"
  "oc_operation_id (sq_context example_signal) = ''g''" "sq_process example_signal = example_process"
  "ct_id (pt_container example_process) = ''b''" "pt_process_id example_process = ''p1''"
  by (simp_all add: call_forms)

lemma visited_inv: "visited s \<Longrightarrow> store_inv (ext s) (disk s)"
  using reachable_inv by (simp add: visited_def)

lemma step_to:
  assumes "visited s" "well_formed_call call" "s' = run_call call s"
  shows "(call_step session_ext)\<^sup>*\<^sup>* (disk s) (disk s')"
  using call_step.Call [of s session_ext call] assms by (simp add: visited_def r_into_rtranclp)

lemma session_steps:
  "(call_step session_ext)\<^sup>*\<^sup>* (disk ex_created) (disk ex_starting)"
  "(call_step session_ext)\<^sup>*\<^sup>* (disk ex_starting) (disk ex_running)"
  "(call_step session_ext)\<^sup>*\<^sup>* (disk ex_stopped) (disk ex_deleting)"
  "(call_step session_ext)\<^sup>*\<^sup>* (disk ex_deleting) (disk ex_deleted)"
  using step_to [OF visited_states(3), of "CallPrepareStart (example_operation ''s'')" ex_starting]
    step_to [OF visited_states(4), of "CallCompleteStart ''s'' StRunning (Some 7)" ex_running]
    step_to [OF visited_states(20), of "CallPrepareDelete example_delete" ex_deleting]
    step_to [OF visited_states(21), of "CallCompleteDelete ''d''" ex_deleted] session_ids
  by (simp_all add: ex_starting_def ex_running_def ex_deleting_def ex_deleted_def call_forms)

text \<open>The answers of the session.\<close>

lemma prepared_at:
  "gives (prepared_as status) (fst m) \<Longrightarrow> snd m = s' \<Longrightarrow> \<exists>rec. m = (Inr (PreparedRecord rec), s')"
  by (cases m) (auto simp: gives_def prepared_as_def split: sum.splits RecordOperationPreparation.splits)

lemma answered_at: "gives P (fst m) \<Longrightarrow> snd m = s' \<Longrightarrow> \<exists>v. m = (Inr v, s') \<and> P v"
  by (cases m) (auto simp: gives_def split: sum.splits)

lemma answers_lifecycle:
  "\<exists>rec. prepare_create_with_inherited_descriptors example_create NativeLinux None session_store = (Inr (PreparedRecord rec), ex_creating)"
  "\<exists>rec. complete_create ''c'' 7 ex_creating = (Inr rec, ex_created) \<and> completed_as StCreated False rec"
  "\<exists>rec. prepare_start (example_operation ''s'') ex_created = (Inr (PreparedRecord rec), ex_starting)"
  "\<exists>u. fail_operation ''s'' example_error ex_starting = (Inr u, ex_refused) \<and> True"
  "\<exists>rec. complete_start ''s'' StRunning (Some 7) ex_starting = (Inr rec, ex_running) \<and> completed_as StRunning False rec"
  "\<exists>rec. prepare_freezer (example_operation ''p'') Pause ex_running = (Inr (PreparedRecord rec), ex_pausing)"
  "\<exists>rec. complete_freezer ''p'' StRunning (Some 7) True Pause ex_pausing = (Inr rec, ex_paused) \<and> completed_as StRunning True rec"
  by (insert session(1); elim conjE; (erule prepared_at answered_at)?; simp add: session_folds)+

lemma answers_process:
  "\<exists>v. prepare_exec example_exec ex_running = (Inr v, ex_execing) \<and> prepared_process v"
  "\<exists>rec. complete_exec ''e'' 8 False ex_execing = (Inr rec, ex_execed) \<and> pr_pid rec = Some 8"
  "\<exists>v. prepare_write_stdin example_write ex_execed = (Inr v, ex_writing) \<and> v = IoPrepared example_process"
  "\<exists>u. complete_write_stdin ''w'' ex_writing = (Inr u, ex_written) \<and> True"
  "\<exists>v. prepare_signal_process example_signal ex_written = (Inr v, ex_signaling) \<and> v = SignalPrepared example_process"
  "\<exists>u. complete_signal_process ''g'' ex_signaling = (Inr u, ex_signaled) \<and> True"
  "\<exists>v. complete_process_wait example_process example_exit ex_signaled = (Inr v, ex_exited) \<and> v = example_exit"
  by (insert session(2); elim conjE; (erule answered_at)?; simp add: session_folds)+

lemma answers_removal:
  "\<exists>rec. prepare_update example_update ex_running = (Inr (PreparedRecord rec), ex_updating)"
  "\<exists>rec. complete_update ''u'' StRunning (Some 7) False ex_updating = (Inr rec, ex_updated) \<and> completed_as StRunning False rec"
  "\<exists>rec. prepare_kill example_kill ex_updated = (Inr (PreparedRecord rec), ex_killing)"
  "\<exists>rec. complete_kill ''k'' StRunning (Some 7) ex_killing = (Inr rec, ex_killed) \<and> completed_as StRunning False rec"
  "\<exists>rec. observe_state_with_pause (target_current ''b'') StStopped None False ex_killed = (Inr rec, ex_stopped)
     \<and> completed_as StStopped False rec"
  "\<exists>v. prepare_delete example_delete ex_stopped = (Inr v, ex_deleting) \<and> prepared_deletion v"
  "\<exists>u. complete_delete ''d'' ex_deleting = (Inr u, ex_deleted) \<and> True"
  by (insert session(3); elim conjE; (erule prepared_at answered_at)?; simp add: session_folds)+

lemma created_record: "\<exists>r. live_record (disk ex_created) ''b'' = Some r \<and> generation_of r = 1"
  "map_of (operations (disk ex_created)) ''s'' = None" "map fst (directories (disk ex_running)) = [Live ''b'']"
  "repeats_start ex_refused"
  using session(1) by auto

lemma answered: "gives P (fst m) \<Longrightarrow> \<exists>v s'. m = (Inr v, s')"
  by (cases m) (auto simp: gives_def split: sum.splits)

lemma answers_retries:
  "\<exists>v s'. prepare_create_with_inherited_descriptors example_create NativeLinux None ex_created = (Inr v, s')"
  "\<exists>v s'. prepare_write_stdin example_write ex_written = (Inr v, s')" "\<exists>v s'. prepare_kill example_kill ex_killed = (Inr v, s')"
  subgoal by (insert session(1), elim conjE, erule answered)
  subgoal by (insert session(2), elim conjE, erule answered)
  subgoal by (insert session(3), elim conjE, erule answered)
  done

end
