(* ===== verification/Rejections.thy ===== *)
theory Rejections
  imports Delete_Failure Observe
begin

text \<open>
  Requests the store refuses.  A refused request returns an error and leaves the whole store as it was:
  nothing is journaled, claimed or published.
\<close>

definition rejects :: "'a store_m \<Rightarrow> DurableStateStore \<Rightarrow> bool" where
  "rejects m s \<longleftrightarrow> (\<exists>e. m s = (Inl e, s))"

lemma rejects_throw: "rejects (m_throw e) s"
  by (simp add: rejects_def m_throw_def)

text \<open>A read followed by code that refuses whatever the read returns.\<close>

lemma rejects_bind:
  assumes "read_only m" "\<And>v. m s = (Inr v, s) \<Longrightarrow> rejects (f v) s"
  shows "rejects (m_bind m f) s"
proof (cases "m s")
  case (Pair r s')
  then have "s' = s" using assms(1) unfolding read_only_def by (metis snd_conv)
  with Pair assms(2) show ?thesis by (cases r) (auto simp: rejects_def m_bind_def)
qed

lemma load_stored_container_live:
  assumes "load_stored_container c s = (Inr r, s')"
  shows "live_record (disk s) c = Some r"
  using assms
  by (auto simp: load_stored_container_def load_stored_container_from_directory_def on_disk_def external_def m_defs
      m_reject_def load_bundle_from_directory_def live_record_def split: sum.splits option.splits if_splits prod.splits)

lemma load_operation_if_present_result:
  assumes "load_operation_if_present i s = (Inr v, s')"
  shows "v = map_of (operations (disk s)) i"
  using assms
  by (auto simp: load_operation_if_present_def load_operation_def on_disk_def external_def m_defs m_reject_def
      split: sum.splits option.splits if_splits prod.splits)

text \<open>The frame of every prepare method, up to the point where it decides.\<close>

lemma rejects_loaded:
  assumes "\<And>v. v = map_of (operations (disk s)) i \<Longrightarrow> rejects (f v) s"
  shows "rejects (m_bind (load_operation_if_present i) f) s"
  by (rule rejects_bind [OF load_operation_if_present_read_only]) (auto dest: load_operation_if_present_result intro: assms)

lemma rejects_container:
  assumes "\<And>r. live_record (disk s) c = Some r \<Longrightarrow> rejects (f r) s"
  shows "rejects (m_bind (load_stored_container c) f) s"
  by (rule rejects_bind [OF load_container_read_only(2)]) (auto dest: load_stored_container_live intro: assms)

lemma validate_deadline_read_only [read_only_intros]: "read_only (validate_deadline ctx name)"
  by (auto simp: validate_deadline_def intro!: read_only_intros split: option.split)

lemma external_read_only [read_only_intros]: "read_only (external f)"
  by (auto simp: external_def intro!: read_only_intros)

lemma rejects_external: "(\<And>v. rejects (f v) s) \<Longrightarrow> rejects (m_bind (external g) f) s"
  by (rule rejects_bind [OF external_read_only])

lemma rejects_deadline: "(\<And>v. rejects (f v) s) \<Longrightarrow> rejects (m_bind (validate_deadline ctx name) f) s"
  by (rule rejects_bind [OF validate_deadline_read_only])

lemma rejects_lifted: "(\<And>v. r = Inr v \<Longrightarrow> rejects (f v) s) \<Longrightarrow> rejects (m_bind (m_lift r) f) s"
  by (cases r) (auto simp: rejects_def m_bind_def m_lift_def)

lemmas rejects_frame = rejects_external rejects_loaded rejects_deadline rejects_container rejects_lifted

text \<open>A new operation whose target names another generation than the live one is refused.\<close>

definition wrong_generation :: "disk \<Rightarrow> ContainerTarget \<Rightarrow> bool" where
  "wrong_generation d target \<longleftrightarrow>
     (\<exists>g. ct_generation target = Some g \<and> (\<forall>r. live_record d (ct_id target) = Some r \<longrightarrow> generation_of r \<noteq> g))"

lemma wrong_generation_refused:
  assumes "validate_requested_generation r target name = Inr v" "wrong_generation d target"
    "live_record d (ct_id target) = Some r"
  shows "P"
  using assms by (auto simp: wrong_generation_def validate_requested_generation_def split: if_splits)

lemma generation_fence_rules:
  assumes "wrong_generation (disk s) target" "map_of (operations (disk s)) (oc_operation_id ctx) = None"
  shows "rejects (prepare_start \<lparr>co_context = ctx, co_target = target\<rparr>) s"
    "rejects (prepare_kill \<lparr>kq_context = ctx, kq_target = target, kq_signal = sig, kq_all = al\<rparr>) s"
    "rejects (prepare_freezer \<lparr>co_context = ctx, co_target = target\<rparr> action) s"
    "rejects (prepare_update \<lparr>uq_context = ctx, uq_target = target, uq_resources = res\<rparr>) s"
    "rejects (prepare_delete \<lparr>dq_context = ctx, dq_target = target, dq_mode = mode\<rparr>) s"
    "rejects (prepare_exec \<lparr>xq_context = ctx, xq_container = target, xq_process_id = p, xq_process = doc, xq_io = io\<rparr>) s"
    "rejects (prepare_signal_process \<lparr>sq_context = ctx,
       sq_process = \<lparr>pt_container = target, pt_process_id = p\<rparr>, sq_signal = sig\<rparr>) s"
    "rejects (prepare_process_io_operation ctx \<lparr>pt_container = target, pt_process_id = p\<rparr> digest profile) s"
    "rejects (observe_state_inner target status pid paused recreated) s"
    "rejects (state_request target) s" "rejects (bundle_request target) s"
  unfolding prepare_start_def prepare_kill_def prepare_freezer_def prepare_update_def prepare_delete_def
    prepare_exec_def prepare_signal_process_def prepare_process_io_operation_def observe_state_inner_def
    state_request_def bundle_request_def Let_def
  using assms(2) by (auto intro!: rejects_frame split: option.split elim!: wrong_generation_refused [OF _ assms(1)])

section \<open>Operation identifiers that cannot be used\<close>

text \<open>The identifier already names an operation of another kind or container, or one that failed.\<close>

definition unusable :: "StoredOperation \<Rightarrow> StoredOperationKind \<Rightarrow> ContainerId \<Rightarrow> bool" where
  "unusable oper k c \<longleftrightarrow> so_kind oper \<noteq> k \<or> so_container_id oper \<noteq> c \<or> is_failed (so_outcome oper)"

lemma validate_retry_accepts:
  assumes "validate_retry oper k c digests name = Inr u"
  shows "so_kind oper = k" "so_container_id oper = c"
  using assms by (auto simp: validate_retry_def r_bind_Inr_iff)

lemma validate_process_retry_accepts:
  assumes "validate_process_retry oper k c p digests name = Inr u"
  shows "so_kind oper = k" "so_container_id oper = c" "so_process_id oper = Some p"
  using assms validate_retry_accepts [of oper k c digests name]
  by (auto simp: validate_process_retry_def r_bind_Inr_iff)

lemma rejects_failed:
  assumes "is_failed out"
  shows "rejects (on_record_outcome name out f m) s" "rejects (on_empty_outcome name out g n) s"
    "rejects (on_process_outcome name out h q) s"
  using assms by (cases out; simp add: on_record_outcome_def on_empty_outcome_def on_process_outcome_def rejects_throw)+

lemma rejects_retry:
  assumes "unusable oper k c" "is_failed (so_outcome oper) \<Longrightarrow> rejects m s"
  shows "rejects (m_bind (m_lift (validate_retry oper k c digests name)) (\<lambda>_. m)) s"
  using assms validate_retry_accepts [of oper k c] by (intro rejects_lifted) (auto simp: unusable_def)

lemma rejects_process_retry:
  assumes "unusable oper k c" "is_failed (so_outcome oper) \<Longrightarrow> rejects m s"
  shows "rejects (m_bind (m_lift (validate_process_retry oper k c p digests name)) (\<lambda>_. m)) s"
  using assms validate_process_retry_accepts [of oper k c] by (intro rejects_lifted) (auto simp: unusable_def)

lemma operation_reuse_rules:
  assumes op: "map_of (operations (disk s)) (oc_operation_id ctx) = Some oper"
  shows "unusable oper KStart (ct_id target) \<Longrightarrow> rejects (prepare_start \<lparr>co_context = ctx, co_target = target\<rparr>) s"
    "unusable oper KKill (ct_id target) \<Longrightarrow>
       rejects (prepare_kill \<lparr>kq_context = ctx, kq_target = target, kq_signal = sig, kq_all = al\<rparr>) s"
    "unusable oper (freezer_kind action) (ct_id target) \<Longrightarrow>
       rejects (prepare_freezer \<lparr>co_context = ctx, co_target = target\<rparr> action) s"
    "unusable oper KUpdate (ct_id target) \<Longrightarrow>
       rejects (prepare_update \<lparr>uq_context = ctx, uq_target = target, uq_resources = res\<rparr>) s"
    "unusable oper KDelete (ct_id target) \<Longrightarrow>
       rejects (prepare_delete \<lparr>dq_context = ctx, dq_target = target, dq_mode = mode\<rparr>) s"
    "unusable oper KExec (ct_id target) \<Longrightarrow>
       rejects (prepare_exec \<lparr>xq_context = ctx, xq_container = target, xq_process_id = p, xq_process = doc, xq_io = io\<rparr>) s"
    "unusable oper KSignalProcess (ct_id target) \<Longrightarrow> rejects (prepare_signal_process \<lparr>sq_context = ctx,
       sq_process = \<lparr>pt_container = target, pt_process_id = p\<rparr>, sq_signal = sig\<rparr>) s"
    "unusable oper (pf_kind profile) (ct_id target) \<Longrightarrow>
       rejects (prepare_process_io_operation ctx \<lparr>pt_container = target, pt_process_id = p\<rparr> digest profile) s"
  unfolding prepare_start_def prepare_kill_def prepare_freezer_def prepare_update_def prepare_delete_def
    prepare_exec_def prepare_signal_process_def prepare_process_io_operation_def retry_start_def retry_kill_def
    retry_freezer_def retry_update_def retry_delete_def retry_exec_def Let_def
  using op
  by (auto intro!: rejects_external rejects_loaded rejects_retry rejects_process_retry rejects_failed)

lemma create_reuse_rejected:
  assumes "map_of (operations (disk s)) (oc_operation_id (cq_context request)) = Some oper"
    "so_kind oper \<noteq> KCreate \<or> so_container_id oper \<noteq> cq_id request"
  shows "rejects (prepare_create_with_inherited_descriptors request driver inherited) s"
  unfolding prepare_create_with_inherited_descriptors_def retry_create_def validate_create_retry_def
  using assms by (auto intro!: rejects_external rejects_loaded rejects_lifted dest: validate_retry_accepts)

section \<open>Containers in the wrong state\<close>

lemma rejects_guard: "(\<not> c \<Longrightarrow> rejects (f ()) s) \<Longrightarrow> rejects (m_bind (m_reject c e) f) s"
  by (cases c) (auto simp: rejects_def m_reject_def m_defs)

lemma rejects_on_disk: "rejects (f (g (disk s))) s \<Longrightarrow> rejects (m_bind (on_disk g) f) s"
  by (simp add: rejects_def on_disk_def m_defs)

lemma wrong_state_rules:
  assumes new: "map_of (operations (disk s)) (oc_operation_id ctx) = None" and live: "live_record (disk s) (ct_id target) = Some r"
  shows "status_of r \<noteq> StCreated \<Longrightarrow> rejects (prepare_start \<lparr>co_context = ctx, co_target = target\<rparr>) s"
    "status_of r \<notin> {StCreated, StRunning} \<Longrightarrow>
       rejects (prepare_kill \<lparr>kq_context = ctx, kq_target = target, kq_signal = sig, kq_all = al\<rparr>) s"
    "status_of r \<noteq> StRunning \<Longrightarrow> rejects (prepare_freezer \<lparr>co_context = ctx, co_target = target\<rparr> action) s"
    "status_of r \<notin> {StCreated, StRunning} \<Longrightarrow>
       rejects (prepare_update \<lparr>uq_context = ctx, uq_target = target, uq_resources = res\<rparr>) s"
    "status_of r \<noteq> StStopped \<Longrightarrow>
       rejects (prepare_delete \<lparr>dq_context = ctx, dq_target = target, dq_mode = StoppedOnly\<rparr>) s"
    "status_of r = StCreating \<Longrightarrow>
       rejects (prepare_delete \<lparr>dq_context = ctx, dq_target = target, dq_mode = Force\<rparr>) s"
    "status_of r \<noteq> StRunning \<or> is_paused (cr_state (sc_record r)) \<or> sc_active_operation r \<noteq> None \<Longrightarrow>
       rejects (prepare_exec \<lparr>xq_context = ctx, xq_container = target, xq_process_id = p, xq_process = doc, xq_io = io\<rparr>) s"
    "sc_active_operation r \<noteq> None \<Longrightarrow> rejects (prepare_signal_process \<lparr>sq_context = ctx,
       sq_process = \<lparr>pt_container = target, pt_process_id = p\<rparr>, sq_signal = sig\<rparr>) s"
  unfolding prepare_start_def prepare_kill_def prepare_freezer_def prepare_update_def prepare_delete_def
    prepare_exec_def prepare_signal_process_def ensure_container_unclaimed_def Let_def
  using new live
  by (auto intro!: rejects_frame rejects_guard split: option.split)

lemma create_existing_rejected:
  assumes "map_of (operations (disk s)) (oc_operation_id (cq_context request)) = None"
    "live_record (disk s) (cq_id request) = Some r"
  shows "rejects (prepare_create_with_inherited_descriptors request driver inherited) s"
proof -
  have "map_of (directories (disk s)) (Live (cq_id request)) \<noteq> None"
    using assms(2) by (auto simp: live_record_def split: bind_splits)
  then show ?thesis
    unfolding prepare_create_with_inherited_descriptors_def
    using assms(1) by (auto intro!: rejects_external rejects_loaded rejects_deadline rejects_on_disk rejects_guard)
qed

section \<open>Recorded failures\<close>

lemma load_recorded_operation:
  assumes "store_inv (ext s) (disk s)" "map_of (operations (disk s)) i = Some oper"
  shows "load_operation_if_present i s = (Inr (Some oper), s)"
proof -
  have "op_ok (ext s) (disk s) i oper" using assms by (simp add: store_inv_def inv_operations_def)
  then show ?thesis
    using assms(2)
    by (simp add: load_operation_if_present_def load_operation_def on_disk_def external_def m_defs m_reject_def op_ok_def)
qed

text \<open>A retry of the request that failed is answered with the recorded failure.\<close>

lemma failure_replay_rules:
  assumes inv: "store_inv (ext s) (disk s)" and op: "map_of (operations (disk s)) i = Some oper" "so_outcome oper = Failed e"
  shows "i = oc_operation_id (co_context request) \<Longrightarrow>
      request_digest (ext s) (StartFingerprint (co_target request)) op_digest_start_request = Inr digest \<Longrightarrow>
      validate_retry oper KStart (ct_id (co_target request)) digest op_prepare_start = Inr () \<Longrightarrow>
      prepare_start request s = (Inl e, s)"
    "i = oc_operation_id (kq_context kill) \<Longrightarrow>
      request_digest (ext s) (KillFingerprint (kq_target kill) (kq_signal kill) (kq_all kill)) op_digest_kill_request = Inr digest \<Longrightarrow>
      validate_retry oper KKill (ct_id (kq_target kill)) digest op_prepare_kill = Inr () \<Longrightarrow>
      prepare_kill kill s = (Inl e, s)"
    "i = oc_operation_id (dq_context delete) \<Longrightarrow>
      request_digest (ext s) (DeleteFingerprint (dq_target delete) (dq_mode delete)) op_digest_delete_request = Inr digest \<Longrightarrow>
      validate_retry oper KDelete (ct_id (dq_target delete)) digest op_prepare_delete = Inr () \<Longrightarrow>
      prepare_delete delete s = (Inl e, s)"
  using load_recorded_operation [OF inv op(1)] op(2)
  by (simp_all add: prepare_start_def prepare_kill_def prepare_delete_def retry_start_def retry_kill_def retry_delete_def
      external_def m_defs on_record_outcome_def on_empty_outcome_def)

end
