(* ===== verification/Journal_Correctness.thy ===== *)
theory Journal_Correctness
  imports Event_Journal Requests
begin

text \<open>
  The guarantees of atomic file replacement and of the event journal, for every behaviour of the fault
  injector, and the progress they make when the injector stays quiet.
\<close>

section \<open>Quiet runs\<close>

text \<open>A store whose injector never fires and whose records stay under the size limit.\<close>

definition quiet :: "DurableStateStore \<Rightarrow> bool" where
  "quiet s \<longleftrightarrow> (\<forall>log. faults s log = None) \<and> (\<forall>c. x_file_len (ext s) c \<le> MAX_STATE_FILE_BYTES)"

lemma quiet_env: "quiet s \<Longrightarrow> same_env s s' \<Longrightarrow> quiet s'"
  by (simp add: quiet_def same_env_def)

lemma fault_check_quiet: "quiet s \<Longrightarrow> fault_check p s = (Inr (), s\<lparr>fault_log := p # fault_log s\<rparr>)"
  by (simp add: quiet_def fault_check_def Let_def)

lemma quiet_simps [simp]:
  "quiet (s\<lparr>fault_log := l\<rparr>) = quiet s" "quiet (set_temp p s) = quiet s"
  "quiet (commit_temp p c s) = quiet s" "quiet (s\<lparr>disk := d\<rparr>) = quiet s" "quiet (s\<lparr>temps := t\<rparr>) = quiet s"
  by (simp_all add: quiet_def set_temp_def commit_temp_def)

lemma atomic_write_quiet:
  assumes "quiet s" "\<not> is_directory_move mutation" "parent_exists path (disk s)"
  shows "\<exists>s'. atomic_write mutation path content s = (Inr (), s') \<and> same_env s s'
           \<and> disk s' = replace_file path content (disk s)"
proof -
  have "\<not> MAX_STATE_FILE_BYTES < x_file_len (ext s) content"
    using assms(1) by (simp add: quiet_def not_less)
  with assms obtain s' where "atomic_write mutation path content s = (Inr (), s')"
    by (simp add: atomic_write_def m_defs on_disk_def fault_check_quiet)
  then show ?thesis using atomic_write_Inr(1,4) [of mutation path content s "()" s'] by blast
qed

lemma ensure_event_record_quiet:
  assumes "quiet s" "\<And>r. map_of (event_records (disk s)) (ev_sequence e) = Some r \<Longrightarrow> r = event_record e"
  shows "\<exists>s'. ensure_event_record e s = (Inr (), s') \<and> same_env s s'"
proof (cases "map_of (event_records (disk s)) (ev_sequence e)")
  case None
  obtain s' where "atomic_write StoreRuntimeEvent (EventRecordPath (ev_sequence e))
      (EventFile (event_record e)) s = (Inr (), s')" "same_env s s'"
    using atomic_write_quiet [of s StoreRuntimeEvent "EventRecordPath (ev_sequence e)"] assms(1)
    by (auto simp: is_directory_move_def)
  then show ?thesis
    using None by (simp add: ensure_event_record_def m_defs on_disk_def event_record_def Let_def)
next
  case (Some r)
  then show ?thesis
    using assms(2) by (simp add: ensure_event_record_def m_defs on_disk_def event_record_def Let_def same_env_def)
qed


text \<open>With no claim for the identity, the append writes cursor, claim and record and returns the event.\<close>

lemma append_event_quiet:
  assumes q: "quiet s" and inv: "journal_inv (ext s) (disk s)"
    and key: "exact_target_key target = Inr key"
    and none: "map_of (event_claims (disk s)) (event_identity_hash (ext s) ident) = None"
    and sq: "checked_succ (cursor_last (disk s)) = Some sq"
    and t: "event_timestamp s = Inr t"
    and ok: "validate_exact_event_target (new_event sq t target oid pid kind attrs) = Inr ()"
  shows "\<exists>s'. append_event ident target oid pid kind attrs s = (Inr (new_event sq t target oid pid kind attrs), s')"
proof -
  obtain cu where cu: "load_event_cursor s = (Inr cu, s)" "sec_last_sequence cu = cursor_last (disk s)"
    using load_event_cursor_ok [OF inv] by blast
  obtain s1 where s1: "atomic_write AdvanceEventSequence EventCursorPath
      (CursorFile (cu\<lparr>sec_last_sequence := sq\<rparr>)) s = (Inr (), s1)" "same_env s s1"
      "disk s1 = (disk s)\<lparr>event_cursor := Some (cu\<lparr>sec_last_sequence := sq\<rparr>)\<rparr>"
    using atomic_write_quiet [OF q, of AdvanceEventSequence EventCursorPath
        "CursorFile (cu\<lparr>sec_last_sequence := sq\<rparr>)"] by (auto simp: is_directory_move_def)
  have t1: "event_timestamp s1 = Inr t" using t s1(2) by (simp add: event_timestamp_def same_env_def)
  let ?e = "new_event sq t target oid pid kind attrs"
  obtain s2 where s2: "atomic_write ClaimRuntimeEvent (EventClaimPath (event_identity_hash (ext s) ident))
      (ClaimFile \<lparr>sev_schema_version = EVENT_CLAIM_SCHEMA_VERSION, sev_identity = ident, sev_event = ?e\<rparr>) s1
      = (Inr (), s2)" "same_env s1 s2" "event_records (disk s2) = event_records (disk s1)"
    using atomic_write_quiet [OF quiet_env [OF q s1(2)], of ClaimRuntimeEvent
        "EventClaimPath (event_identity_hash (ext s) ident)" "ClaimFile \<lparr>sev_schema_version =
          EVENT_CLAIM_SCHEMA_VERSION, sev_identity = ident, sev_event = ?e\<rparr>"] by (auto simp: is_directory_move_def)
  have "map_of (event_records (disk s2)) sq = None"
  proof (rule ccontr)
    assume "map_of (event_records (disk s2)) sq \<noteq> None"
    then obtain r where "map_of (event_records (disk s)) sq = Some r" using s2(3) s1(3) by auto
    then obtain h c where "map_of (event_claims (disk s)) h = Some c" "sq = ev_sequence (sev_event c)"
      using inv unfolding journal_inv_def records_claimed_def by blast
    with claims_below_cursor [OF inv sq] show False by auto
  qed
  then obtain s3 where s3: "ensure_event_record ?e s2 = (Inr (), s3)"
    using ensure_event_record_quiet [of s2 ?e] quiet_env [OF quiet_env [OF q s1(2)] s2(2)] by auto
  have "append_event ident target oid pid kind attrs s = (Inr ?e, s3)"
    unfolding append_event_def Let_def new_event_def [symmetric]
    using key none cu sq s1(1) t1 ok s2(1) s3 by (simp add: m_defs on_disk_def)
  then show ?thesis by blast
qed

text \<open>A claimed identity is answered from the journal: same event, nothing written, whatever the
  injector does.\<close>

lemma append_event_replay:
  assumes pub: "event_published ident target oid pid kind attrs e s"
    and inv: "journal_inv (ext s) (disk s)"
  shows "append_event ident target oid pid kind attrs s = (Inr e, s)"
proof -
  obtain c where c: "map_of (event_claims (disk s)) (event_identity_hash (ext s) ident) = Some c"
    "sev_identity c = ident" "sev_event c = e"
    using pub by (auto simp: event_published_def)
  note v = journal_inv_claim [OF inv c(1)]
  have tgt: "ev_container e = target"
    using pub validate_claimed_event_Inr by (fastforce simp: event_published_def)
  obtain key where key: "exact_target_key target = Inr key"
    using v(1) c(3) tgt by (auto simp: valid_claim_def validate_exact_event_target_def r_bind_Inr_iff)
  obtain cu where cu: "load_event_cursor s = (Inr cu, s)" "sec_last_sequence cu = cursor_last (disk s)"
    using load_event_cursor_ok [OF inv] by blast
  have "load_event_claim (event_identity_hash (ext s) ident) ident s = (Inr c, s)"
    using c v cu by (simp add: load_event_claim_def m_defs on_disk_def valid_claim_def not_less)
  moreover have "ensure_event_record e s = (Inr (), s)"
    using pub by (simp add: ensure_event_record_def m_defs on_disk_def event_record_def event_published_def Let_def)
  ultimately show ?thesis
    unfolding append_event_def
    using pub c key by (simp add: m_defs on_disk_def event_published_def)
qed

lemma event_published_later:
  assumes "event_published ident target oid pid kind attrs e s" "journal_call x (disk s) (disk t)" "ext t = ext s"
  shows "event_published ident target oid pid kind attrs e t"
  using assms journal_steps_le [of x "disk s" "disk t"]
  by (auto simp: event_published_def journal_call_def journal_le_def)

section \<open>Quiet polls\<close>

lemma m_fold_succeeds:
  "(\<And>y a. y \<in> set ys \<Longrightarrow> \<exists>b. f y a s = (Inr b, s)) \<Longrightarrow> \<exists>b. m_fold ys f acc s = (Inr b, s)"
proof (induction ys arbitrary: acc)
  case (Cons y ys)
  then obtain b where "f y acc s = (Inr b, s)" by fastforce
  with Cons show ?case by (simp add: m_bind_Inr)
qed (simp add: m_return_apply)








section \<open>Canonical record names\<close>

lemma digit_char_digit: "is_digit c \<Longrightarrow> digit_char (char_digit c) = c"
  by (simp add: is_digit_def digit_char_def char_digit_def)

lemma char_digit_less: "is_digit c \<Longrightarrow> char_digit c < 10"
  by (auto simp: is_digit_def char_digit_def)

lemma print_padded_parse_nat: "list_all is_digit xs \<Longrightarrow> print_padded (length xs) (parse_nat xs) = xs"
proof (induction xs rule: rev_induct)
  case (snoc c xs)
  then show ?case using char_digit_less [of c] by (simp add: digit_char_digit)
qed simp

section \<open>Properties\<close>





lemma example_journal_inv: "journal_inv x empty_disk"
  by (simp add: journal_inv_def empty_disk_def claims_ok_def claims_unique_def records_claimed_def
      distinct_keys_def)




text \<open>C33 \<open>(idempotent append)\<close>: once an append has returned an event, repeating it on any later
  journal returns the very same event and writes nothing, whatever the fault injector does.\<close>

theorem append_is_idempotent:
  assumes "journal_inv (ext s) (disk s)" "fmlookup attrs ATTR_OPERATION_ID = None"
    and "append_container_event suf target kind attrs s = (Inr e, s')"
    and "journal_call (ext s) (disk s') (disk t)" "ext t = ext s"
  shows "append_container_event suf target kind attrs t = (Inr e, t)"
proof -
  obtain key where key: "exact_target_key target = Inr key"
    and run: "append_event (CONTAINER_PREFIX @ key @ '':'' @ suf) target None None kind attrs s = (Inr e, s')"
    using assms(3) by (cases "exact_target_key target") (auto simp: append_container_event_def m_defs)
  note ev = evolvesD [OF append_event_evolves [OF assms(1) scoped_identity_ok(1) [OF assms(2)]] run]
  have call: "journal_call (ext s) (disk s) (disk s')" using ev(1) by (rule journal_call_steps)
  have pub: "event_published (CONTAINER_PREFIX @ key @ '':'' @ suf) target None None kind attrs e s'"
    using ev(3) by simp
  have env: "ext s' = ext s" using ev(2) by (simp add: same_env_def)
  have "journal_inv (ext t) (disk t)"
    using journal_call_inv [OF assms(4) journal_call_inv [OF call assms(1)]] assms(5) by simp
  then have "append_event (CONTAINER_PREFIX @ key @ '':'' @ suf) target None None kind attrs t = (Inr e, t)"
    using event_published_later [OF pub assms(4)] assms(5) env by (intro append_event_replay) simp_all
  then show ?thesis by (simp add: append_container_event_def key m_defs)
qed

lemma example_store_sel [simp]:
  "ext example_store = example_ext" "disk example_store = empty_disk" "faults example_store log = None"
  "system_time example_store = Some 1000"
  by (simp_all add: example_store_def)

lemma example_quiet: "quiet example_store"
  by (simp add: quiet_def example_ext_def MAX_STATE_FILE_BYTES_def)

lemma example_timestamp: "event_timestamp example_store = Inr 1000"
  by (simp add: event_timestamp_def word_le_nat_alt)



theorem append_is_idempotent_witness:
  "\<exists>e s'. append_container_event ''creating'' (target_exact ''box'' 1) ContainerCreating fmempty example_store
      = (Inr e, s')
     \<and> append_container_event ''creating'' (target_exact ''box'' 1) ContainerCreating fmempty s' = (Inr e, s')"
proof -
  have key: "exact_target_key (target_exact ''box'' 1) = Inr (''box'' @ '':'' @ print_nat 1)"
    by (simp add: exact_target_key_def)
  obtain s' where run: "append_event (CONTAINER_PREFIX @ (''box'' @ '':'' @ print_nat 1) @ '':'' @ ''creating'')
      (target_exact ''box'' 1) None None ContainerCreating fmempty example_store
      = (Inr (new_event 1 1000 (target_exact ''box'' 1) None None ContainerCreating fmempty), s')"
    using append_event_quiet [OF example_quiet _ key, where sq = 1 and t = 1000 and oid = None and pid = None
        and kind = ContainerCreating and attrs = fmempty and ident = "CONTAINER_PREFIX @ (''box'' @ '':'' @ print_nat 1) @ '':'' @ ''creating''"]
      example_journal_inv example_timestamp
    by (auto simp: cursor_last_def empty_disk_def checked_succ_def validate_exact_event_target_def key
        new_event_def is_process_event_def r_reject_def)
  let ?e = "new_event 1 1000 (target_exact ''box'' 1) None None ContainerCreating fmempty"
  have run': "append_container_event ''creating'' (target_exact ''box'' 1) ContainerCreating fmempty example_store = (Inr ?e, s')"
    using run by (simp add: append_container_event_def key m_defs)
  have "ext s' = ext example_store"
    using evolvesD(2) [OF append_container_event_evolves run'] example_journal_inv by (simp add: same_env_def)
  then show ?thesis
    using append_is_idempotent [OF _ _ run', of s'] run' example_journal_inv by auto
qed

text \<open>C38 \<open>(record names)\<close>: event record names and sequence numbers correspond one to one: a name
  parses back to its sequence, the only name that parses to a sequence is its own, and no record name
  is mistaken for a transaction file.\<close>

theorem event_record_names_round_trip:
  "parse_event_record_name name = Inr q \<longleftrightarrow> name = event_record_name q \<and> \<not> is_transaction_file name"
proof
  assume p: "parse_event_record_name name = Inr q"
  then obtain v where v: "strip_suffix_str ''.json'' name = Some v" "length v = 20" "list_all is_digit v"
    "parse_nat v < 2 ^ 64" "q = word_of_nat (parse_nat v)"
    by (auto simp: parse_event_record_name_def split: option.splits if_splits)
  then have "unat q = parse_nat v" by (simp add: unsigned_of_nat take_bit_nat_eq_self)
  then have "name = event_record_name q"
    using strip_suffix_SomeD [OF v(1)] print_padded_parse_nat [OF v(3)] v(2)
    by (simp add: event_record_name_def json_name_def)
  then show "name = event_record_name q \<and> \<not> is_transaction_file name" by simp
next
  assume "name = event_record_name q \<and> \<not> is_transaction_file name"
  then show "parse_event_record_name name = Inr q" by (simp add: parse_event_record_name_round_trip)
qed












end
