(* ===== verification/Operation_Properties.thy ===== *)
theory Operation_Properties
  imports Process_Protocol Example_Session Rejections Journal_Correctness
begin

text \<open>
  What the operations of the durable store guarantee to their callers: the two phases of every operation, whatever
  calls and crashes come between them, retries, allocation of generations, and recorded failures.
\<close>

section \<open>Generations\<close>




section \<open>Operations on containers\<close>

text \<open>C8 \<open>(create)\<close>: a prepared creation owns the new container; whatever calls and crashes come before
  the completion, a completion that answers has settled the operation with exactly its answer, and unless something
  else settled it first, the container is created with the given process, free, and announced.\<close>

theorem create_two_phase:
  assumes "valid_id (oc_operation_id (cq_context request))" "valid_id (cq_id request)" "reachable x (disk s)" "ext s = x"
    "prepare_create_with_inherited_descriptors request driver inherited s = (Inr v, s1)" "v = PreparedRecord rec \<or> v = ResumeRecord rec"
    "(call_step x)\<^sup>*\<^sup>* (disk s1) (disk t)" "ext t = x"
    "complete_create (oc_operation_id (cq_context request)) pid t = (Inr rec', t')"
  shows "owns (disk s1) (oc_operation_id (cq_context request)) KCreate (cq_id request) rec
    \<and> settled (disk t') (oc_operation_id (cq_context request)) KCreate (cq_id request) (Succeeded rec')
    \<and> (settled (disk t) (oc_operation_id (cq_context request)) KCreate (cq_id request) Prepared \<longrightarrow>
       st_status (cr_state rec') = StCreated \<and> st_pid (cr_state rec') = Some pid
       \<and> (\<forall>k \<in> {ContainerCreated}. published (disk t') (target_exact (cq_id request) (cr_generation rec)) k)
       \<and> (\<exists>r. live_record (disk t') (cq_id request) = Some r \<and> sc_record r = rec' \<and> sc_active_operation r = None))"
  using create.two_phase_calls [of "(request, driver, inherited)" x s v s1 rec t pid rec' t'] assms by simp

theorem create_two_phase_witness:
  "\<exists>rec rec'. owns (disk ex_creating) ''c'' KCreate ''b'' rec \<and> settled (disk ex_created) ''c'' KCreate ''b'' (Succeeded rec')
     \<and> published (disk ex_created) (target_exact ''b'' (cr_generation rec)) ContainerCreated \<and> live_record (disk ex_created) ''b'' \<noteq> None"
proof -
  obtain rec rec' where p: "prepare_create_with_inherited_descriptors example_create NativeLinux None session_store = (Inr (PreparedRecord rec), ex_creating)"
    and c: "complete_create ''c'' 7 ex_creating = (Inr rec', ex_created)" 
    using answers_lifecycle(1,2) by blast
  note w = create_two_phase [where request = example_create, unfolded example_ids, OF session_valid(2) session_valid(1)
      visitedD [OF visited_states(1)] p disjI1 [OF refl] rtranclp.rtrancl_refl visitedD(2) [OF visited_states(2)] c]
  then show ?thesis using owns_settled [OF conjunct1 [OF w]] by auto
qed

text \<open>C9 \<open>(start)\<close>: a prepared start owns the container until it is settled, and the completion that
  settles it records exactly the status and process the driver reported and announces the start.\<close>

theorem start_two_phase:
  assumes "valid_id (oc_operation_id (co_context request))" "valid_id (ct_id (co_target request))" "reachable x (disk s)" "ext s = x"
    "prepare_start request s = (Inr v, s1)" "v = PreparedRecord rec \<or> v = ResumeRecord rec"
    "(call_step x)\<^sup>*\<^sup>* (disk s1) (disk t)" "ext t = x"
    "complete_start (oc_operation_id (co_context request)) status pid t = (Inr rec', t')"
  shows "owns (disk s1) (oc_operation_id (co_context request)) KStart (ct_id (co_target request)) rec
    \<and> settled (disk t') (oc_operation_id (co_context request)) KStart (ct_id (co_target request)) (Succeeded rec')
    \<and> (settled (disk t) (oc_operation_id (co_context request)) KStart (ct_id (co_target request)) Prepared \<longrightarrow>
       st_status (cr_state rec') = status \<and> st_pid (cr_state rec') = pid
       \<and> (\<forall>k \<in> start_events rec'. published (disk t') (target_exact (ct_id (co_target request)) (cr_generation rec)) k)
       \<and> (\<exists>r. live_record (disk t') (ct_id (co_target request)) = Some r \<and> sc_record r = rec' \<and> sc_active_operation r = None))"
  using start.two_phase_calls [of request x s v s1 rec t "(status, pid)" rec' t'] assms by simp

theorem start_two_phase_witness:
  "\<exists>rec rec'. owns (disk ex_starting) ''s'' KStart ''b'' rec \<and> settled (disk ex_running) ''s'' KStart ''b'' (Succeeded rec')
     \<and> live_record (disk ex_running) ''b'' \<noteq> None"
proof -
  obtain rec rec' where p: "prepare_start (example_operation ''s'') ex_created = (Inr (PreparedRecord rec), ex_starting)"
    and c: "complete_start ''s'' StRunning (Some 7) ex_starting = (Inr rec', ex_running)" 
    using answers_lifecycle(3,5) by blast
  note w = start_two_phase [where request = "example_operation ''s''", unfolded example_ids, OF session_valid(3) session_valid(1)
      visitedD [OF visited_states(3)] p disjI1 [OF refl] rtranclp.rtrancl_refl visitedD(2) [OF visited_states(4)] c]
  then show ?thesis using owns_settled [OF conjunct1 [OF w]] by auto
qed

text \<open>C10 \<open>(kill)\<close>: a prepared kill owns the container until it is settled, and the completion that
  settles it records exactly what the driver observed and announces the stop when there was one.\<close>

theorem kill_two_phase:
  assumes "valid_id (oc_operation_id (kq_context request))" "valid_id (ct_id (kq_target request))" "reachable x (disk s)" "ext s = x"
    "prepare_kill request s = (Inr v, s1)" "v = PreparedRecord rec \<or> v = ResumeRecord rec"
    "(call_step x)\<^sup>*\<^sup>* (disk s1) (disk t)" "ext t = x"
    "complete_kill (oc_operation_id (kq_context request)) status pid t = (Inr rec', t')"
  shows "owns (disk s1) (oc_operation_id (kq_context request)) KKill (ct_id (kq_target request)) rec
    \<and> settled (disk t') (oc_operation_id (kq_context request)) KKill (ct_id (kq_target request)) (Succeeded rec')
    \<and> (settled (disk t) (oc_operation_id (kq_context request)) KKill (ct_id (kq_target request)) Prepared \<longrightarrow>
       st_status (cr_state rec') = status \<and> st_pid (cr_state rec') = pid
       \<and> (\<forall>k \<in> (if st_status (cr_state rec') = StStopped then {ContainerStopped} else {}). published (disk t') (target_exact (ct_id (kq_target request)) (cr_generation rec)) k)
       \<and> (\<exists>r. live_record (disk t') (ct_id (kq_target request)) = Some r \<and> sc_record r = rec' \<and> sc_active_operation r = None))"
  using kill.two_phase_calls [of request x s v s1 rec t "(status, pid)" rec' t'] assms by simp

theorem kill_two_phase_witness:
  "\<exists>rec rec'. owns (disk ex_killing) ''k'' KKill ''b'' rec \<and> settled (disk ex_killed) ''k'' KKill ''b'' (Succeeded rec')
     \<and> live_record (disk ex_killed) ''b'' \<noteq> None"
proof -
  obtain rec rec' where p: "prepare_kill example_kill ex_updated = (Inr (PreparedRecord rec), ex_killing)"
    and c: "complete_kill ''k'' StRunning (Some 7) ex_killing = (Inr rec', ex_killed)" 
    using answers_removal(3,4) by blast
  note w = kill_two_phase [where request = example_kill, unfolded example_ids, OF session_valid(9) session_valid(1)
      visitedD [OF visited_states(17)] p disjI1 [OF refl] rtranclp.rtrancl_refl visitedD(2) [OF visited_states(18)] c]
  then show ?thesis using owns_settled [OF conjunct1 [OF w]] by auto
qed





section \<open>Retries\<close>

text \<open>C17 \<open>(exactly once, create)\<close>: once a creation is settled, no retry on any later store starts it again: a
  retry that answers is for the same container, replays the recorded response, rebound at most to a recovered
  process, and never turns a recorded failure into an answer.\<close>

theorem create_exactly_once:
  assumes "valid_id (oc_operation_id (cq_context request))" "valid_id (cq_id request)" "reachable x (disk s)" "ext s = x"
    "settled (disk s) (oc_operation_id (cq_context request)) k c out" "out \<noteq> Prepared"
    "(call_step x)\<^sup>*\<^sup>* (disk s) (disk t)" "ext t = x"
    "prepare_create_with_inherited_descriptors request driver inherited t = (Inr v, t')"
  shows "\<exists>rec rec'. k = KCreate \<and> c = cq_id request \<and> out = Succeeded rec \<and> v = ReplayedRecord rec' \<and> rebinds rec rec'"
  using create.exactly_once_calls [of "(request, driver, inherited)" x s k c out t v t'] assms by simp

text \<open>C18 \<open>(exactly once, kill)\<close>: once a kill is settled, no retry on any later store hands the signal to the
  driver again.\<close>

theorem kill_exactly_once:
  assumes "valid_id (oc_operation_id (kq_context request))" "valid_id (ct_id (kq_target request))"
    "reachable x (disk s)" "ext s = x"
    "settled (disk s) (oc_operation_id (kq_context request)) k c out" "out \<noteq> Prepared"
    "(call_step x)\<^sup>*\<^sup>* (disk s) (disk t)" "ext t = x" "prepare_kill request t = (Inr v, t')"
  shows "\<exists>rec rec'. k = KKill \<and> c = ct_id (kq_target request) \<and> out = Succeeded rec \<and> v = ReplayedRecord rec' \<and> rebinds rec rec'"
  using kill.exactly_once_calls [of request x s k c out t v t'] assms by simp

lemma session_settled:
  "\<exists>rec. settled (disk ex_created) ''c'' KCreate ''b'' (Succeeded rec)"
  "\<exists>rec. settled (disk ex_killed) ''k'' KKill ''b'' (Succeeded rec)"
  "settled (disk ex_written) ''w'' KWriteStdin ''b'' SucceededEmpty"
proof -
  obtain rec rec' where p: "prepare_create_with_inherited_descriptors example_create NativeLinux None session_store
      = (Inr (PreparedRecord rec), ex_creating)" and c: "complete_create ''c'' 7 ex_creating = (Inr rec', ex_created)"
    using answers_lifecycle(1,2) by blast
  show "\<exists>rec. settled (disk ex_created) ''c'' KCreate ''b'' (Succeeded rec)"
    using create.two_phase_calls [of "(example_create, NativeLinux, None)" session_ext session_store "PreparedRecord rec"
        ex_creating rec ex_creating 7 rec' ex_created] p c session_valid visitedD visited_states(1,2)
    by (auto simp: example_ids)
  obtain rec rec' where p: "prepare_kill example_kill ex_updated = (Inr (PreparedRecord rec), ex_killing)"
    and c: "complete_kill ''k'' StRunning (Some 7) ex_killing = (Inr rec', ex_killed)"
    using answers_removal(3,4) by blast
  show "\<exists>rec. settled (disk ex_killed) ''k'' KKill ''b'' (Succeeded rec)"
    using kill.two_phase_calls [of example_kill session_ext ex_updated "PreparedRecord rec"
        ex_killing rec ex_killing "(StRunning, Some 7)" rec' ex_killed] p c session_valid visitedD visited_states(17,18)
    by (auto simp: example_ids)
  obtain v u where p: "prepare_write_stdin example_write ex_execed = (Inr (IoPrepared example_process), ex_writing)"
    and c: "complete_write_stdin ''w'' ex_writing = (Inr u, ex_written)"
    using answers_process(3,4) by blast
  show "settled (disk ex_written) ''w'' KWriteStdin ''b'' SucceededEmpty"
    using write_stdin.two_phase_calls [of example_write session_ext ex_execed "IoPrepared example_process"
        ex_writing example_process ex_writing u ex_written] p c session_valid visitedD visited_states(10,11)
    by (auto simp: example_ids)
qed

lemma session_created: "\<exists>r. live_record (disk ex_created) ''b'' = Some r \<and> status_of r = StCreated"
proof -
  obtain rec rec' where p: "prepare_create_with_inherited_descriptors example_create NativeLinux None session_store
      = (Inr (PreparedRecord rec), ex_creating)" and c: "complete_create ''c'' 7 ex_creating = (Inr rec', ex_created)"
    using answers_lifecycle(1,2) by blast
  have w: "owns (disk ex_creating) ''c'' KCreate ''b'' rec \<and> (settled (disk ex_creating) ''c'' KCreate ''b'' Prepared \<longrightarrow>
      (\<exists>r. live_record (disk ex_created) ''b'' = Some r \<and> status_of r = StCreated))"
    using create.two_phase_calls [of "(example_create, NativeLinux, None)" session_ext session_store "PreparedRecord rec"
        ex_creating rec ex_creating 7 rec' ex_created] p c session_valid visitedD visited_states(1,2)
    by (auto simp: example_ids)
  then show ?thesis using owns_settled by blast
qed

theorem create_exactly_once_witness:
  "\<exists>rec. fst (prepare_create_with_inherited_descriptors example_create NativeLinux None ex_created) = Inr (ReplayedRecord rec)"
proof -
  obtain v t' where p: "prepare_create_with_inherited_descriptors example_create NativeLinux None ex_created = (Inr v, t')"
    using answers_retries(1) by blast
  obtain rec where "settled (disk ex_created) ''c'' KCreate ''b'' (Succeeded rec)" using session_settled(1) by blast
  from create_exactly_once [where request = example_create, unfolded example_ids, OF session_valid(2,1)
      visitedD [OF visited_states(3)] this _ rtranclp.rtrancl_refl visitedD(2) [OF visited_states(3)] p]
  show ?thesis using p by auto
qed

theorem kill_exactly_once_witness: "\<exists>rec. fst (prepare_kill example_kill ex_killed) = Inr (ReplayedRecord rec)"
proof -
  obtain v t' where p: "prepare_kill example_kill ex_killed = (Inr v, t')" using answers_retries(3) by blast
  obtain rec where "settled (disk ex_killed) ''k'' KKill ''b'' (Succeeded rec)" using session_settled(2) by blast
  from kill_exactly_once [where request = example_kill, unfolded example_ids, OF session_valid(9,1)
      visitedD [OF visited_states(19)] this _ rtranclp.rtrancl_refl visitedD(2) [OF visited_states(19)] p]
  show ?thesis using p by auto
qed

section \<open>Processes\<close>







text \<open>C22 \<open>(wait)\<close>: a wait that answers reports exactly the exit status it was completed with, and that status is
  durable in the record of the process.\<close>

theorem wait_records_exit:
  assumes "reachable (ext s) (disk s)" "complete_process_wait target status s = (Inr v, s')"
  shows "v = status \<and> (if is_init (pt_process_id target)
     then \<exists>r. live_record (disk s') (ct_id (pt_container target)) = Some r \<and> sc_init_exit_status r = Some status
     else \<exists>pr. process_record (disk s') (ct_id (pt_container target)) (pt_process_id target) = Some pr
            \<and> sp_exit_status pr = Some status)"
  using runsD(4) [OF runs_complete_process_wait reachable_inv [OF assms(1)] assms(2)]
  by (auto simp: exit_recorded_def split: if_splits)

theorem wait_records_exit_witness:
  "\<exists>pr. process_record (disk ex_exited) ''b'' ''p1'' = Some pr \<and> sp_exit_status pr = Some example_exit"
proof -
  obtain v where w: "complete_process_wait example_process example_exit ex_signaled = (Inr v, ex_exited)"
    using answers_process(7) by blast
  have "reachable (ext ex_signaled) (disk ex_signaled)" using visitedD [OF visited_states(14)] by simp
  from wait_records_exit [OF this w] show ?thesis by (simp add: example_ids is_init_def INIT_PROCESS_ID_def)
qed

section \<open>Removal and failures\<close>

text \<open>C13 \<open>(delete)\<close>: a prepared delete owns the container it removes; when its completion answers, the operation
  is settled, and unless it was settled before, that incarnation is gone, while a newer one may live under the same
  identifier, and its stop and deletion are announced.\<close>

theorem delete_two_phase:
  assumes "valid_id (oc_operation_id (dq_context request))" "valid_id (ct_id (dq_target request))"
    "reachable x (disk s)" "ext s = x"
    "prepare_delete request s = (Inr v, s1)" "v = DeletePrepared rec \<or> v = DeleteResume rec"
    "(call_step x)\<^sup>*\<^sup>* (disk s1) (disk t)" "ext t = x"
    "complete_delete (oc_operation_id (dq_context request)) t = (Inr u, t')"
  shows "owns (disk s1) (oc_operation_id (dq_context request)) KDelete (ct_id (dq_target request)) rec
    \<and> settled (disk t') (oc_operation_id (dq_context request)) KDelete (ct_id (dq_target request)) SucceededEmpty
    \<and> (settled (disk t) (oc_operation_id (dq_context request)) KDelete (ct_id (dq_target request)) Prepared \<longrightarrow>
         (\<forall>r. live_record (disk t') (ct_id (dq_target request)) = Some r \<longrightarrow> generation_of r \<noteq> cr_generation rec)
         \<and> (\<forall>k \<in> {ContainerStopped, ContainerDeleted}.
              published (disk t') (target_exact (ct_id (dq_target request)) (cr_generation rec)) k))"
proof -
  let ?i = "oc_operation_id (dq_context request)" and ?c = "ct_id (dq_target request)"
  have inv: "store_inv (ext s) (disk s)" using assms(3,4) reachable_inv by simp
  note p = runsD [OF runs_prepare_delete [OF assms(1,2)] inv assms(5)]
  have own: "owns (disk s1) ?i KDelete ?c rec" using p(4) assms(6) by (auto simp: delete_prepared_def)
  have "store_inv x (disk s1)" using p(2,3) assms(4) by (simp add: same_env_def)
  note b = calls_refine [OF assms(7) this]
  then have "store_inv (ext t) (disk t)" using assms(8) by simp
  note c = runsD(4) [OF runs_complete_delete this assms(9)]
  then obtain oper where oper: "map_of (operations (disk t)) ?i = Some oper"
    and fin: "settled (disk t') ?i KDelete (so_container_id oper) SucceededEmpty"
      "so_outcome oper = Prepared \<Longrightarrow> gone (disk t') oper
         \<and> (\<forall>k \<in> {ContainerStopped, ContainerDeleted}.
              published (disk t') (target_exact (so_container_id oper) (so_generation oper)) k)"
    by (auto simp: delete_completed_def)
  note o = owned_target [OF own store_steps_le oper]
  show ?thesis using own fin o b oper by (auto simp: settled_def gone_def)
qed

theorem delete_two_phase_witness:
  "settled (disk ex_deleted) ''d'' KDelete ''b'' SucceededEmpty
   \<and> (\<exists>g. published (disk ex_deleted) (target_exact ''b'' g) ContainerDeleted)"
proof -
  obtain v u where p: "prepare_delete example_delete ex_stopped = (Inr v, ex_deleting)" "prepared_deletion v"
    and c: "complete_delete ''d'' ex_deleting = (Inr u, ex_deleted)"
    using answers_removal(6,7) by blast
  obtain rec where v: "v = DeletePrepared rec" using p(2) by (cases v) (auto simp: prepared_deletion_def)
  note w = delete_two_phase [where request = example_delete, unfolded example_ids, OF session_valid(10,1)
      visitedD [OF visited_states(20)] p(1) disjI1 [OF v] rtranclp.rtrancl_refl visitedD(2) [OF visited_states(21)] c]
  then show ?thesis using owns_settled [OF conjunct1 [OF w]] by blast
qed

text \<open>C19 \<open>(recorded failure)\<close>: a final driver failure is recorded once: when recording it answers, the operation was
  prepared or already failed with the same error, it is now settled with exactly that error, and a creation is
  quarantined while any other operation gives up its container or process; a retryable failure changes nothing.\<close>

theorem failure_is_recorded:
  assumes "reachable (ext s) (disk s)" "fail_operation i e s = (Inr u, s')"
  shows "if err_retryable e then s' = s
    else \<exists>oper. map_of (operations (disk s)) i = Some oper \<and> so_outcome oper \<in> {Prepared, Failed e}
      \<and> settled (disk s') i (so_kind oper) (so_container_id oper) (Failed e)
      \<and> (so_outcome oper = Prepared \<longrightarrow>
           (if is_creation (so_kind oper)
            then \<forall>r. live_record (disk s') (so_container_id oper) = Some r \<longrightarrow> generation_of r \<noteq> so_generation oper
            else case so_process_id oper of
              Some p \<Rightarrow> \<not> process_owned (disk s') i (so_container_id oper) p
            | None \<Rightarrow> \<exists>r. live_record (disk s') (so_container_id oper) = Some r
                \<and> generation_of r = so_generation oper \<and> sc_active_operation r = None))"
  using runsD(4) [OF runs_fail_operation reachable_inv [OF assms(1)] assms(2)]
  unfolding operation_failed_def released_def gone_def by (auto split: if_splits)

lemma start_refused: "settled (disk ex_refused) ''s'' KStart ''b'' (Failed example_error)"
proof -
  obtain u where f: "fail_operation ''s'' example_error ex_starting = (Inr u, ex_refused)" using answers_lifecycle(4) by blast
  have "\<not> err_retryable example_error" by (simp add: example_error_def)
  with runsD(4) [OF runs_fail_operation visited_inv [OF visited_states(4)] f] obtain oper where
    oper: "map_of (operations (disk ex_starting)) ''s'' = Some oper"
    "settled (disk ex_refused) ''s'' (so_kind oper) (so_container_id oper) (Failed example_error)"
    by (auto simp: operation_failed_def)
  obtain rec where "prepare_start (example_operation ''s'') ex_created = (Inr (PreparedRecord rec), ex_starting)"
    using answers_lifecycle(3) by blast
  from runsD(4) [OF runs_prepare_start visited_inv [OF visited_states(3)] this]
  have "owns (disk ex_starting) ''s'' KStart ''b'' rec" using session_valid by (simp add: example_ids record_prepared_def)
  then show ?thesis using oper by (auto simp: owns_def)
qed

theorem failure_is_recorded_witness:
  "\<exists>oper r. map_of (operations (disk ex_refused)) ''s'' = Some oper \<and> so_outcome oper = Failed example_error
     \<and> live_record (disk ex_refused) ''b'' = Some r \<and> sc_active_operation r = None"
proof -
  obtain u where f: "fail_operation ''s'' example_error ex_starting = (Inr u, ex_refused)" using answers_lifecycle(4) by blast
  have "reachable (ext ex_starting) (disk ex_starting)" using visitedD [OF visited_states(4)] by simp
  note w = failure_is_recorded [OF this f]
  obtain rec where "prepare_start (example_operation ''s'') ex_created = (Inr (PreparedRecord rec), ex_starting)"
    using answers_lifecycle(3) by blast
  from runsD(4) [OF runs_prepare_start visited_inv [OF visited_states(3)] this]
  have own: "owns (disk ex_starting) ''s'' KStart ''b'' rec" using session_valid by (simp add: example_ids record_prepared_def)
  then obtain oper where oper: "map_of (operations (disk ex_starting)) ''s'' = Some oper" "so_kind oper = KStart"
    "so_container_id oper = ''b''" "so_outcome oper = Prepared" by (auto simp: owns_def)
  have "op_ok session_ext (disk ex_starting) ''s'' oper"
    using visited_inv [OF visited_states(4)] oper(1) visitedD(2) [OF visited_states(4)]
    by (simp add: store_inv_def inv_operations_def)
  then have "so_process_id oper = None" using oper(2) by (simp add: op_ok_def is_process_kind_def)
  then show ?thesis using w oper by (auto simp: example_error_def settled_def is_creation_def)
qed

text \<open>C20 \<open>(failure replay)\<close>: a failed operation stays failed: on every later store, repeating the request is answered
  with exactly the recorded error and changes nothing.\<close>

theorem failure_is_replayed:
  assumes "reachable x (disk s)" "ext s = x" "map_of (operations (disk s)) (oc_operation_id (co_context request)) = Some oper"
    "so_outcome oper = Failed e"
    "request_digest x (StartFingerprint (co_target request)) op_digest_start_request = Inr digest"
    "validate_retry oper KStart (ct_id (co_target request)) digest op_prepare_start = Inr ()"
    "(call_step x)\<^sup>*\<^sup>* (disk s) (disk t)" "ext t = x"
  shows "prepare_start request t = (Inl e, t)"
proof -
  note l = calls_refine [OF assms(7) reachable_inv [OF assms(1)]]
  have "store_le (disk s) (disk t)" using l store_steps_le by blast
  from store_leD [OF this assms(3)] obtain oper' where
    op: "map_of (operations (disk t)) (oc_operation_id (co_context request)) = Some oper'" "op_le oper oper'" by blast
  then have "oper' = oper" using assms(4) by (auto simp: op_le_def)
  then show ?thesis
    using failure_replay_rules(1) [of t "oc_operation_id (co_context request)" oper e request digest] l op assms by simp
qed

theorem failure_is_replayed_witness:
  "prepare_start (example_operation ''s'') ex_refused = (Inl example_error, ex_refused)"
proof -
  obtain oper digest where "map_of (operations (disk ex_refused)) ''s'' = Some oper"
    "request_digest (ext ex_refused) (StartFingerprint (target_current ''b'')) op_digest_start_request = Inr digest"
    "validate_retry oper KStart ''b'' digest op_prepare_start = Inr ()"
    using created_record(4) by (auto simp: repeats_start_def split: option.splits sum.splits)
  moreover have "so_outcome oper = Failed example_error" using start_refused calculation(1) by (auto simp: settled_def)
  ultimately show ?thesis
    using failure_is_replayed [of session_ext ex_refused "example_operation ''s''" oper example_error digest ex_refused]
      visitedD [OF visited_states(8)]
    by (simp add: example_ids) (simp add: example_operation_def)
qed

end
