(* ===== verification/Request_Properties.thy ===== *)
theory Request_Properties
  imports Operation_Properties
begin

text \<open>
  What the store guarantees about observations, listings and the requests it refuses.
\<close>

section \<open>Observations\<close>



text \<open>The reference for the container list: the records of the live containers in the order of their identifiers.\<close>

definition listing :: "ListRequest \<Rightarrow> disk \<Rightarrow> ContainerRecord list" where
  "listing request d =
     filter (\<lambda>rec. case lr_isolation request of None \<Rightarrow> True | Some isolation \<Rightarrow> cr_isolation rec = isolation)
       (map (\<lambda>c. sc_record (the (live_record d c))) (sorted_list_of_set {c. live_record d c \<noteq> None}))"

lemma strict_sorted_key_unique:
  fixes f :: "'a \<Rightarrow> 'b :: linorder"
  assumes "sorted_wrt (<) (map f xs)" "sorted_wrt (<) (map f ys)" "set xs = set ys"
  shows "xs = ys"
proof -
  have "map f xs = map f ys" using assms by (intro strict_sorted_equal) simp_all
  moreover have "inj_on f (set xs)" using assms(1) by (simp add: strict_sorted_iff distinct_map)
  ultimately show ?thesis using assms(3) by (metis Un_absorb map_inj_on)
qed

lemma finite_live: "finite {c. live_record d c \<noteq> None}"
proof -
  have "Live ` {c. live_record d c \<noteq> None} \<subseteq> dom (map_of (directories d))"
    by (auto simp: live_record_def split: bind_splits)
  then have "finite (Live ` {c. live_record d c \<noteq> None})" by (rule finite_subset) (rule finite_dom_map_of)
  then show ?thesis by (rule finite_imageD) (auto intro: inj_onI)
qed

lemma listing_listed:
  assumes "store_inv x d"
  shows "listed request d (listing request d)"
proof -
  let ?C = "{c. live_record d c \<noteq> None}" and ?rec = "\<lambda>c. sc_record (the (live_record d c))"
  let ?w = "\<lambda>rec. case lr_isolation request of None \<Rightarrow> True | Some isolation \<Rightarrow> cr_isolation rec = isolation"
  have w: "?w rec = wanted request rec" for rec by (auto simp: wanted_def split: option.split)
  have id: "st_id (cr_state (?rec c)) = c" if "c \<in> ?C" for c
    using that record_okI [OF assms] by (fastforce simp: record_ok_def)
  then have "map (\<lambda>rec. st_id (cr_state rec)) (listing request d) = filter (\<lambda>c. wanted request (?rec c)) (sorted_list_of_set ?C)"
    using finite_live [of d] by (auto simp: listing_def w filter_map o_def intro!: map_idI)
  then have "sorted_wrt (<) (map (\<lambda>rec. st_id (cr_state rec)) (listing request d))"
    by (simp add: sorted_wrt_filter)
  moreover have "rec \<in> set (listing request d) \<longleftrightarrow> wanted request rec \<and> (\<exists>c r. live_record d c = Some r \<and> sc_record r = rec)" for rec
    using finite_live [of d] by (force simp: listing_def w image_iff)
  ultimately show ?thesis by (simp add: listed_def)
qed

text \<open>C27 \<open>(list)\<close>: listing changes nothing and, when it answers, returns exactly the reference listing.\<close>

theorem list_is_exact:
  assumes "reachable (ext s) (disk s)" "list_containers request s = (Inr recs, s')"
  shows "s' = s \<and> recs = listing request (disk s)"
proof -
  note inv = reachable_inv [OF assms(1)]
  have l: "s' = s" "listed request (disk s) recs" using runsD(4) [OF runs_list_containers inv assms(2)] by simp_all
  have "recs = listing request (disk s)"
    by (rule strict_sorted_key_unique [of "\<lambda>rec. st_id (cr_state rec)"])
      (use l(2) listing_listed [OF inv, of request] in \<open>auto simp: listed_def\<close>)
  with l(1) show ?thesis by simp
qed

theorem list_is_exact_witness: "length (listing \<lparr>lr_isolation = None\<rparr> (disk ex_stopped)) = 1"
proof -
  have "gives (\<lambda>recs. length recs = 1) (fst (list_containers \<lparr>lr_isolation = None\<rparr> ex_stopped))"
    by (insert session(3), elim conjE, assumption)
  from answered_at [OF this refl] obtain recs s' where
    l: "list_containers \<lparr>lr_isolation = None\<rparr> ex_stopped = (Inr recs, s')" "length recs = 1" by blast
  have "reachable (ext ex_stopped) (disk ex_stopped)" using visitedD [OF visited_states(20)] by simp
  from list_is_exact [OF this l(1)] l(2) show ?thesis by simp
qed

section \<open>Requests that are refused\<close>





text \<open>C25 \<open>(lifecycle guards)\<close>: a new operation is refused, with the whole store left as it was, when the container
  is not in a state that allows it: start needs a created container, pause, resume and exec a running one, exec also
  one that is neither paused nor busy, kill and update a live one, delete a stopped one or, when forced, one that has
  been created; and an existing identifier cannot be created again.\<close>

theorem wrong_state_is_refused:
  assumes "map_of (operations (disk s)) (oc_operation_id ctx) = None" "live_record (disk s) (ct_id target) = Some r"
  shows "(status_of r \<noteq> StCreated \<longrightarrow> (\<exists>e. prepare_start \<lparr>co_context = ctx, co_target = target\<rparr> s = (Inl e, s)))
    \<and> (status_of r \<notin> {StCreated, StRunning} \<longrightarrow>
         (\<exists>e. prepare_kill \<lparr>kq_context = ctx, kq_target = target, kq_signal = sig, kq_all = al\<rparr> s = (Inl e, s))
         \<and> (\<exists>e. prepare_update \<lparr>uq_context = ctx, uq_target = target, uq_resources = res\<rparr> s = (Inl e, s)))
    \<and> (status_of r \<noteq> StRunning \<longrightarrow> (\<exists>e. prepare_freezer \<lparr>co_context = ctx, co_target = target\<rparr> action s = (Inl e, s)))
    \<and> (status_of r \<noteq> StStopped \<longrightarrow>
         (\<exists>e. prepare_delete \<lparr>dq_context = ctx, dq_target = target, dq_mode = StoppedOnly\<rparr> s = (Inl e, s)))
    \<and> (status_of r = StCreating \<longrightarrow>
         (\<exists>e. prepare_delete \<lparr>dq_context = ctx, dq_target = target, dq_mode = Force\<rparr> s = (Inl e, s)))
    \<and> (status_of r \<noteq> StRunning \<or> is_paused (cr_state (sc_record r)) \<or> sc_active_operation r \<noteq> None \<longrightarrow>
         (\<exists>e. prepare_exec \<lparr>xq_context = ctx, xq_container = target, xq_process_id = p, xq_process = doc, xq_io = io\<rparr> s = (Inl e, s)))
    \<and> (\<exists>e. prepare_create_with_inherited_descriptors \<lparr>cq_context = ctx, cq_id = ct_id target, cq_bundle = bundle,
            cq_isolation = isolation, cq_attachments = attachments\<rparr> driver inherited s = (Inl e, s))"
proof -
  note rules = wrong_state_rules [OF assms, unfolded rejects_def]
  have create: "rejects (prepare_create_with_inherited_descriptors \<lparr>cq_context = ctx, cq_id = ct_id target, cq_bundle = bundle,
      cq_isolation = isolation, cq_attachments = attachments\<rparr> driver inherited) s"
    by (rule create_existing_rejected) (use assms in simp_all)
  show ?thesis by (intro conjI impI; (erule rules | rule create [unfolded rejects_def]))
qed

theorem wrong_state_is_refused_witness:
  "\<exists>e. prepare_delete \<lparr>dq_context = example_context ''s'', dq_target = target_current ''b'', dq_mode = StoppedOnly\<rparr> ex_created
     = (Inl e, ex_created)"
proof -
  obtain r where r: "live_record (disk ex_created) ''b'' = Some r" "status_of r = StCreated" using session_created by blast
  with wrong_state_is_refused [of ex_created "example_context ''s''" "target_current ''b''" r] created_record(2)
  show ?thesis by (auto simp: example_context_def target_current_def)
qed

end
