(* ===== verification/Spec2Isabelle.thy ===== *)
theory Spec2Isabelle
  imports Request_Properties
begin

text \<open>
  Verification of the durable lifecycle core of the A3S OCI runtime.
\<close>

section \<open>Every history\<close>



text \<open>C2 \<open>(invariant)\<close>: every store reached from an empty one by calls, each of which may crash at any
  commit stage, satisfies the store invariant: journaled operations, generations, container and process
  records, claims and the event journal are well formed and agree with each other.\<close>

theorem reachable_store_is_valid:
  assumes "reachable x d"
  shows "store_inv x d"
  using assms by (rule reachable_inv)

theorem reachable_store_is_valid_witness: "store_inv session_ext (disk ex_deleted)"
  using reachable_store_is_valid [OF visitedD(1) [OF visited_states(22)]] .

text \<open>C6 \<open>(types)\<close>: a live container record of a reachable store is typed: it is filed under its own validated
  identifier, its state document names a process exactly when the container is created or running, only a
  running container is paused, and its generation lies between one and the last one allocated and was
  reserved by a journaled creation.\<close>

theorem live_records_are_typed:
  assumes "reachable x d" "live_record d c = Some r"
  shows "valid_id c \<and> sc_id r = c \<and> st_id (cr_state (sc_record r)) = c
    \<and> (st_pid (cr_state (sc_record r)) = None \<longleftrightarrow> status_of r \<in> {StCreating, StStopped})
    \<and> (\<forall>p. st_pid (cr_state (sc_record r)) = Some p \<longrightarrow> 0 < p)
    \<and> (is_paused (cr_state (sc_record r)) \<longrightarrow> status_of r = StRunning)
    \<and> 1 \<le> generation_of r \<and> generation_of r \<le> last_generation d c \<and> created d c (generation_of r)"
proof -
  have inv: "store_inv x d" using assms(1) by (rule reachable_inv)
  have "map_of (directories d) (Live c) \<noteq> None" using assms(2) by (auto simp: live_record_def split: bind_splits)
  then have "valid_id c" using inv by (simp add: store_inv_def inv_layout_def)
  moreover have "record_ok d c r" using record_okI [OF inv assms(2)] .
  ultimately show ?thesis
    by (cases "status_of r") (auto simp: record_ok_def state_ok_def word_le_nat_alt unat_gt_0 Suc_le_eq)
qed

theorem live_records_are_typed_witness:
  "\<exists>r. live_record (disk ex_created) ''b'' = Some r \<and> sc_id r = ''b'' \<and> created (disk ex_created) ''b'' 1"
  using created_record(1) live_records_are_typed [OF visitedD(1) [OF visited_states(3)], of "''b''"] by metis



text \<open>C3 \<open>(lifecycle)\<close>: as long as its directory is not moved to quarantine, an incarnation of a container
  stays: it keeps its identifier, generation, driver, isolation, bundle and attachments, its status never goes
  back in the order creating, created, running, stopped, and a recorded exit status never changes.\<close>

theorem lifecycle_never_goes_back:
  assumes "reachable x d" "(call_step x)\<^sup>*\<^sup>* d d'" "live_record d c = Some r" "\<not> quarantined d' c (generation_of r)"
  shows "\<exists>r'. live_record d' c = Some r' \<and> sc_id r' = sc_id r \<and> sc_attachments r' = sc_attachments r
    \<and> sc_record r' = (sc_record r)\<lparr>cr_state := cr_state (sc_record r')\<rparr>
    \<and> st_bundle (cr_state (sc_record r')) = st_bundle (cr_state (sc_record r))
    \<and> lifecycle_rank (lifecycle_state (status_of r)) \<le> lifecycle_rank (lifecycle_state (status_of r'))
    \<and> (\<forall>e. sc_init_exit_status r = Some e \<longrightarrow> sc_init_exit_status r' = Some e)"
proof -
  have "(store_step x)\<^sup>*\<^sup>* d d'" using calls_refine [OF assms(2) reachable_inv [OF assms(1)]] by blast
  from record_survives [OF this assms(3,4)] obtain r' where
    r': "live_record d' c = Some r'" "record_step\<^sup>*\<^sup>* r r'" by blast
  from record_steps_same_incarnation [OF r'(2)] r'(1) show ?thesis unfolding same_incarnation_def by blast
qed

theorem lifecycle_never_goes_back_witness:
  "\<exists>r r'. live_record (disk ex_created) ''b'' = Some r \<and> live_record (disk ex_running) ''b'' = Some r'
     \<and> generation_of r' = generation_of r"
proof -
  obtain r where r: "live_record (disk ex_created) ''b'' = Some r" using created_record(1) by blast
  have "map_of (directories (disk ex_running)) (Quarantined t) = None" for t
    using created_record(3) by (simp add: map_of_eq_None_iff flip: set_map)
  then have "\<not> quarantined (disk ex_running) ''b'' (generation_of r)" by (simp add: quarantined_def)
  from lifecycle_never_goes_back [OF visitedD(1) [OF visited_states(3)] rtranclp_trans [OF session_steps(1,2)] r this]
  show ?thesis using r by (metis ContainerRecord.select_convs(2) ContainerRecord.surjective ContainerRecord.update_convs)
qed



text \<open>C7 \<open>(incarnations)\<close>: a generation of a container is reserved by a single creation operation and
  lies in the allocated range.\<close>

theorem generation_has_one_creation:
  assumes "reachable x d" "map_of (operations d) i = Some oper" "is_creation (so_kind oper)"
  shows "1 \<le> so_generation oper \<and> so_generation oper \<le> last_generation d (so_container_id oper)
    \<and> (\<forall>j oper'. map_of (operations d) j = Some oper' \<longrightarrow> is_creation (so_kind oper') \<longrightarrow>
         so_container_id oper' = so_container_id oper \<longrightarrow> so_generation oper' = so_generation oper \<longrightarrow> j = i)"
proof -
  have inv: "store_inv x d" using assms(1) by (rule reachable_inv)
  have "op_ok x d i oper" using inv assms(2) by (simp add: store_inv_def inv_operations_def)
  then show ?thesis
    using inv assms(2,3) unfolding store_inv_def inv_creation_def op_ok_def
    by (auto simp: word_le_nat_alt unat_gt_0 Suc_le_eq)
qed

theorem generation_has_one_creation_witness:
  "\<exists>oper. map_of (operations (disk ex_created)) ''c'' = Some oper \<and> 1 \<le> so_generation oper"
proof -
  have "record_completed ''c'' KCreate (\<lambda>_. {ContainerCreated})
      (\<lambda>rec. st_status (cr_state rec) = StCreated \<and> st_pid (cr_state rec) = Some 7) ex_creating
      (projr (fst (complete_create ''c'' 7 ex_creating))) ex_created"
    using answers_lifecycle(2) runsD(4) [OF runs_complete_create visited_inv [OF visited_states(2)]] by fastforce
  then obtain oper where "map_of (operations (disk ex_created)) ''c'' = Some oper" "so_kind oper = KCreate"
    by (auto simp: record_completed_def settled_def)
  with generation_has_one_creation [OF visitedD(1) [OF visited_states(3)]] show ?thesis by (auto simp: is_creation_def)
qed

end
